(* ===== verification/Prelude.thy ===== *)
theory Prelude
  imports Main "HOL-Library.Word" "HOL-Library.Sublist" "HOL-Library.State_Monad"
begin

text \<open>
  Shared vocabulary of the development: Go strings (byte strings), Go error values, durations,
  and the generic lemmas the component theories share.

  A Go \<open>string\<close> is a byte sequence, and a HOL \<open>char\<close> is a byte, so Go strings are HOL strings.
  A Go \<open>error\<close> that is not nil is a \<open>goerr\<close>: the text its \<open>Error()\<close> method returns and the reason
  that the API machinery's classifiers (\<open>IsNotFound\<close>, \<open>IsAlreadyExists\<close>) read off it. Wrapping an
  error with the \<open>%w\<close> verb puts text in front and keeps the reason, because the classifiers unwrap.
\<close>

named_theorems wp_rules \<open>rules that move a weakest-precondition goal through a Go statement\<close>
named_theorems up_rules \<open>rules that move an invariant of the world through a Go statement\<close>
named_theorems go_defs \<open>definitions of small accessors that are always unfolded\<close>

type_synonym duration = "64 word"
type_synonym int32 = "32 word"
type_synonym env = "string \<rightharpoonup> string"

datatype api_reason = NotFound | AlreadyExists | OtherReason

record goerr =
  err_text :: string
  err_reason :: api_reason

definition is_not_found :: "goerr option \<Rightarrow> bool" where
  "is_not_found e = (case e of None \<Rightarrow> False | Some x \<Rightarrow> err_reason x = NotFound)"

definition is_already_exists :: "goerr option \<Rightarrow> bool" where
  "is_already_exists e = (case e of None \<Rightarrow> False | Some x \<Rightarrow> err_reason x = AlreadyExists)"

definition wrap_err :: "string \<Rightarrow> goerr \<Rightarrow> goerr" where
  "wrap_err pre e = e\<lparr>err_text := pre @ err_text e\<rparr>"

definition new_err :: "string \<Rightarrow> goerr" where
  "new_err t = \<lparr>err_text = t, err_reason = OtherReason\<rparr>"

text \<open>\<open>os.Getenv\<close> returns the empty string for a variable that is not set.\<close>

definition getenv :: "env \<Rightarrow> string \<Rightarrow> string" where
  "getenv en k = (case en k of None \<Rightarrow> [] | Some v \<Rightarrow> v)"

lemma is_not_found_simps [simp]:
  "is_not_found None = False"
  "is_not_found (Some e) = (err_reason e = NotFound)"
  by (simp_all add: is_not_found_def)

lemma is_already_exists_simps [simp]:
  "is_already_exists None = False"
  "is_already_exists (Some e) = (err_reason e = AlreadyExists)"
  by (simp_all add: is_already_exists_def)

lemma wrap_err_simps [simp]:
  "err_text (wrap_err pre e) = pre @ err_text e"
  "err_reason (wrap_err pre e) = err_reason e"
  by (simp_all add: wrap_err_def)

lemma new_err_simps [simp]:
  "err_text (new_err t) = t"
  "err_reason (new_err t) = OtherReason"
  by (simp_all add: new_err_def)

lemma getenv_upd [simp]:
  "getenv (en(k \<mapsto> v)) k = v"
  "k \<noteq> k' \<Longrightarrow> getenv (en(k \<mapsto> v)) k' = getenv en k'"
  by (simp_all add: getenv_def)

section \<open>Namespaced names and durations\<close>

text \<open>\<open>types.NamespacedName\<close>, which is also \<open>client.ObjectKey\<close>.\<close>

record nsname =
  nn_namespace :: string
  nn_name :: string

text \<open>
  \<open>time.Duration\<close> is an \<open>int64\<close> count of nanoseconds: a 64-bit word read as a signed number.
  Multiplication wraps around as it does in Go.
\<close>

definition go_second :: duration where
  "go_second = 1000000000"

definition go_millisecond :: duration where
  "go_millisecond = 1000000"

definition dur_pos :: "duration \<Rightarrow> bool" where
  "dur_pos d \<longleftrightarrow> 0 < sint d"

lemma dur_pos_seconds:
  assumes "0 < n" and "n \<le> 9223372036"
  shows "dur_pos (word_of_int n * go_second)"
    and "sint (word_of_int n * go_second) = n * 1000000000"
proof -
  have eq: "word_of_int n * go_second = (word_of_int (n * 1000000000) :: duration)"
    by (simp add: go_second_def)
  have "sint (word_of_int (n * 1000000000) :: duration) = n * 1000000000"
    using assms by (subst sint_sbintrunc') (simp add: signed_take_bit_int_eq_self)
  then show "sint (word_of_int n * go_second) = n * 1000000000"
    by (simp only: eq)
  then show "dur_pos (word_of_int n * go_second)"
    using assms by (simp add: dur_pos_def)
qed

section \<open>Lists and prefixes\<close>

lemma map_option_Suc_eq_Some:
  "map_option Suc x = Some n \<longleftrightarrow> (\<exists>m. x = Some m \<and> n = Suc m)"
  by (cases x) auto

lemma prefix_drop_append:
  "prefix p (drop i s) \<Longrightarrow> s = take i s @ p @ drop (i + length p) s"
  by (metis append_eq_conv_conj append_take_drop_id drop_drop add.commute prefix_def)

lemma case_sum_distrib_fun: "(case x of Inl a \<Rightarrow> f a | Inr b \<Rightarrow> g b) y = (case x of Inl a \<Rightarrow> f a y | Inr b \<Rightarrow> g b y)"
  by (cases x) auto

section \<open>Order in a sequence of calls\<close>

text \<open>\<open>guarded A B es\<close>: every \<open>B\<close> of the sequence has an \<open>A\<close> somewhere before it.\<close>

fun guarded :: "('e \<Rightarrow> bool) \<Rightarrow> ('e \<Rightarrow> bool) \<Rightarrow> 'e list \<Rightarrow> bool" where
  "guarded A B [] = True"
| "guarded A B (e # es) = (\<not> B e \<and> (A e \<or> guarded A B es))"

lemma guarded_append [simp]:
  "guarded A B (xs @ ys) \<longleftrightarrow> guarded A B xs \<and> (list_ex A xs \<or> guarded A B ys)"
  by (induction xs) auto

lemma guarded_none: "list_all (\<lambda>e. \<not> B e) es \<Longrightarrow> guarded A B es"
  by (induction es) auto

lemma guarded_iff:
  "guarded A B es \<longleftrightarrow> (\<forall>pre e post. es = pre @ e # post \<longrightarrow> B e \<longrightarrow> list_ex A pre)"
proof (induction es)
  case (Cons x es)
  show ?case
  proof
    assume "guarded A B (x # es)"
    with Cons.IH show "\<forall>pre e post. x # es = pre @ e # post \<longrightarrow> B e \<longrightarrow> list_ex A pre"
      by (auto simp: Cons_eq_append_conv)
  next
    assume r: "\<forall>pre e post. x # es = pre @ e # post \<longrightarrow> B e \<longrightarrow> list_ex A pre"
    have "list_ex A pre" if "\<not> A x" "es = pre @ e # post" "B e" for pre e post
      using r [rule_format, of "x # pre" e post] that by simp
    moreover have "\<not> B x" using r [rule_format, of "[]" x es] by auto
    ultimately show "guarded A B (x # es)" using Cons.IH by auto
  qed
qed simp

end
