(* ===== verification/Api_Types.thy ===== *)
theory Api_Types
  imports Prelude
begin

text \<open>
  The API types of \<open>api/v1alpha1\<close>. A pointer field is a parameter of its record type: the handlers
  work on values, where the kubeconfig pointer is an optional \<open>kubeconfig_ref\<close> and the condition
  slice a list, and the theory of the deep copies works on a heap, where the same fields hold
  addresses. \<open>object_meta\<close> and \<open>condition\<close> keep those fields of the API machinery's
  \<open>metav1.ObjectMeta\<close> and \<open>metav1.Condition\<close> that the operator reads or writes.
\<close>

section \<open>Metadata and conditions\<close>

record object_meta =
  om_name :: string
  om_namespace :: string
  om_generation :: "64 word"
  om_finalizers :: "string list"
  om_deletion_timestamp :: "int option"

record type_meta =
  tm_kind :: string
  tm_api_version :: string

record condition =
  cond_type :: string
  cond_status :: string
  cond_observed_generation :: "64 word"
  cond_last_transition_time :: "int option"
  cond_reason :: string
  cond_message :: string

section \<open>KryptonDeployment\<close>

definition phase_pending :: string where
  "phase_pending = ''Pending''"

definition phase_ready :: string where
  "phase_ready = ''Ready''"

definition phase_error :: string where
  "phase_error = ''Error''"

record account_info =
  ai_name :: string
  ai_display_name :: string
  ai_owner :: string

record secret_ref =
  sr_name :: string
  sr_namespace :: string

record kubeconfig_ref =
  kr_secret :: secret_ref

record 'p region_info =
  ri_name :: string
  ri_kubeconfig :: "'p option"
  ri_kubeconfig_secret_name :: string

record 'p kd_spec =
  ks_account :: account_info
  ks_region :: "'p region_info"

record 'c kd_status =
  st_phase :: string
  st_last_message :: string
  st_conditions :: 'c
  st_last_applied_chart :: string

record ('p, 'c) krypton_deployment =
  kd_type :: type_meta
  kd_meta :: object_meta
  kd_spec :: "'p kd_spec"
  kd_status :: "'c kd_status"

text \<open>The value a handler works on: pointers and slices read through.\<close>

type_synonym kdep = "(kubeconfig_ref, condition list) krypton_deployment"

abbreviation kd_name :: "('p, 'c) krypton_deployment \<Rightarrow> string" where
  "kd_name d \<equiv> om_name (kd_meta d)"

abbreviation kd_finalizers :: "('p, 'c) krypton_deployment \<Rightarrow> string list" where
  "kd_finalizers d \<equiv> om_finalizers (kd_meta d)"

abbreviation kd_region :: "('p, 'c) krypton_deployment \<Rightarrow> 'p region_info" where
  "kd_region d \<equiv> ks_region (kd_spec d)"

abbreviation kd_account :: "('p, 'c) krypton_deployment \<Rightarrow> account_info" where
  "kd_account d \<equiv> ks_account (kd_spec d)"

text \<open>\<open>SetFinalizers\<close> and the status writes of the handlers.\<close>

definition set_finalizers :: "string list \<Rightarrow> kdep \<Rightarrow> kdep" where
  "set_finalizers fs d = d\<lparr>kd_meta := (kd_meta d)\<lparr>om_finalizers := fs\<rparr>\<rparr>"

definition set_phase_message :: "string \<Rightarrow> string \<Rightarrow> kdep \<Rightarrow> kdep" where
  "set_phase_message ph msg d =
     d\<lparr>kd_status := (kd_status d)\<lparr>st_phase := ph, st_last_message := msg\<rparr>\<rparr>"

lemma set_finalizers_simps [simp]:
  "om_finalizers (kd_meta (set_finalizers fs d)) = fs"
  "om_name (kd_meta (set_finalizers fs d)) = kd_name d"
  "om_generation (kd_meta (set_finalizers fs d)) = om_generation (kd_meta d)"
  "om_deletion_timestamp (kd_meta (set_finalizers fs d)) = om_deletion_timestamp (kd_meta d)"
  "kd_spec (set_finalizers fs d) = kd_spec d"
  "kd_status (set_finalizers fs d) = kd_status d"
  by (simp_all add: set_finalizers_def)

lemma set_phase_message_simps [simp]:
  "st_phase (kd_status (set_phase_message ph msg d)) = ph"
  "st_last_message (kd_status (set_phase_message ph msg d)) = msg"
  "st_conditions (kd_status (set_phase_message ph msg d)) = st_conditions (kd_status d)"
  "st_last_applied_chart (kd_status (set_phase_message ph msg d)) =
     st_last_applied_chart (kd_status d)"
  "kd_meta (set_phase_message ph msg d) = kd_meta d"
  "kd_spec (set_phase_message ph msg d) = kd_spec d"
  by (simp_all add: set_phase_message_def)

section \<open>Account and Region\<close>

record account_spec =
  as_display_name :: string
  as_owner :: string

record 't account_status =
  acs_ready :: bool
  acs_last_sync_time :: "'t option"

record 't account =
  ac_type :: type_meta
  ac_meta :: object_meta
  ac_spec :: account_spec
  ac_status :: "'t account_status"

record region_spec =
  rs_kubeconfig_secret_name :: string

record region =
  rg_type :: type_meta
  rg_meta :: object_meta
  rg_spec :: region_spec

text \<open>\<open>metav1.ListMeta\<close>, and a list object: the item slice is a parameter, as above.\<close>

record list_meta =
  lm_resource_version :: string
  lm_continue :: string

record 'i list_object =
  lo_type :: type_meta
  lo_meta :: list_meta
  lo_items :: 'i

end
