(* ===== verification/Go_Strings.thy ===== *)
theory Go_Strings
  imports Prelude
begin

text \<open>
  The functions of Go's standard packages \<open>strings\<close>, \<open>strconv\<close>, \<open>fmt\<close> and \<open>path/filepath\<close> that
  the operator calls, on byte strings: \<open>Index\<close>, \<open>Contains\<close>, \<open>SplitN\<close>, \<open>Split\<close>, \<open>Join\<close>,
  \<open>TrimSpace\<close>, decimal formatting, \<open>Atoi\<close> and \<open>filepath.Join\<close> with the cleaning it does. They are the vocabulary
  of the component theories; each comes with the facts that characterise it.
\<close>

section \<open>Searching\<close>

text \<open>\<open>strings.Index\<close>: the first position where \<open>sub\<close> occurs; \<open>None\<close> is Go's \<open>-1\<close>.\<close>

fun str_index :: "string \<Rightarrow> string \<Rightarrow> nat option" where
  "str_index [] sub = (if sub = [] then Some 0 else None)"
| "str_index (c # cs) sub =
     (if prefix sub (c # cs) then Some 0 else map_option Suc (str_index cs sub))"

definition str_contains :: "string \<Rightarrow> string \<Rightarrow> bool" where
  "str_contains s sub = (str_index s sub \<noteq> None)"

lemma str_index_Some:
  "str_index s sub = Some i \<Longrightarrow> prefix sub (drop i s) \<and> i \<le> length s"
  by (induction s arbitrary: i) (auto split: if_splits)

lemma str_index_minimal:
  "str_index s sub = Some i \<Longrightarrow> j < i \<Longrightarrow> \<not> prefix sub (drop j s)"
proof (induction s arbitrary: i j)
  case Nil
  then show ?case by (simp split: if_splits)
next
  case (Cons c cs)
  then show ?case by (cases j) (auto split: if_splits)
qed

lemma str_index_None:
  "str_index s sub = None \<longleftrightarrow> (\<forall>i \<le> length s. \<not> prefix sub (drop i s))"
proof (induction s)
  case Nil
  then show ?case by simp
next
  case (Cons c cs)
  have "(\<forall>i \<le> length (c # cs). \<not> prefix sub (drop i (c # cs))) \<longleftrightarrow>
      \<not> prefix sub (c # cs) \<and> (\<forall>i \<le> length cs. \<not> prefix sub (drop i cs))"
    by (auto simp: All_less_Suc2 less_Suc_eq_le [symmetric])
  with Cons.IH show ?case by simp
qed

lemma str_index_decomp:
  assumes "str_index s sub = Some i"
  shows "s = take i s @ sub @ drop (i + length sub) s"
  using prefix_drop_append str_index_Some [OF assms] by blast

lemma str_contains_sublist: "str_contains s sub \<longleftrightarrow> sublist sub s"
proof
  assume "str_contains s sub"
  then obtain i where "str_index s sub = Some i" by (auto simp: str_contains_def)
  then have "s = take i s @ sub @ drop (i + length sub) s" by (rule str_index_decomp)
  then show "sublist sub s" by (auto simp: sublist_def)
next
  assume "sublist sub s"
  then obtain p q where s: "s = p @ sub @ q" by (auto simp: sublist_def)
  have "str_index s sub \<noteq> None"
  proof
    assume "str_index s sub = None"
    then have "\<not> prefix sub (drop (length p) s)"
      unfolding str_index_None using s by (metis length_append le_add1)
    then show False by (simp add: s)
  qed
  then show "str_contains s sub" by (simp add: str_contains_def)
qed

lemma str_index_single:
  "c \<notin> set p \<Longrightarrow> str_index (p @ c # q) [c] = Some (length p)"
  by (induction p) auto

lemma str_index_single_None: "str_index s [c] = None \<longleftrightarrow> c \<notin> set s"
  by (induction s) auto

section \<open>Splitting and joining\<close>

text \<open>
  \<open>strings.SplitN s sep n\<close> for a positive \<open>n\<close> and a separator that is not empty: at most \<open>n\<close>
  parts, the last one the unsplit rest.
\<close>

fun split_n :: "nat \<Rightarrow> string \<Rightarrow> string \<Rightarrow> string list" where
  "split_n 0 s sep = []"
| "split_n (Suc 0) s sep = [s]"
| "split_n (Suc (Suc n)) s sep =
     (case str_index s sep of
        None \<Rightarrow> [s]
      | Some i \<Rightarrow> take i s # split_n (Suc n) (drop (i + length sep) s) sep)"

text \<open>\<open>strings.Split\<close> and \<open>strings.SplitSeq\<close> with a separator of one byte.\<close>

fun split_char :: "char \<Rightarrow> string \<Rightarrow> string list" where
  "split_char c [] = [[]]"
| "split_char c (x # xs) =
     (if x = c then [] # split_char c xs
      else (case split_char c xs of [] \<Rightarrow> [[x]] | w # ws \<Rightarrow> (x # w) # ws))"

text \<open>\<open>strings.Join\<close>.\<close>

fun str_join :: "string list \<Rightarrow> string \<Rightarrow> string" where
  "str_join [] sep = []"
| "str_join [x] sep = x"
| "str_join (x # y # xs) sep = x @ sep @ str_join (y # xs) sep"

lemma split_char_nonempty [simp]: "split_char c s \<noteq> []"
  by (induction s) (auto split: list.splits)

lemma str_join_Cons: "xs \<noteq> [] \<Longrightarrow> str_join (x # xs) sep = x @ sep @ str_join xs sep"
  by (cases xs) auto

lemma str_join_split_char [simp]: "str_join (split_char c s) [c] = s"
proof (induction s)
  case Nil
  then show ?case by simp
next
  case (Cons x xs)
  then show ?case
    by (cases "split_char c xs"; cases "tl (split_char c xs)") (auto simp: str_join_Cons)
qed

lemma split_char_parts: "w \<in> set (split_char c s) \<Longrightarrow> c \<notin> set w"
  by (induction s arbitrary: w) (auto split: if_splits list.splits)

lemma split_char_append:
  "c \<notin> set p \<Longrightarrow> split_char c (p @ c # q) = p # split_char c q"
  by (induction p) auto

lemma split_char_fresh: "c \<notin> set p \<Longrightarrow> split_char c p = [p]"
  by (induction p) auto

lemma split_char_str_join:
  "ws \<noteq> [] \<Longrightarrow> \<forall>w \<in> set ws. c \<notin> set w \<Longrightarrow> split_char c (str_join ws [c]) = ws"
proof (induction ws)
  case (Cons w ws)
  then show ?case
    by (cases ws) (simp_all add: split_char_append split_char_fresh)
qed simp

lemma split_n_2_join:
  "split_n 2 s sep = [a, b] \<Longrightarrow> s = a @ sep @ b"
  using str_index_decomp [of s sep]
  by (auto simp: numeral_2_eq_2 split: option.splits)

lemma split_n_2_slash:
  "c \<notin> set a \<Longrightarrow> split_n 2 (a @ c # b) [c] = [a, b]"
  by (simp add: numeral_2_eq_2 str_index_single)

section \<open>Trimming white space\<close>

text \<open>
  \<open>strings.TrimSpace\<close> strips the code points with Unicode's White\_Space property from both ends.
  In UTF-8 each of them is one of the byte strings below; UTF-8 is self-synchronising, so a
  string starts (ends) with such a code point exactly when it starts (ends) with these bytes.
\<close>

definition white_space :: "string list" where
  "white_space =
     map (\<lambda>n. [char_of (n :: nat)]) [9, 10, 11, 12, 13, 32] @
     map (map char_of)
       ([[194, 133], [194, 160], [225, 154, 128],
         [226, 128, 128], [226, 128, 129], [226, 128, 130], [226, 128, 131], [226, 128, 132],
         [226, 128, 133], [226, 128, 134], [226, 128, 135], [226, 128, 136], [226, 128, 137],
         [226, 128, 138], [226, 128, 168], [226, 128, 169], [226, 128, 175], [226, 129, 159],
         [227, 128, 128]] :: nat list list)"

definition strip_one :: "string list \<Rightarrow> string \<Rightarrow> string option" where
  "strip_one ws s =
     (case find (\<lambda>w. prefix w s) ws of None \<Rightarrow> None | Some w \<Rightarrow> Some (drop (length w) s))"

lemma white_space_nonempty: "[] \<notin> set white_space"
  by (simp add: white_space_def)

lemma strip_one_length:
  assumes "strip_one ws s = Some t" and "[] \<notin> set ws"
  shows "length t < length s"
proof -
  from assms(1) obtain w where w: "find (\<lambda>w. prefix w s) ws = Some w" "t = drop (length w) s"
    by (auto simp: strip_one_def split: option.splits)
  then have "prefix w s" "w \<in> set ws" by (auto simp: find_Some_iff)
  with assms(2) have "0 < length w" "length w \<le> length s"
    by (auto dest: prefix_length_le)
  then show ?thesis unfolding w(2) by (cases w) auto
qed

function trim_left :: "string \<Rightarrow> string" where
  "trim_left s = (case strip_one white_space s of None \<Rightarrow> s | Some t \<Rightarrow> trim_left t)"
  by pat_completeness auto
termination
  by (relation "measure length") (auto dest: strip_one_length [OF _ white_space_nonempty])

function trim_right_rev :: "string \<Rightarrow> string" where
  "trim_right_rev s =
     (case strip_one (map rev white_space) s of None \<Rightarrow> s | Some t \<Rightarrow> trim_right_rev t)"
  by pat_completeness auto
termination
  using white_space_nonempty
  by (relation "measure length") (auto dest!: strip_one_length)

declare trim_left.simps [simp del] trim_right_rev.simps [simp del]

definition trim_space :: "string \<Rightarrow> string" where
  "trim_space s = rev (trim_right_rev (rev (trim_left s)))"

definition no_white_start :: "string \<Rightarrow> bool" where
  "no_white_start s = (\<forall>w \<in> set white_space. \<not> prefix w s)"

definition no_white_end :: "string \<Rightarrow> bool" where
  "no_white_end s = (\<forall>w \<in> set white_space. \<not> suffix w s)"

lemma strip_one_None: "strip_one ws s = None \<longleftrightarrow> (\<forall>w \<in> set ws. \<not> prefix w s)"
  by (auto simp: strip_one_def find_None_iff find_Some_iff split: option.splits dest: nth_mem)

lemma trim_left_id: "no_white_start s \<Longrightarrow> trim_left s = s"
  by (subst trim_left.simps) (simp add: strip_one_None [THEN iffD2] no_white_start_def)

lemma trim_right_rev_id: "no_white_end s \<Longrightarrow> trim_right_rev (rev s) = rev s"
  by (subst trim_right_rev.simps)
    (simp add: strip_one_None [THEN iffD2] no_white_end_def suffix_to_prefix)

lemma trim_space_id: "no_white_start s \<Longrightarrow> no_white_end s \<Longrightarrow> trim_space s = s"
  by (simp add: trim_space_def trim_left_id trim_right_rev_id)

lemma trim_left_no_white_start: "no_white_start (trim_left s)"
proof (induction s rule: trim_left.induct)
  case (1 s)
  show ?case
  proof (cases "strip_one white_space s")
    case None
    then have "no_white_start s" by (simp add: no_white_start_def strip_one_None)
    with None show ?thesis by (subst trim_left.simps) simp
  next
    case (Some t)
    with "1.IH" show ?thesis by (subst trim_left.simps) simp
  qed
qed

lemma trim_right_no_white_end: "no_white_end (rev (trim_right_rev s))"
proof (induction s rule: trim_right_rev.induct)
  case (1 s)
  show ?case
  proof (cases "strip_one (map rev white_space) s")
    case None
    then have "\<forall>w \<in> set white_space. \<not> prefix (rev w) s" by (simp add: strip_one_None)
    then have "no_white_end (rev s)" by (simp add: no_white_end_def suffix_to_prefix)
    with None show ?thesis by (subst trim_right_rev.simps) simp
  next
    case (Some t)
    with "1.IH" show ?thesis by (subst trim_right_rev.simps) simp
  qed
qed

lemma strip_one_suffix: "strip_one ws s = Some t \<Longrightarrow> suffix t s"
  by (auto simp: strip_one_def suffix_drop split: option.splits)

lemma trim_left_suffix: "suffix (trim_left s) s"
proof (induction s rule: trim_left.induct)
  case (1 s)
  then show ?case
    by (subst trim_left.simps) (auto split: option.splits dest: strip_one_suffix intro: suffix_order.trans)
qed

lemma trim_right_rev_suffix: "suffix (trim_right_rev s) s"
proof (induction s rule: trim_right_rev.induct)
  case (1 s)
  then show ?case
    by (subst trim_right_rev.simps)
      (auto split: option.splits dest: strip_one_suffix intro: suffix_order.trans)
qed

lemma trim_space_prefix: "prefix (trim_space s) (trim_left s)"
  using trim_right_rev_suffix [of "rev (trim_left s)"] by (simp add: trim_space_def suffix_to_prefix)

lemma trim_space_idem [simp]: "trim_space (trim_space s) = trim_space s"
proof (rule trim_space_id)
  show "no_white_start (trim_space s)"
    using trim_left_no_white_start [of s] trim_space_prefix [of s]
    by (auto simp: no_white_start_def dest: prefix_order.trans)
  show "no_white_end (trim_space s)"
    by (simp add: trim_space_def trim_right_no_white_end)
qed

lemma set_trim_space: "set (trim_space s) \<subseteq> set s"
  using trim_space_prefix [of s] trim_left_suffix [of s]
  by (meson set_mono_prefix set_mono_suffix order_trans)

section \<open>Decimal numbers\<close>

definition digit_char :: "nat \<Rightarrow> char" where
  "digit_char d = char_of (48 + d)"

definition is_digit :: "char \<Rightarrow> bool" where
  "is_digit c = (48 \<le> (of_char c :: nat) \<and> (of_char c :: nat) \<le> 57)"

definition digit_val :: "char \<Rightarrow> nat" where
  "digit_val c = of_char c - 48"

fun nat_dec :: "nat \<Rightarrow> string" where
  "nat_dec n = (if n < 10 then [digit_char n] else nat_dec (n div 10) @ [digit_char (n mod 10)])"

declare nat_dec.simps [simp del]

text \<open>The \<open>%d\<close> verb of \<open>fmt\<close>.\<close>

definition fmt_d :: "int \<Rightarrow> string" where
  "fmt_d i = (if i < 0 then CHR ''-'' # nat_dec (nat (- i)) else nat_dec (nat i))"

fun dec_val :: "nat \<Rightarrow> string \<Rightarrow> nat" where
  "dec_val acc [] = acc"
| "dec_val acc (c # cs) = dec_val (acc * 10 + digit_val c) cs"

text \<open>
  \<open>strconv.Atoi\<close> on a 64-bit platform: an optional sign, then one or more decimal digits, with
  a value in the range of \<open>int64\<close>. \<open>None\<close> stands for its error.
\<close>

definition atoi :: "string \<Rightarrow> int option" where
  "atoi s =
     (let neg = (s \<noteq> [] \<and> hd s = CHR ''-'');
          ds = (if s \<noteq> [] \<and> (hd s = CHR ''-'' \<or> hd s = CHR ''+'') then tl s else s);
          v = int (dec_val 0 ds)
      in if ds = [] \<or> \<not> list_all is_digit ds then None
         else if neg then (if v \<le> 2 ^ 63 then Some (- v) else None)
         else (if v < 2 ^ 63 then Some v else None))"

lemma of_char_digit_char: "d < 10 \<Longrightarrow> (of_char (digit_char d) :: nat) = 48 + d"
  by (simp add: digit_char_def)

lemma is_digit_digit_char [simp]: "d < 10 \<Longrightarrow> is_digit (digit_char d)"
  by (simp add: is_digit_def of_char_digit_char)

lemma digit_val_digit_char [simp]: "d < 10 \<Longrightarrow> digit_val (digit_char d) = d"
  by (simp add: digit_val_def of_char_digit_char)

lemma nat_dec_not_Nil [simp]: "nat_dec n \<noteq> []"
  by (subst nat_dec.simps) simp

lemma nat_dec_digits: "list_all is_digit (nat_dec n)"
proof (induction n rule: nat_dec.induct)
  case (1 n)
  then show ?case by (subst nat_dec.simps) (cases "n < 10"; simp)
qed

lemma dec_val_append: "dec_val acc (xs @ ys) = dec_val (dec_val acc xs) ys"
  by (induction xs arbitrary: acc) auto

lemma dec_val_nat_dec [simp]: "dec_val 0 (nat_dec n) = n"
proof (induction n rule: nat_dec.induct)
  case (1 n)
  then show ?case by (subst nat_dec.simps) (cases "n < 10"; simp add: dec_val_append)
qed

lemma is_digit_not_sign:
  "is_digit c \<Longrightarrow> c \<noteq> CHR ''-'' \<and> c \<noteq> CHR ''+'' \<and> c \<noteq> CHR ''.''"
  by (auto simp: is_digit_def)

lemma hd_nat_dec_digit: "is_digit (hd (nat_dec n))"
  using nat_dec_digits [of n] by (cases "nat_dec n") auto

lemma atoi_nat_dec: "n < 2 ^ 63 \<Longrightarrow> atoi (nat_dec n) = Some (int n)"
  using is_digit_not_sign [OF hd_nat_dec_digit [of n]] nat_dec_digits [of n]
  by (simp add: atoi_def Let_def)

lemma atoi_fmt_d:
  assumes "- (2 ^ 63) \<le> i" and "i < 2 ^ 63"
  shows "atoi (fmt_d i) = Some i"
proof (cases "i < 0")
  case True
  with assms nat_dec_digits [of "nat (- i)"] show ?thesis
    by (simp add: atoi_def fmt_d_def Let_def)
next
  case False
  with assms show ?thesis by (simp add: fmt_d_def atoi_nat_dec)
qed

lemma atoi_range: "atoi s = Some i \<Longrightarrow> - (2 ^ 63) \<le> i \<and> i < 2 ^ 63"
  by (auto simp: atoi_def Let_def split: if_splits)

section \<open>Paths\<close>

text \<open>
  \<open>filepath.Join\<close> on Unix: empty elements are dropped, the rest are joined with a slash, and the
  result is cleaned lexically as \<open>filepath.Clean\<close> does. The stack below holds the path's
  components, last first.
\<close>

fun clean_push :: "bool \<Rightarrow> string list \<Rightarrow> string \<Rightarrow> string list" where
  "clean_push rooted stack w =
     (if w = [] \<or> w = ''.'' then stack
      else if w = ''..'' then
        (case stack of
           [] \<Rightarrow> (if rooted then [] else [w])
         | t # ts \<Rightarrow> (if t = ''..'' then w # stack else ts))
      else w # stack)"

definition path_clean :: "string \<Rightarrow> string" where
  "path_clean p =
     (let rooted = (p \<noteq> [] \<and> hd p = CHR ''/'');
          stack = foldl (clean_push rooted) [] (split_char (CHR ''/'') p);
          out = (if rooted then ''/'' else []) @ str_join (rev stack) ''/''
      in if out = [] then ''.'' else out)"

definition path_join :: "string list \<Rightarrow> string" where
  "path_join es =
     (let ne = filter (\<lambda>e. e \<noteq> []) es
      in if ne = [] then [] else path_clean (str_join ne ''/''))"

lemma path_join_simple:
  assumes "CHR ''/'' \<notin> set f" and "f \<noteq> []" and "f \<noteq> ''.''" and "f \<noteq> ''..''"
  shows "path_join [''/tmp'', f] = ''/tmp/'' @ f"
proof -
  have "split_char (CHR ''/'') (''/tmp/'' @ f) = [[], ''tmp'', f]"
    using split_char_fresh [OF assms(1)] by simp
  with assms(2-4) show ?thesis
    by (simp add: path_join_def path_clean_def)
qed

end
