(* ===== verification/Rest_Getter.thy ===== *)
theory Rest_Getter
  imports Prelude
begin

text \<open>
  \<open>internal/helmutil/restgetter.go\<close>: the adapter that hands Helm a REST configuration of a remote
  cluster, through the interface \<open>RESTClientGetter\<close>. The copying of a configuration and the
  constructors of the discovery client, its cache, the REST mapper and the config loader belong
  to \<open>client-go\<close> and are parameters.
\<close>

section \<open>The model\<close>

text \<open>Of a \<open>rest.Config\<close> the operator reads only \<open>Host\<close>; the rest of it is an opaque handle.\<close>

record rest_config =
  rc_host :: string
  rc_handle :: nat

record rest_getter =
  rg_base_config :: "rest_config option"
  rg_namespace :: string

record config_overrides =
  co_context_namespace :: string
  co_current_context :: string

definition no_overrides :: config_overrides where
  "no_overrides = \<lparr>co_context_namespace = [], co_current_context = []\<rparr>"

definition new_rest_getter :: "(rest_config \<Rightarrow> rest_config) \<Rightarrow> rest_config \<Rightarrow> rest_getter" where
  "new_rest_getter copy cfg =
     \<lparr>rg_base_config = Some (copy cfg), rg_namespace = ''default''\<rparr>"

definition new_rest_getter_for_namespace ::
  "(rest_config \<Rightarrow> rest_config) \<Rightarrow> rest_config \<Rightarrow> string \<Rightarrow> rest_getter" where
  "new_rest_getter_for_namespace copy cfg ns =
     (let rg = \<lparr>rg_base_config = Some (copy cfg), rg_namespace = ns\<rparr>
      in if rg_namespace rg = [] then rg\<lparr>rg_namespace := ''default''\<rparr> else rg)"

definition to_rest_config :: "(rest_config \<Rightarrow> rest_config) \<Rightarrow> rest_getter \<Rightarrow> goerr + rest_config" where
  "to_rest_config copy g =
     (case rg_base_config g of
        None \<Rightarrow> Inl (new_err ''rest config nil'')
      | Some c \<Rightarrow> Inr (copy c))"

definition to_discovery_client ::
  "(rest_config \<Rightarrow> rest_config) \<Rightarrow> (rest_config \<Rightarrow> goerr + 'disco) \<Rightarrow> ('disco \<Rightarrow> 'cached) \<Rightarrow>
   rest_getter \<Rightarrow> goerr + 'cached" where
  "to_discovery_client copy new_discovery mem_cache g =
     (case to_rest_config copy g of
        Inl e \<Rightarrow> Inl e
      | Inr rc \<Rightarrow>
          (case new_discovery rc of
             Inl e \<Rightarrow> Inl e
           | Inr disco \<Rightarrow> Inr (mem_cache disco)))"

definition to_rest_mapper ::
  "(rest_config \<Rightarrow> rest_config) \<Rightarrow> (rest_config \<Rightarrow> goerr + 'disco) \<Rightarrow> ('disco \<Rightarrow> 'cached) \<Rightarrow>
   ('cached \<Rightarrow> 'mapper) \<Rightarrow> rest_getter \<Rightarrow> goerr + 'mapper" where
  "to_rest_mapper copy new_discovery mem_cache new_mapper g =
     (case to_discovery_client copy new_discovery mem_cache g of
        Inl e \<Rightarrow> Inl e
      | Inr disco \<Rightarrow> Inr (new_mapper disco))"

definition to_raw_kube_config_loader :: "(config_overrides \<Rightarrow> 'loader) \<Rightarrow> rest_getter \<Rightarrow> 'loader" where
  "to_raw_kube_config_loader new_client_config g =
     (let overrides = no_overrides
      in new_client_config
           (if rg_namespace g \<noteq> [] then overrides\<lparr>co_context_namespace := rg_namespace g\<rparr>
            else overrides))"

section \<open>What the adapter hands on\<close>

text \<open>An adapter made by a constructor fails only where a constructor of the library does.\<close>

lemma new_getter_fields [simp]:
  "rg_namespace (new_rest_getter_for_namespace copy cfg ns) = (if ns = [] then ''default'' else ns)"
  "rg_base_config (new_rest_getter_for_namespace copy cfg ns) = Some (copy cfg)"
  by (simp_all add: new_rest_getter_for_namespace_def Let_def)

lemma to_rest_mapper_error:
  assumes "to_rest_mapper copy nd mc nm (new_rest_getter_for_namespace copy cfg ns) = Inl e"
  shows "nd (copy (copy cfg)) = Inl e"
  using assms
  by (auto simp: to_rest_mapper_def to_discovery_client_def to_rest_config_def split: sum.splits)

end
