(* ===== verification/Go_Monad.thy ===== *)
theory Go_Monad
  imports Prelude
begin

text \<open>
  Go statements as computations. A handler is a computation of the library's state monad over
  \<open>sys\<close>, which holds the world outside the operator, the operator's own package state and the
  trace of the calls made so far. Nothing but \<open>ext\<close> touches the world, and each call of it puts its
  arguments and outcome on the trace. \<open>emits\<close> is the judgement the component theories prove:
  whatever the world answers, the calls a computation makes and the value it returns satisfy a
  postcondition.
\<close>

section \<open>State\<close>

text \<open>
  \<open>interval\<close> is the package state behind \<open>getCheckInterval\<close>: \<open>None\<close> while its \<open>sync.Once\<close> has not
  run, then the cached duration.
\<close>

record ('w, 'e) sys =
  world :: 'w
  trace :: "'e list"
  interval :: "duration option"

type_synonym ('w, 'e, 'a) go = "(('w, 'e) sys, 'a) state"

abbreviation ret :: "'a \<Rightarrow> ('w, 'e, 'a) go" where
  "ret \<equiv> State_Monad.return"

text \<open>One call into the environment: the world answers and the call is put on the trace.\<close>

definition ext :: "('w \<Rightarrow> 'a \<times> 'w) \<Rightarrow> ('a \<Rightarrow> 'e) \<Rightarrow> ('w, 'e, 'a) go" where
  "ext f eff =
     State (\<lambda>s. case f (world s) of
       (a, w) \<Rightarrow> (a, s\<lparr>world := w, trace := trace s @ [eff a]\<rparr>))"

lemma run_ext [simp]:
  "run_state (ext f eff) s =
     (fst (f (world s)),
      s\<lparr>world := snd (f (world s)), trace := trace s @ [eff (fst (f (world s)))]\<rparr>)"
  by (simp add: ext_def split: prod.splits)

section \<open>The trace judgement\<close>

definition emits ::
  "(duration option \<Rightarrow> bool) \<Rightarrow> ('w, 'e, 'a) go \<Rightarrow> ('a \<Rightarrow> 'e list \<Rightarrow> bool) \<Rightarrow> bool" where
  "emits I m P =
     (\<forall>s. I (interval s) \<longrightarrow>
        (\<exists>es. trace (snd (run_state m s)) = trace s @ es \<and> P (fst (run_state m s)) es \<and>
           I (interval (snd (run_state m s)))))"

text \<open>
  \<open>emits\<close> says that a trace only grows, so the calls of a run are what it adds. \<open>calls\<close> reads them
  off a run; a judgement is a statement about \<open>calls\<close>.
\<close>

definition calls :: "('w, 'e, 'a) go \<Rightarrow> ('w, 'e) sys \<Rightarrow> 'e list" where
  "calls m s = drop (length (trace s)) (trace (snd (run_state m s)))"

abbreviation result_of :: "('w, 'e, 'a) go \<Rightarrow> ('w, 'e) sys \<Rightarrow> 'a" where
  "result_of m s \<equiv> fst (run_state m s)"

lemma emitsD:
  assumes "emits I m P" and "I (interval s)"
  shows "P (result_of m s) (calls m s)"
    and "trace (snd (run_state m s)) = trace s @ calls m s"
    and "I (interval (snd (run_state m s)))"
  using assms unfolding emits_def calls_def by fastforce+

lemma run_judged: "emits (\<lambda>_. True) m P \<Longrightarrow> P (result_of m s) (calls m s)"
  by (rule emitsD(1)) simp_all

lemma emits_conseq:
  "emits I m P \<Longrightarrow> (\<And>a es. P a es \<Longrightarrow> Q a es) \<Longrightarrow> emits I m Q"
  unfolding emits_def by blast

lemma emits_conj:
  fixes m :: "('w, 'e, 'a) go"
  assumes "emits I m P" and "emits I m Q"
  shows "emits I m (\<lambda>a es. P a es \<and> Q a es)"
  unfolding emits_def
proof (intro allI impI)
  fix s :: "('w, 'e) sys"
  assume "I (interval s)"
  with emitsD [OF assms(1)] emitsD [OF assms(2)]
  show "\<exists>es. trace (snd (run_state m s)) = trace s @ es \<and>
      (P (result_of m s) es \<and> Q (result_of m s) es) \<and> I (interval (snd (run_state m s)))"
    by blast
qed

lemma emits_ret [wp_rules]: "P a [] \<Longrightarrow> emits I (ret a) P"
  by (simp add: emits_def)

lemma emits_ext [wp_rules]: "(\<And>a. P a [eff a]) \<Longrightarrow> emits I (ext f eff) P"
  by (simp add: emits_def)

lemma emits_bind:
  fixes m :: "('w, 'e, 'a) go"
  assumes m: "emits I m R"
    and f: "\<And>a es. R a es \<Longrightarrow> emits I (f a) (\<lambda>b es'. P b (es @ es'))"
  shows "emits I (State_Monad.bind m f) P"
  unfolding emits_def
proof (intro allI impI)
  fix s :: "('w, 'e) sys"
  assume I: "I (interval s)"
  obtain a s1 where r: "run_state m s = (a, s1)" by (cases "run_state m s")
  with m I obtain es where es: "trace s1 = trace s @ es" "R a es" "I (interval s1)"
    by (auto simp: emits_def)
  with f obtain es' where
    "trace (snd (run_state (f a) s1)) = trace s1 @ es'"
    "P (fst (run_state (f a) s1)) (es @ es')" "I (interval (snd (run_state (f a) s1)))"
    by (fastforce simp: emits_def)
  with r es(1) show
    "\<exists>es. trace (snd (run_state (State_Monad.bind m f) s)) = trace s @ es \<and>
       P (fst (run_state (State_Monad.bind m f) s)) es \<and>
       I (interval (snd (run_state (State_Monad.bind m f) s)))"
    by auto
qed

lemma emits_bind_ext [wp_rules]:
  "(\<And>a. emits I (g a) (\<lambda>b es. P b (eff a # es))) \<Longrightarrow>
   emits I (State_Monad.bind (ext f eff) g) P"
  by (rule emits_bind [OF emits_ext [where P = "\<lambda>a es. es = [eff a]"]]) auto

lemma emits_if [wp_rules]:
  "(c \<Longrightarrow> emits I m P) \<Longrightarrow> (\<not> c \<Longrightarrow> emits I n P) \<Longrightarrow> emits I (if c then m else n) P"
  by simp

lemma emits_case_option [wp_rules]:
  "(x = None \<Longrightarrow> emits I m P) \<Longrightarrow> (\<And>a. x = Some a \<Longrightarrow> emits I (f a) P) \<Longrightarrow>
   emits I (case x of None \<Rightarrow> m | Some a \<Rightarrow> f a) P"
  by (cases x) auto

lemma emits_case_sum [wp_rules]:
  "(\<And>e. x = Inl e \<Longrightarrow> emits I (g e) P) \<Longrightarrow> (\<And>a. x = Inr a \<Longrightarrow> emits I (f a) P) \<Longrightarrow>
   emits I (case x of Inl e \<Rightarrow> g e | Inr a \<Rightarrow> f a) P"
  by (cases x) auto

lemma emits_case_prod [wp_rules]:
  "(\<And>a b. x = (a, b) \<Longrightarrow> emits I (f a b) P) \<Longrightarrow> emits I (case x of (a, b) \<Rightarrow> f a b) P"
  by (cases x) auto

lemma emits_let [wp_rules]: "emits I (f x) P \<Longrightarrow> emits I (let y = x in f y) P"
  by simp

lemma emits_bind_ret [wp_rules]:
  "emits I (g a) P \<Longrightarrow> emits I (State_Monad.bind (ret a) g) P"
  by simp

lemma emits_bind_case_option [wp_rules]:
  "(x = None \<Longrightarrow> emits I (State_Monad.bind m g) P) \<Longrightarrow>
   (\<And>a. x = Some a \<Longrightarrow> emits I (State_Monad.bind (f a) g) P) \<Longrightarrow>
   emits I (State_Monad.bind (case x of None \<Rightarrow> m | Some a \<Rightarrow> f a) g) P"
  by (cases x) auto

lemma emits_bind_case_sum [wp_rules]:
  "(\<And>e. x = Inl e \<Longrightarrow> emits I (State_Monad.bind (h e) g) P) \<Longrightarrow>
   (\<And>a. x = Inr a \<Longrightarrow> emits I (State_Monad.bind (f a) g) P) \<Longrightarrow>
   emits I (State_Monad.bind (case x of Inl e \<Rightarrow> h e | Inr a \<Rightarrow> f a) g) P"
  by (cases x) auto

section \<open>Invariants of the world and the trace\<close>

text \<open>
  \<open>keeps K m\<close>: the computation keeps an invariant of the world and the trace together. Only calls
  touch either of them, so one obligation per call is left.
\<close>

definition keeps :: "('w \<Rightarrow> 'e list \<Rightarrow> bool) \<Rightarrow> ('w, 'e, 'a) go \<Rightarrow> bool" where
  "keeps K m =
     (\<forall>s. K (world s) (trace s) \<longrightarrow>
        K (world (snd (run_state m s))) (trace (snd (run_state m s))))"

lemma keepsD:
  "keeps K m \<Longrightarrow> K (world s) (trace s) \<Longrightarrow>
   K (world (snd (run_state m s))) (trace (snd (run_state m s)))"
  by (simp add: keeps_def)

lemma keeps_ret [up_rules]: "keeps K (ret a)"
  by (simp add: keeps_def)

lemma keeps_ext:
  "(\<And>w tr. K w tr \<Longrightarrow> K (snd (f w)) (tr @ [eff (fst (f w))])) \<Longrightarrow> keeps K (ext f eff)"
  by (simp add: keeps_def)

lemma keeps_bind [up_rules]:
  fixes m :: "('w, 'e, 'a) go"
  assumes "keeps K m" and "\<And>a. keeps K (f a)"
  shows "keeps K (State_Monad.bind m f)"
  unfolding keeps_def
proof (intro allI impI)
  fix s :: "('w, 'e) sys"
  assume K: "K (world s) (trace s)"
  obtain a s1 where r: "run_state m s = (a, s1)" by (cases "run_state m s")
  from keepsD [OF assms(1) K] have "K (world s1) (trace s1)" by (simp add: r)
  from keepsD [OF assms(2) this]
  show "K (world (snd (run_state (State_Monad.bind m f) s)))
      (trace (snd (run_state (State_Monad.bind m f) s)))"
    by (simp add: r)
qed

lemma keeps_if [up_rules]: "keeps K m \<Longrightarrow> keeps K n \<Longrightarrow> keeps K (if c then m else n)"
  by simp

lemma keeps_case_option [up_rules]:
  "keeps K m \<Longrightarrow> (\<And>a. keeps K (f a)) \<Longrightarrow> keeps K (case x of None \<Rightarrow> m | Some a \<Rightarrow> f a)"
  by (cases x) auto

lemma keeps_case_sum [up_rules]:
  "(\<And>e. keeps K (g e)) \<Longrightarrow> (\<And>a. keeps K (f a)) \<Longrightarrow>
   keeps K (case x of Inl e \<Rightarrow> g e | Inr a \<Rightarrow> f a)"
  by (cases x) auto

lemma keeps_case_prod [up_rules]:
  "(\<And>a b. keeps K (f a b)) \<Longrightarrow> keeps K (case x of (a, b) \<Rightarrow> f a b)"
  by (cases x) auto

text \<open>The special case of a predicate on the single calls, whatever the world.\<close>

definition all_calls :: "('e \<Rightarrow> bool) \<Rightarrow> 'e list \<Rightarrow> 'w \<Rightarrow> 'e list \<Rightarrow> bool" where
  "all_calls Q before w tr \<longleftrightarrow> (\<exists>es. tr = before @ es \<and> list_all Q es)"

definition upholds :: "('e \<Rightarrow> bool) \<Rightarrow> ('w, 'e, 'a) go \<Rightarrow> bool" where
  "upholds Q m = (\<forall>before. keeps (all_calls Q before) m)"

lemma upholdsD:
  assumes "upholds Q m"
  shows "\<exists>es. trace (snd (run_state m s)) = trace s @ es \<and> list_all Q es" and "list_all Q (calls m s)"
proof -
  from assms have "keeps (all_calls Q (trace s)) m" by (simp add: upholds_def)
  from keepsD [OF this, of s]
  show es: "\<exists>es. trace (snd (run_state m s)) = trace s @ es \<and> list_all Q es"
    by (simp add: all_calls_def)
  then show "list_all Q (calls m s)" by (auto simp: calls_def)
qed

lemma upholdsI:
  fixes m :: "('w, 'e, 'a) go"
  assumes "\<And>s. \<exists>es. trace (snd (run_state m s)) = trace s @ es \<and> list_all Q es"
  shows "upholds Q m"
  unfolding upholds_def keeps_def all_calls_def
proof (intro allI impI)
  fix before and s :: "('w, 'e) sys"
  assume "\<exists>es. trace s = before @ es \<and> list_all Q es"
  with assms [of s]
  show "\<exists>es. trace (snd (run_state m s)) = before @ es \<and> list_all Q es"
    by (metis append_assoc list_all_append)
qed

lemma upholds_ext: "(\<And>a. Q (eff a)) \<Longrightarrow> upholds Q (ext f eff)"
  by (rule upholdsI) simp

lemma upholds_ret [up_rules]: "upholds Q (ret a)"
  by (simp add: upholds_def keeps_ret)

lemma upholds_bind [up_rules]:
  "upholds Q m \<Longrightarrow> (\<And>a. upholds Q (f a)) \<Longrightarrow> upholds Q (State_Monad.bind m f)"
  by (simp add: upholds_def keeps_bind)

lemma upholds_if [up_rules]: "upholds Q m \<Longrightarrow> upholds Q n \<Longrightarrow> upholds Q (if c then m else n)"
  by simp

lemma upholds_case_option [up_rules]:
  "upholds Q m \<Longrightarrow> (\<And>a. upholds Q (f a)) \<Longrightarrow> upholds Q (case x of None \<Rightarrow> m | Some a \<Rightarrow> f a)"
  by (cases x) auto

lemma upholds_case_sum [up_rules]:
  "(\<And>e. upholds Q (g e)) \<Longrightarrow> (\<And>a. upholds Q (f a)) \<Longrightarrow>
   upholds Q (case x of Inl e \<Rightarrow> g e | Inr a \<Rightarrow> f a)"
  by (cases x) auto

lemma upholds_case_prod [up_rules]:
  "(\<And>a b. upholds Q (f a b)) \<Longrightarrow> upholds Q (case x of (a, b) \<Rightarrow> f a b)"
  by (cases x) auto

text \<open>Where the answers have to come from the operation that was called.\<close>

lemma emits_bind_ext_from:
  "(\<And>w. emits I (g (fst (f w))) (\<lambda>b es. P b (eff (fst (f w)) # es))) \<Longrightarrow>
   emits I (State_Monad.bind (ext f eff) g) P"
  by (rule emits_bind [where R = "\<lambda>a es. \<exists>w. a = fst (f w) \<and> es = [eff (fst (f w))]"])
    (auto simp: emits_def)

end
