(* ===== verification/Go_Effects.thy ===== *)
theory Go_Effects
  imports Api_Types Go_Strings Rest_Getter Go_Monad
begin

text \<open>
  The operator's environment. Everything the reconciler calls that is not the repository's own
  code (the Kubernetes clients, the multicluster manager, Helm, the HTTP client, the file system)
  is a field of the record \<open>ops\<close>, a function on an abstract world \<open>'w\<close>; \<open>effect\<close> is the type of
  the calls on its trace. Log output is not modelled.
\<close>

section \<open>What the environment hands back\<close>

type_synonym cluster = nat
type_synonym chart = nat
type_synonym body = nat

record action_config =
  act_getter :: rest_getter
  act_namespace :: string
  act_driver :: string

record gvk =
  gvk_group :: string
  gvk_version :: string
  gvk_kind :: string

text \<open>A \<open>runtime.Scheme\<close>, as the kinds that are registered in it.\<close>

type_synonym scheme = "gvk list"

text \<open>An \<open>unstructured.Unstructured\<close>, through the accessors the operator calls.\<close>

record uobj =
  uo_gvk :: gvk
  uo_namespace :: string
  uo_name :: string

text \<open>A Helm release: its info (the status, absent when the pointer is nil) and manifest.\<close>

record release =
  rel_info :: "string option"
  rel_manifest :: string

record http_response =
  hr_status :: int
  hr_body :: body

record helm_opts =
  ho_namespace :: string
  ho_wait :: bool
  ho_timeout :: duration

record uninstall_opts =
  uo_timeout :: duration
  uo_keep_history :: bool

text \<open>An \<open>appsv1.Deployment\<close>: its name, \<open>spec.replicas\<close> (a pointer) and available replicas.\<close>

record workload =
  wl_name :: string
  wl_replicas :: "int32 option"
  wl_available :: int32

type_synonym helm_values = "(string \<times> int) list"

datatype event_type = EventNormal | EventWarning

section \<open>Calls\<close>

datatype effect =
    HomeGet nsname "goerr + kdep"
  | HomeUpdate kdep "goerr option"
  | HomeStatusUpdate kdep "goerr option"
  | Event kdep event_type string string
  | GetCluster string "goerr + cluster"
  | NsGet cluster string "goerr option"
  | NsCreate cluster string "goerr option"
  | NsDelete cluster string "goerr option"
  | ObjGet cluster gvk nsname "goerr option"
  | ListWorkloads cluster string "goerr + workload list"
  | HelmInit action_config "goerr option"
  | HelmHistory action_config nat string "goerr option"
  | HelmGet action_config string "goerr + release option"
  | HelmInstall action_config helm_opts string chart helm_values "goerr option"
  | HelmUpgrade action_config helm_opts string chart helm_values "goerr option"
  | HelmUninstall action_config uninstall_opts string "goerr option"
  | HttpNewRequest string "goerr option"
  | HttpDo string duration "goerr + http_response"
  | FsCreate string "goerr option"
  | FsWrite string body "goerr option"
  | ChartLoad string "goerr + chart"

record 'w ops =
  home_get :: "nsname \<Rightarrow> 'w \<Rightarrow> (goerr + kdep) \<times> 'w"
  home_update :: "kdep \<Rightarrow> 'w \<Rightarrow> (goerr option \<times> kdep) \<times> 'w"
  home_status_update :: "kdep \<Rightarrow> 'w \<Rightarrow> (goerr option \<times> kdep) \<times> 'w"
  mgr_get_cluster :: "string \<Rightarrow> 'w \<Rightarrow> (goerr + cluster) \<times> 'w"
  ns_get :: "cluster \<Rightarrow> string \<Rightarrow> 'w \<Rightarrow> goerr option \<times> 'w"
  ns_create :: "cluster \<Rightarrow> string \<Rightarrow> 'w \<Rightarrow> goerr option \<times> 'w"
  ns_delete :: "cluster \<Rightarrow> string \<Rightarrow> 'w \<Rightarrow> goerr option \<times> 'w"
  obj_get :: "cluster \<Rightarrow> gvk \<Rightarrow> nsname \<Rightarrow> 'w \<Rightarrow> goerr option \<times> 'w"
  list_workloads :: "cluster \<Rightarrow> string \<Rightarrow> 'w \<Rightarrow> (goerr + workload list) \<times> 'w"
  helm_init :: "action_config \<Rightarrow> 'w \<Rightarrow> goerr option \<times> 'w"
  helm_history :: "action_config \<Rightarrow> nat \<Rightarrow> string \<Rightarrow> 'w \<Rightarrow> goerr option \<times> 'w"
  helm_get :: "action_config \<Rightarrow> string \<Rightarrow> 'w \<Rightarrow> (goerr + release option) \<times> 'w"
  helm_install :: "action_config \<Rightarrow> helm_opts \<Rightarrow> string \<Rightarrow> chart \<Rightarrow> helm_values \<Rightarrow> 'w \<Rightarrow> goerr option \<times> 'w"
  helm_upgrade :: "action_config \<Rightarrow> helm_opts \<Rightarrow> string \<Rightarrow> chart \<Rightarrow> helm_values \<Rightarrow> 'w \<Rightarrow> goerr option \<times> 'w"
  helm_uninstall :: "action_config \<Rightarrow> uninstall_opts \<Rightarrow> string \<Rightarrow> 'w \<Rightarrow> goerr option \<times> 'w"
  http_new_request :: "string \<Rightarrow> 'w \<Rightarrow> goerr option \<times> 'w"
  http_do :: "string \<Rightarrow> duration \<Rightarrow> 'w \<Rightarrow> (goerr + http_response) \<times> 'w"
  fs_create :: "string \<Rightarrow> 'w \<Rightarrow> goerr option \<times> 'w"
  fs_write :: "string \<Rightarrow> body \<Rightarrow> 'w \<Rightarrow> goerr option \<times> 'w"
  chart_load :: "string \<Rightarrow> 'w \<Rightarrow> (goerr + chart) \<times> 'w"
  cluster_config :: "cluster \<Rightarrow> rest_config"
  copy_config :: "rest_config \<Rightarrow> rest_config"
  yaml_decode :: "string \<Rightarrow> goerr + uobj option"
  set_status_condition :: "condition list \<Rightarrow> condition \<Rightarrow> condition list"
  nn_string :: "nsname \<Rightarrow> string"

text \<open>\<open>recorder.Event\<close> never fails and returns nothing.\<close>

definition event :: "kdep \<Rightarrow> event_type \<Rightarrow> string \<Rightarrow> string \<Rightarrow> ('w, effect, unit) go" where
  "event d ty reason msg = ext (\<lambda>w. ((), w)) (\<lambda>_. Event d ty reason msg)"

lemma emits_bind_event [wp_rules]:
  "emits I (g ()) (\<lambda>b es. P b (Event d ty reason msg # es)) \<Longrightarrow>
   emits I (State_Monad.bind (event d ty reason msg) g) P"
  unfolding event_def by (rule emits_bind_ext) simp

lemma emits_event [wp_rules]:
  "P () [Event d ty reason msg] \<Longrightarrow> emits I (event d ty reason msg) P"
  unfolding event_def by (rule emits_ext) simp

end
