(* ===== verification/Helm_Deploy.thy ===== *)
theory Helm_Deploy
  imports Go_Effects
begin

text \<open>
  \<open>deployHelmChart\<close> and \<open>uninstallHelmChart\<close>: download the chart archive, load it, and install the
  release or upgrade it; uninstall the release. Helm, HTTP and the file system are external. The
  adapter of \<open>Rest_Getter\<close> carries the target namespace to Helm.
\<close>

section \<open>The model\<close>

definition temp_dir :: "env \<Rightarrow> string" where
  "temp_dir en = (if getenv en ''TMPDIR'' = [] then ''/tmp'' else getenv en ''TMPDIR'')"

text \<open>What the handlers pass to \<open>actionConfig.Init\<close>.\<close>

definition helm_config :: "'w ops \<Rightarrow> env \<Rightarrow> cluster \<Rightarrow> string \<Rightarrow> action_config" where
  "helm_config ops en c ns =
     \<lparr>act_getter = new_rest_getter_for_namespace (copy_config ops) (cluster_config ops c) ns,
      act_namespace = ns,
      act_driver = getenv en ''HELM_DRIVER''\<rparr>"

definition chart_url :: "string \<Rightarrow> string \<Rightarrow> string \<Rightarrow> string" where
  "chart_url repo name version = repo @ ''/'' @ name @ ''-'' @ version @ ''.tgz''"

definition chart_tmp_path :: "env \<Rightarrow> string \<Rightarrow> string \<Rightarrow> string" where
  "chart_tmp_path en name version = path_join [temp_dir en, name @ ''-'' @ version @ ''.tgz'']"

definition chart_values :: helm_values where
  "chart_values = [(''replicaCount'', 1)]"

definition helm_apply_opts :: "string \<Rightarrow> helm_opts" where
  "helm_apply_opts ns = \<lparr>ho_namespace = ns, ho_wait = False, ho_timeout = 300 * go_second\<rparr>"

definition apply_release ::
  "'w ops \<Rightarrow> action_config \<Rightarrow> string \<Rightarrow> string \<Rightarrow> chart \<Rightarrow> ('w, effect, goerr option) go" where
  "apply_release ops ac ns rel ch = do {
     histErr \<leftarrow> ext (helm_history ops ac 1 rel) (HelmHistory ac 1 rel);
     (if histErr \<noteq> None then do {
        err \<leftarrow> ext (helm_install ops ac (helm_apply_opts ns) rel ch chart_values)
                (HelmInstall ac (helm_apply_opts ns) rel ch chart_values);
        (case err of
           Some e \<Rightarrow> ret (Some (wrap_err ''helm install failed: '' e))
         | None \<Rightarrow> ret None)
      }
      else do {
        err \<leftarrow> ext (helm_upgrade ops ac (helm_apply_opts ns) rel ch chart_values)
                (HelmUpgrade ac (helm_apply_opts ns) rel ch chart_values);
        (case err of
           Some e \<Rightarrow> ret (Some (wrap_err ''helm upgrade failed: '' e))
         | None \<Rightarrow> ret None)
      })
   }"

definition load_and_apply ::
  "'w ops \<Rightarrow> action_config \<Rightarrow> string \<Rightarrow> string \<Rightarrow> string \<Rightarrow> body \<Rightarrow> ('w, effect, goerr option) go" where
  "load_and_apply ops ac ns rel tmpPath content = do {
     createErr \<leftarrow> ext (fs_create ops tmpPath) (FsCreate tmpPath);
     (case createErr of
        Some e \<Rightarrow> ret (Some (wrap_err ''failed to create temp file: '' e))
      | None \<Rightarrow> do {
          copyErr \<leftarrow> ext (fs_write ops tmpPath content) (FsWrite tmpPath content);
          (case copyErr of
             Some e \<Rightarrow> ret (Some (wrap_err ''failed to write chart file: '' e))
           | None \<Rightarrow> do {
               ld \<leftarrow> ext (chart_load ops tmpPath) (ChartLoad tmpPath);
               (case ld of
                  Inl e \<Rightarrow> ret (Some (wrap_err ''failed to load chart: '' e))
                | Inr ch \<Rightarrow> apply_release ops ac ns rel ch)
             })
        })
   }"

definition deploy_helm_chart ::
  "'w ops \<Rightarrow> env \<Rightarrow> cluster \<Rightarrow> string \<Rightarrow> string \<Rightarrow> string \<Rightarrow> string \<Rightarrow> string \<Rightarrow>
   ('w, effect, goerr option) go" where
  "deploy_helm_chart ops en c ns rel chartRepo chartName chartVersion = do {
     let ac = helm_config ops en c ns;
     initErr \<leftarrow> ext (helm_init ops ac) (HelmInit ac);
     (case initErr of
        Some e \<Rightarrow> ret (Some (wrap_err ''helm init failed: '' e))
      | None \<Rightarrow> do {
          let url = chart_url chartRepo chartName chartVersion;
          reqErr \<leftarrow> ext (http_new_request ops url) (HttpNewRequest url);
          (case reqErr of
             Some e \<Rightarrow> ret (Some (wrap_err ''failed to build download request: '' e))
           | None \<Rightarrow> do {
               resp \<leftarrow> ext (http_do ops url (60 * go_second)) (HttpDo url (60 * go_second));
               (case resp of
                  Inl e \<Rightarrow> ret (Some (wrap_err ''failed to download chart: '' e))
                | Inr r \<Rightarrow>
                    if hr_status r \<noteq> 200
                    then ret (Some (new_err (''failed to download chart: status '' @
                                fmt_d (hr_status r))))
                    else load_and_apply ops ac ns rel
                           (chart_tmp_path en chartName chartVersion) (hr_body r))
             })
        })
   }"

definition uninstall_helm_chart ::
  "'w ops \<Rightarrow> env \<Rightarrow> cluster \<Rightarrow> string \<Rightarrow> string \<Rightarrow> ('w, effect, goerr option) go" where
  "uninstall_helm_chart ops en c ns rel = do {
     let ac = helm_config ops en c ns;
     initErr \<leftarrow> ext (helm_init ops ac) (HelmInit ac);
     (case initErr of
        Some e \<Rightarrow> ret (Some (wrap_err ''helm init failed: '' e))
      | None \<Rightarrow> do {
          histErr \<leftarrow> ext (helm_history ops ac 1 rel) (HelmHistory ac 1 rel);
          (if histErr \<noteq> None then ret None
           else do {
             let opts = \<lparr>uo_timeout = 300 * go_second, uo_keep_history = False\<rparr>;
             err \<leftarrow> ext (helm_uninstall ops ac opts rel) (HelmUninstall ac opts rel);
             (case err of
                Some e \<Rightarrow> ret (Some (wrap_err ''helm uninstall failed: '' e))
              | None \<Rightarrow> ret None)
           })
        })
   }"

section \<open>Classes of calls\<close>

text \<open>Calls that change an edge cluster, and calls that write the home cluster.\<close>

fun edge_write :: "effect \<Rightarrow> bool" where
  "edge_write (NsCreate _ _ _) = True"
| "edge_write (NsDelete _ _ _) = True"
| "edge_write (HelmInstall _ _ _ _ _ _) = True"
| "edge_write (HelmUpgrade _ _ _ _ _ _) = True"
| "edge_write (HelmUninstall _ _ _ _) = True"
| "edge_write _ = False"

fun home_write :: "effect \<Rightarrow> bool" where
  "home_write (HomeUpdate _ _) = True"
| "home_write (HomeStatusUpdate _ _) = True"
| "home_write _ = False"

text \<open>The release \<open>rel\<close> of the chart was installed or upgraded in \<open>ns\<close> without an error.\<close>

fun applied_ok :: "action_config \<Rightarrow> string \<Rightarrow> string \<Rightarrow> effect \<Rightarrow> bool" where
  "applied_ok ac ns rel (HelmInstall a o' r _ v err) \<longleftrightarrow>
     a = ac \<and> o' = helm_apply_opts ns \<and> r = rel \<and> v = chart_values \<and> err = None"
| "applied_ok ac ns rel (HelmUpgrade a o' r _ v err) \<longleftrightarrow>
     a = ac \<and> o' = helm_apply_opts ns \<and> r = rel \<and> v = chart_values \<and> err = None"
| "applied_ok ac ns rel _ \<longleftrightarrow> False"

text \<open>An installation or upgrade, of whatever release, that reported no error.\<close>

fun apply_succeeded :: "effect \<Rightarrow> bool" where
  "apply_succeeded (HelmInstall _ _ _ _ _ err) \<longleftrightarrow> err = None"
| "apply_succeeded (HelmUpgrade _ _ _ _ _ err) \<longleftrightarrow> err = None"
| "apply_succeeded _ \<longleftrightarrow> False"

lemma apply_succeeded_edge_write: "apply_succeeded e \<Longrightarrow> edge_write e"
  by (cases e) simp_all

text \<open>The calls a deployment is made of; an uninstallation makes one more kind of call.\<close>

fun helm_call :: "effect \<Rightarrow> bool" where
  "helm_call (HelmInit _ _) = True"
| "helm_call (HelmHistory _ _ _ _) = True"
| "helm_call (HelmGet _ _ _) = True"
| "helm_call (HelmInstall _ _ _ _ _ _) = True"
| "helm_call (HelmUpgrade _ _ _ _ _ _) = True"
| "helm_call (HttpNewRequest _ _) = True"
| "helm_call (HttpDo _ _ _) = True"
| "helm_call (FsCreate _ _) = True"
| "helm_call (FsWrite _ _ _) = True"
| "helm_call (ChartLoad _ _) = True"
| "helm_call _ = False"

fun uninstall_call :: "effect \<Rightarrow> bool" where
  "uninstall_call (HelmInit _ _) = True"
| "uninstall_call (HelmHistory _ _ _ _) = True"
| "uninstall_call (HelmUninstall _ _ _ _) = True"
| "uninstall_call _ = False"

text \<open>Calls that take something away from an edge cluster.\<close>

fun destroys :: "effect \<Rightarrow> bool" where
  "destroys (NsDelete _ _ _) = True"
| "destroys (HelmUninstall _ _ _ _) = True"
| "destroys _ = False"

text \<open>A call that was answered the way the handlers hope for when the release is in place.\<close>

fun smooth :: "effect \<Rightarrow> bool" where
  "smooth (HomeGet _ r) \<longleftrightarrow> (case r of Inl _ \<Rightarrow> False | Inr _ \<Rightarrow> True)"
| "smooth (HomeUpdate _ e) \<longleftrightarrow> e = None"
| "smooth (GetCluster _ r) \<longleftrightarrow> (case r of Inl _ \<Rightarrow> False | Inr _ \<Rightarrow> True)"
| "smooth (NsGet _ _ e) \<longleftrightarrow> e = None \<or> is_not_found e"
| "smooth (NsCreate _ _ e) \<longleftrightarrow> e = None"
| "smooth (ObjGet _ _ _ e) \<longleftrightarrow> \<not> is_not_found e"
| "smooth (HelmInit _ e) \<longleftrightarrow> e = None"
| "smooth (HelmHistory _ _ _ e) \<longleftrightarrow> e = None"
| "smooth (HelmGet _ _ r) \<longleftrightarrow>
     (case r of
        Inr (Some rel) \<Rightarrow> rel_info rel \<noteq> None \<and> rel_info rel \<noteq> Some ''uninstalled''
      | _ \<Rightarrow> False)"
| "smooth (HelmInstall _ _ _ _ _ e) \<longleftrightarrow> e = None"
| "smooth (HelmUpgrade _ _ _ _ _ e) \<longleftrightarrow> e = None"
| "smooth (HttpNewRequest _ e) \<longleftrightarrow> e = None"
| "smooth (HttpDo _ _ r) \<longleftrightarrow> (case r of Inl _ \<Rightarrow> False | Inr resp \<Rightarrow> hr_status resp = 200)"
| "smooth (FsCreate _ e) \<longleftrightarrow> e = None"
| "smooth (FsWrite _ _ e) \<longleftrightarrow> e = None"
| "smooth (ChartLoad _ r) \<longleftrightarrow> (case r of Inl _ \<Rightarrow> False | Inr _ \<Rightarrow> True)"
| "smooth _ \<longleftrightarrow> True"

section \<open>What a deployment run does\<close>

text \<open>
  \<open>history_decides\<close>: the calls end with the chart loaded, the history read and, as the history
  said, an installation or an upgrade of exactly that chart.
\<close>

definition history_decides :: "action_config \<Rightarrow> string \<Rightarrow> effect list \<Rightarrow> bool" where
  "history_decides ac rel es \<longleftrightarrow>
     (\<exists>path ch e opts v err.
        suffix [ChartLoad path (Inr ch), HelmHistory ac 1 rel (Some e),
          HelmInstall ac opts rel ch v err] es) \<or>
     (\<exists>path ch opts v err.
        suffix [ChartLoad path (Inr ch), HelmHistory ac 1 rel None,
          HelmUpgrade ac opts rel ch v err] es)"

definition deploy_post ::
  "action_config \<Rightarrow> string \<Rightarrow> string \<Rightarrow> string \<Rightarrow> goerr option \<Rightarrow> effect list \<Rightarrow> bool" where
  "deploy_post ac ns rel url r es \<longleftrightarrow>
     list_all helm_call es \<and>
     list_all (\<lambda>e. \<not> edge_write e) (butlast es) \<and>
     es \<noteq> [] \<and>
     (r = None \<longleftrightarrow> applied_ok ac ns rel (last es)) \<and>
     (apply_succeeded (last es) \<longleftrightarrow> applied_ok ac ns rel (last es)) \<and>
     (list_all smooth es \<longrightarrow> r = None) \<and>
     (edge_write (last es) \<longrightarrow>
        history_decides ac rel es \<and>
        (\<exists>t r'. HttpDo url t (Inr r') \<in> set es \<and> hr_status r' = 200))"

lemma emits_apply_release:
  "emits I (apply_release ops ac ns rel ch) (\<lambda>r es.
     (\<exists>e err. es = [HelmHistory ac 1 rel (Some e),
        HelmInstall ac (helm_apply_opts ns) rel ch chart_values err] \<and> (r = None \<longleftrightarrow> err = None)) \<or>
     (\<exists>err. es = [HelmHistory ac 1 rel None,
        HelmUpgrade ac (helm_apply_opts ns) rel ch chart_values err] \<and> (r = None \<longleftrightarrow> err = None)))"
  unfolding apply_release_def
  by (intro wp_rules; hypsubst?) auto

lemma emits_deploy_helm_chart:
  "emits I (deploy_helm_chart ops en c ns rel repo name version)
     (deploy_post (helm_config ops en c ns) ns rel (chart_url repo name version))"
  unfolding deploy_helm_chart_def load_and_apply_def
  by (intro wp_rules emits_conseq [OF emits_apply_release]; hypsubst?)
    (auto simp: deploy_post_def history_decides_def suffix_Cons)

section \<open>What an uninstallation run does\<close>

definition uninstall_post ::
  "action_config \<Rightarrow> string \<Rightarrow> goerr option \<Rightarrow> effect list \<Rightarrow> bool" where
  "uninstall_post ac rel r es \<longleftrightarrow>
     list_all uninstall_call es \<and> es \<noteq> [] \<and>
     list_all (\<lambda>e. \<not> edge_write e) (butlast es) \<and>
     (r = None \<longleftrightarrow>
        (\<exists>e. last es = HelmHistory ac 1 rel (Some e)) \<or>
        (\<exists>opts. last es = HelmUninstall ac opts rel None)) \<and>
     (edge_write (last es) \<longrightarrow> HelmHistory ac 1 rel None \<in> set es \<and>
        (\<exists>opts err. last es = HelmUninstall ac opts rel err \<and> \<not> uo_keep_history opts))"

lemma emits_uninstall_helm_chart:
  "emits I (uninstall_helm_chart ops en c ns rel) (uninstall_post (helm_config ops en c ns) rel)"
  unfolding uninstall_helm_chart_def
  by (intro wp_rules; hypsubst?) (auto simp: uninstall_post_def)

section \<open>Properties\<close>

text \<open>C15. A deployment succeeds exactly when its last call applied the release without an error.\<close>

theorem deploy_success_iff_applied:
  "result_of (deploy_helm_chart ops en c ns rel repo name version) s = None \<longleftrightarrow>
     calls (deploy_helm_chart ops en c ns rel repo name version) s \<noteq> [] \<and>
     applied_ok (helm_config ops en c ns) ns rel
       (last (calls (deploy_helm_chart ops en c ns rel repo name version) s))"
proof -
  have "deploy_post (helm_config ops en c ns) ns rel (chart_url repo name version)
      (result_of (deploy_helm_chart ops en c ns rel repo name version) s)
      (calls (deploy_helm_chart ops en c ns rel repo name version) s)"
    by (rule run_judged [OF emits_deploy_helm_chart])
  then show ?thesis by (simp add: deploy_post_def)
qed

fun downloaded :: "string \<Rightarrow> effect \<Rightarrow> bool" where
  "downloaded url (HttpDo u _ (Inr r)) \<longleftrightarrow> u = url \<and> hr_status r = 200"
| "downloaded url _ \<longleftrightarrow> False"

fun release_listed :: "bool \<Rightarrow> effect \<Rightarrow> bool" where
  "release_listed found (HelmHistory _ _ _ e) \<longleftrightarrow> (e = None) = found"
| "release_listed found _ \<longleftrightarrow> False"

fun is_install :: "effect \<Rightarrow> bool" where
  "is_install (HelmInstall _ _ _ _ _ _) \<longleftrightarrow> True"
| "is_install _ \<longleftrightarrow> False"

fun is_upgrade :: "effect \<Rightarrow> bool" where
  "is_upgrade (HelmUpgrade _ _ _ _ _ _) \<longleftrightarrow> True"
| "is_upgrade _ \<longleftrightarrow> False"

definition apply_order :: "string \<Rightarrow> effect list \<Rightarrow> bool" where
  "apply_order url es \<longleftrightarrow>
     length (filter edge_write es) \<le> 1 \<and>
     guarded (downloaded url) edge_write es \<and>
     guarded (release_listed False) is_install es \<and>
     guarded (release_listed True) is_upgrade es"

lemma emits_apply_order:
  "emits I (deploy_helm_chart ops en c ns rel repo name version)
     (\<lambda>_. apply_order (chart_url repo name version))"
  unfolding deploy_helm_chart_def load_and_apply_def
  by (intro wp_rules emits_conseq [OF emits_apply_release]; hypsubst?)
    (auto simp: apply_order_def)

text \<open>
  C16. A deployment changes the cluster at most once, and only after the chart archive came back
  with status 200; it installs only where reading the history failed, and upgrades only where it
  succeeded.
\<close>

theorem deploy_applies_in_order:
  "apply_order (chart_url repo name version)
     (calls (deploy_helm_chart ops en c ns rel repo name version) s)"
  by (rule run_judged [OF emits_apply_order])

lemma emits_uninstall_unread:
  "emits I (uninstall_helm_chart ops en c ns rel) (\<lambda>r es.
     list_ex (release_listed False) es \<longrightarrow> r = None \<and> list_all (\<lambda>e. \<not> destroys e) es)"
  unfolding uninstall_helm_chart_def
  by (intro wp_rules; hypsubst?) auto

text \<open>
  C17. Where the history cannot be read, for whatever reason, an uninstallation reports success
  without having uninstalled anything.
\<close>

theorem uninstall_unread_history_succeeds:
  assumes "list_ex (release_listed False) (calls (uninstall_helm_chart ops en c ns rel) s)"
  shows "result_of (uninstall_helm_chart ops en c ns rel) s = None \<and>
    list_all (\<lambda>e. \<not> destroys e) (calls (uninstall_helm_chart ops en c ns rel) s)"
  using run_judged [OF emits_uninstall_unread, of ops en c ns rel s] assms by blast

end
