(* ===== verification/Manifest.thy ===== *)
theory Manifest
  imports Go_Effects
begin

text \<open>
  Reading a Helm manifest: \<open>splitYAMLDocuments\<close> and \<open>parseManifestToObjects\<close> of
  \<open>internal/multicluster/krypton_operator.go\<close>. The YAML decoder of the API machinery is the
  parameter \<open>yaml_decode\<close>: an error, or the decoded object, which is \<open>None\<close> where the decoder
  returned no group, version and kind.
\<close>

section \<open>The model\<close>

definition yaml_sep :: string where
  "yaml_sep = CHR 0x0A # ''---''"

text \<open>The loop of \<open>splitYAMLDocuments\<close>: \<open>docs\<close> so far and \<open>cur\<close>, the rest of the input.\<close>

function split_yaml_loop :: "string list \<Rightarrow> string \<Rightarrow> string list" where
  "split_yaml_loop docs cur =
     (case str_index cur yaml_sep of
        None \<Rightarrow> docs @ [cur]
      | Some idx \<Rightarrow> split_yaml_loop (docs @ [take idx cur]) (drop (idx + 4) cur))"
  by pat_completeness auto
termination
proof (relation "measure (\<lambda>(docs, cur). length cur)")
  fix docs cur idx
  assume "str_index cur yaml_sep = Some idx"
  then have "prefix yaml_sep (drop idx cur)" by (auto dest: str_index_Some)
  then have "length yaml_sep \<le> length cur - idx" by (auto dest: prefix_length_le)
  then show "((docs @ [take idx cur], drop (idx + 4) cur), (docs, cur))
      \<in> measure (\<lambda>(docs, cur). length cur)"
    by (simp add: yaml_sep_def)
qed simp

declare split_yaml_loop.simps [simp del]

definition split_yaml_documents :: "string \<Rightarrow> string list" where
  "split_yaml_documents s = split_yaml_loop [] s"

fun decode_parts :: "(string \<Rightarrow> goerr + uobj option) \<Rightarrow> string list \<Rightarrow> uobj list \<Rightarrow> uobj list" where
  "decode_parts decode [] objs = objs"
| "decode_parts decode (p # ps) objs =
     (if trim_space p = [] then decode_parts decode ps objs
      else (case decode p of
              Inl e \<Rightarrow> decode_parts decode ps objs
            | Inr None \<Rightarrow> decode_parts decode ps objs
            | Inr (Some u) \<Rightarrow> decode_parts decode ps (objs @ [u])))"

definition parse_manifest_to_objects ::
  "(string \<Rightarrow> goerr + uobj option) \<Rightarrow> string \<Rightarrow> goerr + uobj list" where
  "parse_manifest_to_objects decode manifest =
     Inr (decode_parts decode (split_yaml_documents manifest) [])"

section \<open>Splitting is the inverse of joining\<close>

lemma length_yaml_sep [simp]: "length yaml_sep = 4"
  by (simp add: yaml_sep_def)

lemma yaml_sep_rest: "str_index cur yaml_sep = Some i \<Longrightarrow> length (drop (i + 4) cur) < length cur"
proof -
  assume "str_index cur yaml_sep = Some i"
  then have "prefix yaml_sep (drop i cur)" by (auto dest: str_index_Some)
  then have "4 \<le> length cur - i" by (auto dest: prefix_length_le)
  then show ?thesis by simp
qed

lemma split_yaml_loop_acc: "split_yaml_loop docs cur = docs @ split_yaml_loop [] cur"
proof (induction "length cur" arbitrary: docs cur rule: less_induct)
  case less
  show ?case
  proof (cases "str_index cur yaml_sep")
    case None
    then show ?thesis by (simp add: split_yaml_loop.simps [of _ cur])
  next
    case (Some i)
    have acc: "split_yaml_loop ds (drop (i + 4) cur) =
        ds @ split_yaml_loop [] (drop (i + 4) cur)" for ds
      using less yaml_sep_rest [OF Some] by blast
    show ?thesis
      using acc [of "docs @ [take i cur]"] acc [of "[take i cur]"] Some
      by (simp add: split_yaml_loop.simps [of _ cur])
  qed
qed

lemma split_yaml_None: "str_index s yaml_sep = None \<Longrightarrow> split_yaml_documents s = [s]"
  by (simp add: split_yaml_documents_def split_yaml_loop.simps [of _ s])

lemma split_yaml_Some:
  "str_index s yaml_sep = Some i \<Longrightarrow>
   split_yaml_documents s = take i s # split_yaml_documents (drop (i + 4) s)"
  by (simp add: split_yaml_documents_def split_yaml_loop.simps [of _ s]
      split_yaml_loop_acc [of "[take i s]"])

lemmas split_yaml_rec = split_yaml_None split_yaml_Some

lemma split_yaml_induct [case_names last more]:
  assumes "\<And>s. str_index s yaml_sep = None \<Longrightarrow> P s"
    and "\<And>s i. str_index s yaml_sep = Some i \<Longrightarrow> P (drop (i + 4) s) \<Longrightarrow> P s"
  shows "P s"
proof (induction "length s" arbitrary: s rule: less_induct)
  case less
  show ?case
    using assms less yaml_sep_rest by (cases "str_index s yaml_sep") blast+
qed

lemma split_yaml_nonempty [simp]: "split_yaml_documents s \<noteq> []"
  by (cases "str_index s yaml_sep") (simp_all add: split_yaml_rec)

lemma join_split_yaml: "str_join (split_yaml_documents s) yaml_sep = s"
proof (induction s rule: split_yaml_induct)
  case (last s)
  then show ?case by (simp add: split_yaml_None)
next
  case (more s i)
  then show ?case
    using str_index_decomp [OF more(1)]
    by (simp add: split_yaml_Some str_join_Cons)
qed

lemma take_index_clean:
  assumes "str_index s sub = Some i" and "sub \<noteq> []"
  shows "\<not> str_contains (take i s) sub"
proof
  assume "str_contains (take i s) sub"
  then obtain p q where pq: "take i s = p @ sub @ q"
    by (auto simp: str_contains_sublist sublist_def)
  then have "s = p @ sub @ q @ drop i s" by (metis append_take_drop_id append.assoc)
  then have "prefix sub (drop (length p) s)" by (metis append_eq_conv_conj prefixI)
  moreover have "length p < i"
    using arg_cong [OF pq, of length] assms(2) str_index_Some [OF assms(1)] by (cases sub) auto
  ultimately show False using str_index_minimal [OF assms(1)] by blast
qed

lemma split_yaml_clean: "d \<in> set (split_yaml_documents s) \<Longrightarrow> \<not> str_contains d yaml_sep"
proof (induction s rule: split_yaml_induct)
  case (last s)
  then show ?case by (simp add: split_yaml_None str_contains_def)
next
  case (more s i)
  then show ?case
    using take_index_clean [OF more(1)] by (auto simp: split_yaml_Some yaml_sep_def)
qed

text \<open>
  The separator starts with a newline and holds no other, so an occurrence cannot straddle the
  end of a clean document.
\<close>

lemma index_after_clean:
  assumes "c \<notin> set cs" and "\<not> str_contains d (c # cs)"
  shows "str_index (d @ (c # cs) @ rest) (c # cs) = Some (length d)"
  using assms(2)
proof (induction d)
  case Nil
  then show ?case by simp
next
  case (Cons x d)
  have clean: "\<not> prefix (c # cs) (x # d)" "\<not> str_contains d (c # cs)"
    using Cons.prems by (auto simp: str_contains_def split: if_splits)
  have "\<not> prefix (c # cs) (x # d @ (c # cs) @ rest)"
  proof
    assume "prefix (c # cs) (x # d @ (c # cs) @ rest)"
    then have "prefix (c # cs) ((x # d) @ (c # cs) @ rest)" by (simp only: append_Cons)
    with clean(1) obtain t where t: "c # cs = (x # d) @ t" "prefix t ((c # cs) @ rest)"
      by (auto simp: prefix_append)
    with clean(1) have "t \<noteq> []" by auto
    with t have "c \<in> set t" by (cases t) auto
    with t(1) assms(1) show False by auto
  qed
  with Cons.IH [OF clean(2)] show ?case by simp
qed

lemma split_join_yaml:
  "ds \<noteq> [] \<Longrightarrow> \<forall>d \<in> set ds. \<not> str_contains d yaml_sep \<Longrightarrow>
   split_yaml_documents (str_join ds yaml_sep) = ds"
proof (induction ds)
  case (Cons d ds)
  show ?case
  proof (cases "ds = []")
    case True
    with Cons.prems show ?thesis by (simp add: split_yaml_None str_contains_def)
  next
    case False
    have "str_index (d @ yaml_sep @ str_join ds yaml_sep) yaml_sep = Some (length d)"
      using Cons.prems index_after_clean [of "CHR 0x0A" "''---''" d]
      by (simp add: yaml_sep_def)
    with Cons False show ?thesis by (simp add: str_join_Cons split_yaml_Some)
  qed
qed simp

section \<open>Decoding\<close>

text \<open>The documents that reach the decoder, and what of its answers is kept.\<close>

definition kept_objects :: "(string \<Rightarrow> goerr + uobj option) \<Rightarrow> string \<Rightarrow> uobj list" where
  "kept_objects decode p =
     (if trim_space p = [] then []
      else (case decode p of Inr (Some u) \<Rightarrow> [u] | _ \<Rightarrow> []))"

lemma decode_parts_eq: "decode_parts decode ps objs = objs @ concat (map (kept_objects decode) ps)"
  by (induction ps arbitrary: objs) (auto simp: kept_objects_def split: sum.splits option.splits)

lemma parse_manifest_eq:
  "parse_manifest_to_objects decode manifest =
   Inr (concat (map (kept_objects decode) (split_yaml_documents manifest)))"
  by (simp add: parse_manifest_to_objects_def decode_parts_eq)

section \<open>Properties\<close>

text \<open>
  C19. Splitting finds the one way to read the text as documents joined by the separator, none of
  which holds the separator.
\<close>

theorem split_yaml_documents_unique:
  "split_yaml_documents s = ds \<longleftrightarrow>
     ds \<noteq> [] \<and> list_all (\<lambda>d. \<not> str_contains d yaml_sep) ds \<and> str_join ds yaml_sep = s"
  using split_yaml_clean [of _ s] join_split_yaml [of s] split_join_yaml [of ds]
  by (auto simp: list_all_iff)

lemma str_join_append:
  "xs \<noteq> [] \<Longrightarrow> ys \<noteq> [] \<Longrightarrow> str_join (xs @ ys) sep = str_join xs sep @ sep @ str_join ys sep"
  by (induction xs rule: induct_list012) (auto simp: neq_Nil_conv)

lemma split_yaml_documents_append:
  "split_yaml_documents (m @ yaml_sep @ n) = split_yaml_documents m @ split_yaml_documents n"
proof -
  let ?ds = "split_yaml_documents m @ split_yaml_documents n"
  have "str_join ?ds yaml_sep = m @ yaml_sep @ n"
    by (simp add: str_join_append join_split_yaml)
  moreover have "split_yaml_documents (str_join ?ds yaml_sep) = ?ds"
    by (rule split_join_yaml) (auto dest: split_yaml_clean)
  ultimately show ?thesis by simp
qed

text \<open>
  C20. Parsing never fails, and reads a manifest that is put together from two others as the objects
  of the first followed by those of the second.
\<close>

theorem parse_manifest_append:
  "\<exists>xs ys. parse_manifest_to_objects decode m = Inr xs \<and>
     parse_manifest_to_objects decode n = Inr ys \<and>
     parse_manifest_to_objects decode (m @ yaml_sep @ n) = Inr (xs @ ys)"
  by (simp add: parse_manifest_eq split_yaml_documents_append)

end
