(* ===== verification/Check_Heal.thy ===== *)
theory Check_Heal
  imports Helm_Deploy Manifest
begin

text \<open>
  \<open>rcedCheckAndHeal\<close>: is the release installed and does every object of its manifest exist on the
  edge cluster? Where something is missing the chart is deployed again.
\<close>

section \<open>The model\<close>

text \<open>The kinds the check is limited to.\<close>

definition allowed_kind :: "gvk \<Rightarrow> bool" where
  "allowed_kind g \<longleftrightarrow>
     (gvk_group g = [] \<and> gvk_version g = ''v1'' \<and>
        (gvk_kind g = ''ConfigMap'' \<or> gvk_kind g = ''Secret'' \<or>
         gvk_kind g = ''Service'' \<or> gvk_kind g = ''ServiceAccount'')) \<or>
     (gvk_group g = ''apps'' \<and> gvk_version g = ''v1'' \<and>
        (gvk_kind g = ''Deployment'' \<or> gvk_kind g = ''ReplicaSet''))"

definition object_key :: "string \<Rightarrow> uobj \<Rightarrow> nsname" where
  "object_key namespace obj =
     \<lparr>nn_namespace = (if uo_namespace obj = [] then namespace else uo_namespace obj),
      nn_name = uo_name obj\<rparr>"

definition missing_text :: "'w ops \<Rightarrow> string \<Rightarrow> uobj \<Rightarrow> string" where
  "missing_text ops namespace obj =
     gvk_kind (uo_gvk obj) @ ''/'' @ nn_string ops (object_key namespace obj)"

text \<open>The loop over the manifest's objects, with the slice \<open>missing\<close>.\<close>

fun check_objects ::
  "'w ops \<Rightarrow> cluster \<Rightarrow> string \<Rightarrow> uobj list \<Rightarrow> string list \<Rightarrow> ('w, effect, string list) go" where
  "check_objects ops c namespace [] missing = ret missing"
| "check_objects ops c namespace (obj # objs) missing =
     (if uo_namespace obj \<noteq> [] \<and> uo_namespace obj \<noteq> namespace
      then check_objects ops c namespace objs missing
      else if \<not> allowed_kind (uo_gvk obj) then check_objects ops c namespace objs missing
      else do {
        err \<leftarrow> ext (obj_get ops c (uo_gvk obj) (object_key namespace obj))
                (ObjGet c (uo_gvk obj) (object_key namespace obj));
        check_objects ops c namespace objs
          (if is_not_found err then missing @ [missing_text ops namespace obj] else missing)
      })"

type_synonym heal_result = "bool \<times> string list \<times> goerr option"

text \<open>The two places where a release that is not there is installed again.\<close>

definition reinstall ::
  "'w ops \<Rightarrow> env \<Rightarrow> cluster \<Rightarrow> string \<Rightarrow> string \<Rightarrow> string \<Rightarrow> string \<Rightarrow> string \<Rightarrow> kdep \<Rightarrow>
   string \<Rightarrow> string \<Rightarrow> ('w, effect, heal_result) go" where
  "reinstall ops en c namespace rel chartRepo chartName chartVersion d reason msg = do {
     event d EventWarning reason msg;
     err \<leftarrow> deploy_helm_chart ops en c namespace rel chartRepo chartName chartVersion;
     (case err of
        Some e \<Rightarrow> ret (False, [], Some (wrap_err ''repair install failed: '' e))
      | None \<Rightarrow> ret (True, [''release:'' @ rel], None))
   }"

text \<open>The part of the function below the two early re-installations.\<close>

definition heal_missing ::
  "'w ops \<Rightarrow> env \<Rightarrow> cluster \<Rightarrow> string \<Rightarrow> string \<Rightarrow> string \<Rightarrow> string \<Rightarrow> string \<Rightarrow> string \<Rightarrow>
   ('w, effect, heal_result) go" where
  "heal_missing ops en c namespace rel chartRepo chartName chartVersion manifest =
     (case parse_manifest_to_objects (yaml_decode ops) manifest of
        Inl parseErr \<Rightarrow> ret (False, [], None)
      | Inr objs \<Rightarrow> do {
          missing \<leftarrow> check_objects ops c namespace objs [];
          (if missing \<noteq> [] then do {
             err \<leftarrow> deploy_helm_chart ops en c namespace rel chartRepo chartName chartVersion;
             (case err of
                Some e \<Rightarrow> ret (False, missing, Some (wrap_err ''repair upgrade failed: '' e))
              | None \<Rightarrow> ret (True, missing, None))
           }
           else ret (False, [], None))
        })"

text \<open>A release pointer with an info pointer whose status is not \<open>StatusUninstalled\<close>.\<close>

definition installed_manifest :: "release option \<Rightarrow> string option" where
  "installed_manifest rel =
     (case rel of
        None \<Rightarrow> None
      | Some r \<Rightarrow>
          (case rel_info r of
             None \<Rightarrow> None
           | Some status \<Rightarrow> if status = ''uninstalled'' then None else Some (rel_manifest r)))"

definition check_and_heal ::
  "'w ops \<Rightarrow> env \<Rightarrow> cluster \<Rightarrow> string \<Rightarrow> string \<Rightarrow> string \<Rightarrow> string \<Rightarrow> string \<Rightarrow> kdep \<Rightarrow>
   ('w, effect, heal_result) go" where
  "check_and_heal ops en c namespace rel chartRepo chartName chartVersion d = do {
     let ac = helm_config ops en c namespace;
     initErr \<leftarrow> ext (helm_init ops ac) (HelmInit ac);
     (case initErr of
        Some e \<Rightarrow> ret (False, [], Some (wrap_err ''helm init failed: '' e))
      | None \<Rightarrow> do {
          histErr \<leftarrow> ext (helm_history ops ac 1 rel) (HelmHistory ac 1 rel);
          (if histErr \<noteq> None
           then reinstall ops en c namespace rel chartRepo chartName chartVersion d
                  ''ReleaseMissing'' ''Helm release missing; re-installing''
           else do {
             got \<leftarrow> ext (helm_get ops ac rel) (HelmGet ac rel);
             (case got of
                Inl e \<Rightarrow> ret (False, [], Some (wrap_err ''helm get failed: '' e))
              | Inr r \<Rightarrow>
                  (case installed_manifest r of
                     None \<Rightarrow>
                       reinstall ops en c namespace rel chartRepo chartName chartVersion d
                         ''ReleaseNotInstalled'' ''Release not installed; re-installing''
                   | Some manifest \<Rightarrow>
                       heal_missing ops en c namespace rel chartRepo chartName chartVersion
                         manifest))
           })
        })
   }"

section \<open>Which objects are reported missing\<close>

text \<open>The objects the loop asks the API server about.\<close>

definition checked :: "string \<Rightarrow> uobj \<Rightarrow> bool" where
  "checked namespace obj \<longleftrightarrow>
     (uo_namespace obj = [] \<or> uo_namespace obj = namespace) \<and> allowed_kind (uo_gvk obj)"

text \<open>
  \<open>answers\<close> pairs the checked objects with the answers they got; \<open>missing\<close> is the text of
  those answered with a not-found error, in the manifest's order.
\<close>

definition missing_of :: "'w ops \<Rightarrow> string \<Rightarrow> (uobj \<times> goerr option) list \<Rightarrow> string list" where
  "missing_of ops namespace answers =
     map (\<lambda>x. missing_text ops namespace (fst x)) (filter (\<lambda>x. is_not_found (snd x)) answers)"

definition obj_get_call :: "cluster \<Rightarrow> string \<Rightarrow> uobj \<times> goerr option \<Rightarrow> effect" where
  "obj_get_call c namespace x =
     ObjGet c (uo_gvk (fst x)) (object_key namespace (fst x)) (snd x)"

definition check_post ::
  "'w ops \<Rightarrow> cluster \<Rightarrow> string \<Rightarrow> uobj list \<Rightarrow> string list \<Rightarrow> effect list \<Rightarrow> bool" where
  "check_post ops c namespace objs missing es \<longleftrightarrow>
     (\<exists>answers. map fst answers = filter (checked namespace) objs \<and>
        es = map (obj_get_call c namespace) answers \<and>
        missing = missing_of ops namespace answers)"

lemma emits_check_objects_acc:
  "emits I (check_objects ops c namespace objs acc) (\<lambda>missing es.
     \<exists>answers. map fst answers = filter (checked namespace) objs \<and>
        es = map (obj_get_call c namespace) answers \<and>
        missing = acc @ missing_of ops namespace answers)"
proof (induction objs arbitrary: acc)
  case Nil
  show ?case by (auto intro!: wp_rules simp: missing_of_def)
next
  case (Cons obj objs)
  show ?case
  proof (cases "checked namespace obj")
    case False
    then show ?thesis
      using Cons.IH [of acc] by (auto simp: checked_def)
  next
    case True
    then have step: "check_objects ops c namespace (obj # objs) acc =
        State_Monad.bind
          (ext (obj_get ops c (uo_gvk obj) (object_key namespace obj))
            (ObjGet c (uo_gvk obj) (object_key namespace obj)))
          (\<lambda>err. check_objects ops c namespace objs
            (if is_not_found err then acc @ [missing_text ops namespace obj] else acc))"
      by (auto simp: checked_def)
    show ?thesis
      unfolding step
    proof (rule emits_bind_ext, rule emits_conseq [OF Cons.IH], elim exE conjE)
      fix err missing es and answers :: "(uobj \<times> goerr option) list"
      assume "map fst answers = filter (checked namespace) objs"
        and "es = map (obj_get_call c namespace) answers"
        and "missing = (if is_not_found err then acc @ [missing_text ops namespace obj] else acc) @
          missing_of ops namespace answers"
      with True show "\<exists>answers. map fst answers = filter (checked namespace) (obj # objs) \<and>
          ObjGet c (uo_gvk obj) (object_key namespace obj) err # es =
            map (obj_get_call c namespace) answers \<and>
          missing = acc @ missing_of ops namespace answers"
        by (intro exI [of _ "(obj, err) # answers"])
          (simp add: obj_get_call_def missing_of_def)
    qed
  qed
qed

lemma emits_check_objects:
  "emits I (check_objects ops c namespace objs []) (check_post ops c namespace objs)"
  by (rule emits_conseq [OF emits_check_objects_acc]) (simp add: check_post_def)

section \<open>What a healing run does\<close>

definition heal_call :: "effect \<Rightarrow> bool" where
  "heal_call e =
     (helm_call e \<or> (case e of ObjGet _ _ _ _ \<Rightarrow> True
        | Event _ EventWarning reason _ \<Rightarrow> reason = ''ReleaseMissing'' \<or> reason = ''ReleaseNotInstalled''
        | _ \<Rightarrow> False))"

text \<open>
  A run that reports a repair ends with the deployment that made it; a run that reports neither a
  repair nor an error has changed nothing.
\<close>

definition heal_post ::
  "action_config \<Rightarrow> string \<Rightarrow> string \<Rightarrow> heal_result \<Rightarrow> effect list \<Rightarrow> bool" where
  "heal_post ac ns rel r es \<longleftrightarrow>
     (case r of (repaired, missing, err) \<Rightarrow>
        list_all heal_call es \<and> es \<noteq> [] \<and>
        list_all (\<lambda>e. \<not> edge_write e) (butlast es) \<and>
        (repaired \<longleftrightarrow> applied_ok ac ns rel (last es)) \<and>
        (apply_succeeded (last es) \<longleftrightarrow> applied_ok ac ns rel (last es)) \<and>
        (repaired \<longrightarrow> err = None \<and> missing \<noteq> []) \<and>
        (list_all smooth es \<longrightarrow> \<not> repaired \<and> err = None) \<and>
        (\<not> repaired \<longrightarrow> err = None \<longrightarrow> \<not> edge_write (last es) \<and> missing = []))"

lemma deploy_post_heal:
  assumes "deploy_post ac ns rel url err es" and "list_all heal_call pre"
    and "list_all (\<lambda>e. \<not> edge_write e) pre" and "\<not> list_all smooth pre"
    and "err = None \<longrightarrow> repaired \<and> missing \<noteq> [] \<and> e' = None"
    and "err \<noteq> None \<longrightarrow> \<not> repaired \<and> e' \<noteq> None"
  shows "heal_post ac ns rel (repaired, missing, e') (pre @ es)"
  using assms
  by (auto simp: heal_post_def deploy_post_def heal_call_def butlast_append list_all_iff)

lemma emits_reinstall:
  assumes "reason = ''ReleaseMissing'' \<or> reason = ''ReleaseNotInstalled''"
    and "list_all heal_call pre" and "list_all (\<lambda>e. \<not> edge_write e) pre"
    and "\<not> list_all smooth pre"
  shows "emits I (reinstall ops en c ns rel repo name version d reason msg)
     (\<lambda>r es. heal_post (helm_config ops en c ns) ns rel r (pre @ es))"
  unfolding reinstall_def
proof (rule emits_bind_event, rule emits_bind [OF emits_deploy_helm_chart])
  fix err es
  let ?pre = "pre @ [Event d EventWarning reason msg]"
  assume "deploy_post (helm_config ops en c ns) ns rel (chart_url repo name version) err es"
  then have heal: "heal_post (helm_config ops en c ns) ns rel (repaired, missing, e') (?pre @ es)"
    if "err = None \<longrightarrow> repaired \<and> missing \<noteq> [] \<and> e' = None"
      "err \<noteq> None \<longrightarrow> \<not> repaired \<and> e' \<noteq> None" for repaired missing e'
    using assms that
    by (intro deploy_post_heal) (auto simp: heal_call_def)
  show "emits I
      (case err of None \<Rightarrow> ret (True, [''release:'' @ rel], None)
       | Some e \<Rightarrow> ret (False, [], Some (wrap_err ''repair install failed: '' e)))
      (\<lambda>r es'. heal_post (helm_config ops en c ns) ns rel r
        (pre @ Event d EventWarning reason msg # es @ es'))"
  proof (cases err)
    case None
    then show ?thesis using heal [of True "[''release:'' @ rel]" None] by (simp add: emits_ret)
  next
    case (Some e)
    then show ?thesis
      using heal [of False "[]" "Some (wrap_err ''repair install failed: '' e)"]
      by (simp add: emits_ret)
  qed
qed

lemma emits_heal_missing:
  assumes "list_all heal_call pre" and "list_all (\<lambda>e. \<not> edge_write e) pre" and "pre \<noteq> []"
    and "\<not> applied_ok (helm_config ops en c ns) ns rel (last pre)"
  shows "emits I (heal_missing ops en c ns rel repo name version manifest)
     (\<lambda>r es. heal_post (helm_config ops en c ns) ns rel r (pre @ es))"
proof -
  let ?objs = "concat (map (kept_objects (yaml_decode ops)) (split_yaml_documents manifest))"
  have calls_ok: "list_all heal_call es \<and> list_all (\<lambda>e. \<not> edge_write e) es \<and>
      list_all (\<lambda>e. \<not> applied_ok ac ns rel e) es \<and> (list_all smooth es \<longleftrightarrow> missing = [])"
    if "check_post ops c ns ?objs missing es" for missing es ac
    using that
    by (force simp: check_post_def list_all_iff obj_get_call_def heal_call_def missing_of_def
      filter_empty_conv)
  show ?thesis
    unfolding heal_missing_def parse_manifest_eq sum.case
  proof (rule emits_bind [OF emits_check_objects])
    fix missing es
    assume post: "check_post ops c ns ?objs missing es"
    note ok = calls_ok [OF post]
    show "emits I
        (if missing \<noteq> []
         then State_Monad.bind (deploy_helm_chart ops en c ns rel repo name version) (\<lambda>err.
           case err of None \<Rightarrow> ret (True, missing, None)
           | Some e \<Rightarrow> ret (False, missing, Some (wrap_err ''repair upgrade failed: '' e)))
         else ret (False, [], None))
        (\<lambda>r es'. heal_post (helm_config ops en c ns) ns rel r (pre @ es @ es'))"
    proof (rule emits_if, rule emits_bind [OF emits_deploy_helm_chart])
      fix err es'
      assume "missing \<noteq> []"
        and "deploy_post (helm_config ops en c ns) ns rel (chart_url repo name version) err es'"
      then have heal:
        "heal_post (helm_config ops en c ns) ns rel (repaired, missing, e') ((pre @ es) @ es')"
        if "repaired = (err = None)" "(e' = None) = (err = None)" for repaired e'
        using assms ok that by (intro deploy_post_heal) auto
      show "emits I
          (case err of None \<Rightarrow> ret (True, missing, None)
           | Some e \<Rightarrow> ret (False, missing, Some (wrap_err ''repair upgrade failed: '' e)))
          (\<lambda>r es''. heal_post (helm_config ops en c ns) ns rel r (pre @ es @ es' @ es''))"
      proof (cases err)
        case None
        then show ?thesis using heal [of True None] by (simp add: emits_ret)
      next
        case (Some e)
        then show ?thesis
          using heal [of False "Some (wrap_err ''repair upgrade failed: '' e)"]
          by (simp add: emits_ret)
      qed
    next
      assume "\<not> missing \<noteq> []"
      with assms ok show "emits I (ret (False, [], None))
          (\<lambda>r es'. heal_post (helm_config ops en c ns) ns rel r (pre @ es @ es'))"
        by (intro wp_rules)
          (auto simp: heal_post_def butlast_append last_append list_all_iff
            dest: in_set_butlastD apply_succeeded_edge_write)
    qed
  qed
qed

lemma emits_check_and_heal:
  "emits I (check_and_heal ops en c ns rel repo name version d)
     (heal_post (helm_config ops en c ns) ns rel)"
proof -
  let ?ac = "helm_config ops en c ns"
  have hist: "emits I (reinstall ops en c ns rel repo name version d ''ReleaseMissing'' msg)
      (\<lambda>r es. heal_post ?ac ns rel r (HelmInit ?ac None # HelmHistory ?ac 1 rel h # es))"
    if "h \<noteq> None" for msg h
    using emits_reinstall [of "''ReleaseMissing''" "[HelmInit ?ac None, HelmHistory ?ac 1 rel h]"] that
    by (simp add: heal_call_def)
  have got: "emits I (reinstall ops en c ns rel repo name version d ''ReleaseNotInstalled'' msg)
      (\<lambda>r es. heal_post ?ac ns rel r
        (HelmInit ?ac None # HelmHistory ?ac 1 rel h # HelmGet ?ac rel (Inr g) # es))"
    if "installed_manifest g = None" for msg h g
    using emits_reinstall [of "''ReleaseNotInstalled''"
        "[HelmInit ?ac None, HelmHistory ?ac 1 rel h, HelmGet ?ac rel (Inr g)]"] that
    by (simp add: heal_call_def installed_manifest_def split: option.splits if_splits)
  have heal: "emits I (heal_missing ops en c ns rel repo name version manifest)
      (\<lambda>r es. heal_post ?ac ns rel r
        (HelmInit ?ac None # HelmHistory ?ac 1 rel h # HelmGet ?ac rel g # es))" for manifest h g
    using emits_heal_missing
        [of "[HelmInit ?ac None, HelmHistory ?ac 1 rel h, HelmGet ?ac rel g]" ops en c ns rel]
    by (simp add: heal_call_def)
  show ?thesis
    unfolding check_and_heal_def
    by (intro wp_rules; hypsubst?; (rule hist got; assumption | rule heal)?)
      (auto simp: heal_post_def heal_call_def)
qed

section \<open>Properties\<close>

text \<open>
  C14. The object check asks once for every object of an allowed kind in the release's namespace,
  in the order of the manifest, and names exactly those that the API server reports as not found;
  an object whose lookup fails otherwise counts as present.
\<close>

theorem check_objects_exact:
  "\<exists>answers. map fst answers = filter (checked namespace) objs \<and>
     calls (check_objects ops c namespace objs []) s = map (obj_get_call c namespace) answers \<and>
     result_of (check_objects ops c namespace objs []) s = missing_of ops namespace answers"
  using run_judged [OF emits_check_objects, of ops c namespace objs s]
  by (simp add: check_post_def)

text \<open>
  What a result of the check says about the calls behind it. \<open>failed\<close>: a call failed, and no
  deployment went through.
  \<open>release_missing\<close> and \<open>not_installed\<close>: the history or the release showed nothing installed, and
  the chart was applied. \<open>objects_missing\<close>: the objects of the release's manifest were looked up,
  exactly the named ones were not found, and the chart was applied. \<open>all_present\<close>: none was missing,
  and there were no other calls.
\<close>

fun call_failed :: "effect \<Rightarrow> bool" where
  "call_failed (HelmHistory _ _ _ _) \<longleftrightarrow> False"
| "call_failed (ObjGet _ _ _ _) \<longleftrightarrow> False"
| "call_failed (HelmGet _ _ r) \<longleftrightarrow> (case r of Inl _ \<Rightarrow> True | Inr _ \<Rightarrow> False)"
| "call_failed e \<longleftrightarrow> \<not> smooth e"

inductive heal_report ::
  "'w ops \<Rightarrow> action_config \<Rightarrow> cluster \<Rightarrow> string \<Rightarrow> string \<Rightarrow> heal_result \<Rightarrow> effect list \<Rightarrow> bool"
  for ops ac c ns rel where
  failed: "list_ex call_failed es \<Longrightarrow> \<not> applied_ok ac ns rel (last es) \<Longrightarrow>
     heal_report ops ac c ns rel (False, missing, Some e) es"
| release_missing: "missing = [''release:'' @ rel] \<Longrightarrow> ds \<noteq> [] \<Longrightarrow> applied_ok ac ns rel (last ds) \<Longrightarrow>
     heal_report ops ac c ns rel (True, missing, None)
       (HelmInit ac None # HelmHistory ac 1 rel (Some e) #
        Event d EventWarning ''ReleaseMissing'' msg # ds)"
| not_installed: "installed_manifest r = None \<Longrightarrow> missing = [''release:'' @ rel] \<Longrightarrow> ds \<noteq> [] \<Longrightarrow>
     applied_ok ac ns rel (last ds) \<Longrightarrow>
     heal_report ops ac c ns rel (True, missing, None)
       (HelmInit ac None # HelmHistory ac 1 rel None # HelmGet ac rel (Inr r) #
        Event d EventWarning ''ReleaseNotInstalled'' msg # ds)"
| objects_missing: "installed_manifest r = Some manifest \<Longrightarrow>
     check_post ops c ns (concat (map (kept_objects (yaml_decode ops)) (split_yaml_documents manifest)))
       missing gs \<Longrightarrow> missing \<noteq> [] \<Longrightarrow> ds \<noteq> [] \<Longrightarrow> applied_ok ac ns rel (last ds) \<Longrightarrow>
     heal_report ops ac c ns rel (True, missing, None)
       (HelmInit ac None # HelmHistory ac 1 rel None # HelmGet ac rel (Inr r) # gs @ ds)"
| all_present: "installed_manifest r = Some manifest \<Longrightarrow>
     check_post ops c ns (concat (map (kept_objects (yaml_decode ops)) (split_yaml_documents manifest)))
       [] gs \<Longrightarrow>
     heal_report ops ac c ns rel (False, [], None)
       (HelmInit ac None # HelmHistory ac 1 rel None # HelmGet ac rel (Inr r) # gs)"

lemma deploy_post_last:
  "deploy_post ac ns rel url None es \<Longrightarrow> es \<noteq> [] \<and> applied_ok ac ns rel (last es)"
  "deploy_post ac ns rel url (Some e) es \<Longrightarrow> es \<noteq> [] \<and> \<not> applied_ok ac ns rel (last es)"
  by (simp_all add: deploy_post_def)

lemma emits_deploy_failed:
  "emits I (deploy_helm_chart ops en c ns rel repo name version)
     (\<lambda>r es. r \<noteq> None \<longrightarrow> list_ex call_failed es)"
  unfolding deploy_helm_chart_def load_and_apply_def
  by (intro wp_rules emits_conseq [OF emits_apply_release]; hypsubst?) auto

lemma emits_heal_report:
  "emits I (check_and_heal ops en c ns rel repo name version d)
     (heal_report ops (helm_config ops en c ns) c ns rel)"
  unfolding check_and_heal_def heal_missing_def reinstall_def parse_manifest_eq sum.case Let_def
  by (intro wp_rules emits_bind [OF emits_conj [OF emits_deploy_helm_chart emits_deploy_failed]]
      emits_bind [OF emits_check_objects]; hypsubst?)
    (auto dest!: deploy_post_last intro: heal_report.intros simp del: One_nat_def)

text \<open>
  C13. The result of the check is true to its calls. An error is reported only when a call failed
  and the chart was not applied. A repair is reported exactly when the release
  was not there, or its objects were looked up and the named ones were not found, and the chart was
  then applied. Neither a repair nor an error is reported only when the installed release's manifest
  was read, every checked object of it was looked up, none was reported as not found, and nothing
  was changed.
\<close>

theorem check_and_heal_reports_repairs:
  "heal_report ops (helm_config ops en c ns) c ns rel
     (result_of (check_and_heal ops en c ns rel repo name version d) s)
     (calls (check_and_heal ops en c ns rel repo name version d) s)"
  by (rule run_judged [OF emits_heal_report])

end
