(* ===== verification/Workload_Health.thy ===== *)
theory Workload_Health
  imports Go_Effects
begin

text \<open>
  \<open>rcedNamespaceWorkloadHealthy\<close>: are all Deployments of the namespace available? Replica counts
  are signed 32-bit words, compared and printed as signed numbers.
\<close>

section \<open>The model\<close>

definition desired_replicas :: "workload \<Rightarrow> int32" where
  "desired_replicas d = (case wl_replicas d of None \<Rightarrow> 1 | Some r \<Rightarrow> r)"

definition not_ready_text :: "workload \<Rightarrow> string" where
  "not_ready_text d =
     ''Deployment/'' @ wl_name d @ '' ('' @ fmt_d (sint (wl_available d)) @ ''/'' @
     fmt_d (sint (desired_replicas d)) @ '' available)''"

text \<open>The loop over the list, with the accumulated slice.\<close>

fun collect_not_ready :: "workload list \<Rightarrow> string list \<Rightarrow> string list" where
  "collect_not_ready [] notReady = notReady"
| "collect_not_ready (d # ds) notReady =
     (if sint (wl_available d) < sint (desired_replicas d)
      then collect_not_ready ds (notReady @ [not_ready_text d])
      else collect_not_ready ds notReady)"

definition namespace_workload_healthy ::
  "'w ops \<Rightarrow> cluster \<Rightarrow> string \<Rightarrow> ('w, effect, bool \<times> string list) go" where
  "namespace_workload_healthy ops c ns = do {
     r \<leftarrow> ext (list_workloads ops c ns) (ListWorkloads c ns);
     (case r of
        Inl e \<Rightarrow> ret (False, [''list-error:'' @ err_text e])
      | Inr items \<Rightarrow>
          (let notReady = collect_not_ready items [] in ret (notReady = [], notReady)))
   }"

section \<open>What healthy means\<close>

definition workload_available :: "workload \<Rightarrow> bool" where
  "workload_available d \<longleftrightarrow> sint (desired_replicas d) \<le> sint (wl_available d)"

lemma collect_not_ready_eq:
  "collect_not_ready ds acc =
     acc @ map not_ready_text (filter (\<lambda>d. \<not> workload_available d) ds)"
  by (induction ds arbitrary: acc) (auto simp: workload_available_def)

lemma collect_not_ready_Nil: "collect_not_ready ds [] = [] \<longleftrightarrow> list_all workload_available ds"
  by (auto simp: collect_not_ready_eq filter_empty_conv list_all_iff)

text \<open>\<open>healthy_listing\<close>: the one call of the check answered with available Deployments only.\<close>

definition healthy_listing :: "cluster \<Rightarrow> string \<Rightarrow> effect \<Rightarrow> bool" where
  "healthy_listing c ns e =
     (case e of
        ListWorkloads c' ns' (Inr items) \<Rightarrow> c' = c \<and> ns' = ns \<and> list_all workload_available items
      | _ \<Rightarrow> False)"

definition health_post :: "cluster \<Rightarrow> string \<Rightarrow> bool \<times> string list \<Rightarrow> effect list \<Rightarrow> bool" where
  "health_post c ns r es \<longleftrightarrow>
     (\<exists>ans. es = [ListWorkloads c ns ans] \<and> (fst r \<longleftrightarrow> healthy_listing c ns (ListWorkloads c ns ans))) \<and>
     (fst r \<longleftrightarrow> snd r = [])"

lemma emits_namespace_workload_healthy:
  "emits I (namespace_workload_healthy ops c ns) (health_post c ns)"
  unfolding namespace_workload_healthy_def
  by (intro wp_rules; hypsubst?)
    (auto simp: health_post_def healthy_listing_def collect_not_ready_Nil)

section \<open>Properties\<close>

text \<open>
  C18. The check makes one call. The namespace is healthy exactly when the listing succeeds and
  every Deployment has at least the replicas it asks for; otherwise the unavailable ones are named,
  in the order of the list.
\<close>

theorem namespace_workload_healthy_exact:
  "\<exists>ans. calls (namespace_workload_healthy ops c ns) s = [ListWorkloads c ns ans] \<and>
     result_of (namespace_workload_healthy ops c ns) s =
       (case ans of
          Inl e \<Rightarrow> (False, [''list-error:'' @ err_text e])
        | Inr items \<Rightarrow> (list_all workload_available items,
            map not_ready_text (filter (\<lambda>d. \<not> workload_available d) items)))"
  by (cases "fst (list_workloads ops c ns (world s))")
    (simp_all add: namespace_workload_healthy_def calls_def Let_def collect_not_ready_Nil
      collect_not_ready_eq filter_empty_conv list_all_iff)

end
