(* ===== verification/Go_Duration.thy ===== *)
theory Go_Duration
  imports Go_Strings
begin

text \<open>
  \<open>time.ParseDuration\<close> of Go's standard library, which the operator runs on the value of
  \<open>KRYPTON_CHECK_INTERVAL\<close>. Unsigned 64-bit intermediate values are natural numbers with the
  library's own overflow checks written out, and the one addition that can wrap is taken modulo
  \<open>2 ^ 64\<close>. The fractional part of a number is scaled in IEEE double precision: \<open>round53\<close> rounds
  a positive rational to 53 significant bits, half to even, which is exact for the magnitudes that
  occur (no overflow and no subnormal value can arise, because a fraction of a unit is at most
  the unit itself).
\<close>

section \<open>Double precision\<close>

fun bit_count :: "nat \<Rightarrow> nat" where
  "bit_count n = (if n = 0 then 0 else Suc (bit_count (n div 2)))"

declare bit_count.simps [simp del]

definition round_half_even :: "nat \<Rightarrow> nat \<Rightarrow> nat" where
  "round_half_even p q =
     (let d = p div q; r = p mod q
      in if 2 * r < q \<or> (2 * r = q \<and> even d) then d else Suc d)"

definition round53 :: "nat \<times> nat \<Rightarrow> nat \<times> nat" where
  "round53 x =
     (case x of (p, q) \<Rightarrow>
       if p = 0 then (0, 1)
       else
         (let e0 = int (bit_count p) - int (bit_count q) - 53;
              p1 = p * 2 ^ nat (- e0);
              q1 = q * 2 ^ nat e0;
              e = (if p1 < 2 ^ 53 * q1 then e0 else e0 + 1);
              q2 = (if p1 < 2 ^ 53 * q1 then q1 else 2 * q1);
              m = round_half_even p1 q2
          in (m * 2 ^ nat e, 2 ^ nat (- e))))"

text \<open>\<open>uint64(float64(f) * (float64(unit) / scale))\<close>, where \<open>scale\<close> is \<open>10 ^ k\<close>.\<close>

definition frac_nanos :: "nat \<Rightarrow> nat \<Rightarrow> nat \<Rightarrow> nat" where
  "frac_nanos f unit k =
     (let (fn, fd) = round53 (f, 1);
          (rn, rd) = round53 (unit, 10 ^ k);
          (pn, pd) = round53 (fn * rn, fd * rd)
      in pn div pd)"

section \<open>The parser\<close>

text \<open>\<open>leadingInt\<close>: \<open>None\<close> is its overflow error.\<close>

fun leading_int :: "nat \<Rightarrow> string \<Rightarrow> (nat \<times> string) option" where
  "leading_int x [] = Some (x, [])"
| "leading_int x (c # cs) =
     (if \<not> is_digit c then Some (x, c # cs)
      else if 2 ^ 63 div 10 < x then None
      else (let y = x * 10 + digit_val c in if 2 ^ 63 < y then None else leading_int y cs))"

text \<open>
  \<open>leadingFraction\<close>: the value read so far, the number of digits it has (the exponent of
  \<open>scale\<close>), the flag that it stopped accumulating, and the rest of the input.
\<close>

fun leading_fraction :: "nat \<Rightarrow> nat \<Rightarrow> bool \<Rightarrow> string \<Rightarrow> nat \<times> nat \<times> string" where
  "leading_fraction x k over [] = (x, k, [])"
| "leading_fraction x k over (c # cs) =
     (if \<not> is_digit c then (x, k, c # cs)
      else if over \<or> (2 ^ 63 - 1) div 10 < x then leading_fraction x k True cs
      else (let y = x * 10 + digit_val c
            in if 2 ^ 63 < y then leading_fraction x k True cs
               else leading_fraction y (Suc k) False cs))"

definition unit_map :: "(string \<times> nat) list" where
  "unit_map =
     [(''ns'', 1),
      (''us'', 1000),
      ([char_of (194 :: nat), char_of (181 :: nat), CHR ''s''], 1000),
      ([char_of (206 :: nat), char_of (188 :: nat), CHR ''s''], 1000),
      (''ms'', 1000000),
      (''s'', 1000000000),
      (''m'', 60000000000),
      (''h'', 3600000000000)]"

definition num_char :: "char \<Rightarrow> bool" where
  "num_char c = (c = CHR ''.'' \<or> is_digit c)"

text \<open>
  One round of the parser's loop: a number with a unit. It returns the nanoseconds of this
  component and the rest of the input.
\<close>

definition parse_component :: "string \<Rightarrow> (nat \<times> string) option" where
  "parse_component s =
     (if s = [] \<or> \<not> num_char (hd s) then None
      else case leading_int 0 s of
        None \<Rightarrow> None
      | Some (v, s1) \<Rightarrow>
          (let pre = (length s1 \<noteq> length s);
               dot = (s1 \<noteq> [] \<and> hd s1 = CHR ''.'');
               (f, k, s2) = (if dot then leading_fraction 0 0 False (tl s1) else (0, 0, s1));
               post = (dot \<and> length s2 \<noteq> length (tl s1))
           in if \<not> pre \<and> \<not> post then None
              else
                (let u = takeWhile (\<lambda>c. \<not> num_char c) s2;
                     s3 = dropWhile (\<lambda>c. \<not> num_char c) s2
                 in if u = [] then None
                    else case map_of unit_map u of
                      None \<Rightarrow> None
                    | Some unit \<Rightarrow>
                        if 2 ^ 63 div unit < v then None
                        else
                          (let w = v * unit + (if 0 < f then frac_nanos f unit k else 0)
                           in if 0 < f \<and> 2 ^ 63 < w then None else Some (w, s3)))))"

lemma leading_int_length: "leading_int x s = Some (v, t) \<Longrightarrow> length t \<le> length s"
proof (induction x s rule: leading_int.induct)
  case (2 x c cs)
  then show ?case by (fastforce split: if_splits simp: Let_def)
qed simp

lemma leading_fraction_length: "leading_fraction x k over s = (f, k', t) \<Longrightarrow> length t \<le> length s"
proof (induction x k over s rule: leading_fraction.induct)
  case (2 x k over c cs)
  then show ?case by (fastforce split: if_splits simp: Let_def)
qed simp

lemma dropWhile_shorter: "takeWhile P s \<noteq> [] \<Longrightarrow> length (dropWhile P s) < length s"
  by (cases s) (auto simp: length_dropWhile_le le_imp_less_Suc split: if_splits)

lemma parse_component_length:
  assumes "parse_component s = Some (w, t)"
  shows "length t < length s"
proof -
  obtain v s1 where s1: "leading_int 0 s = Some (v, s1)"
    using assms by (auto simp: parse_component_def split: if_splits option.splits)
  obtain f k s2 where s2:
    "(if s1 \<noteq> [] \<and> hd s1 = CHR ''.'' then leading_fraction 0 0 False (tl s1) else (0, 0, s1))
       = (f, k, s2)"
    by (cases "if s1 \<noteq> [] \<and> hd s1 = CHR ''.'' then leading_fraction 0 0 False (tl s1) else (0, 0, s1)")
      auto
  have t: "t = dropWhile (\<lambda>c. \<not> num_char c) s2" "takeWhile (\<lambda>c. \<not> num_char c) s2 \<noteq> []"
    using assms unfolding parse_component_def s1 Let_def
    by (auto simp: s2 split: if_splits option.splits)
  have "length s2 \<le> length s1"
    using s2 leading_fraction_length [of 0 0 False "tl s1" f k s2] by (auto split: if_splits)
  with dropWhile_shorter [OF t(2)] leading_int_length [OF s1] show ?thesis
    unfolding t(1) by linarith
qed

function parse_loop :: "nat \<Rightarrow> string \<Rightarrow> nat option" where
  "parse_loop d s =
     (if s = [] then Some d
      else case parse_component s of
        None \<Rightarrow> None
      | Some (v, s') \<Rightarrow>
          (let d' = (d + v) mod 2 ^ 64
           in if 2 ^ 63 < d' then None else parse_loop d' s'))"
  by pat_completeness auto
termination
  by (relation "measure (\<lambda>(d, s). length s)") (auto dest: parse_component_length)

declare parse_loop.simps [simp del]

text \<open>\<open>time.ParseDuration\<close>: \<open>None\<close> is its error.\<close>

definition parse_duration :: "string \<Rightarrow> duration option" where
  "parse_duration s =
     (let neg = (s \<noteq> [] \<and> hd s = CHR ''-'');
          r = (if s \<noteq> [] \<and> (hd s = CHR ''-'' \<or> hd s = CHR ''+'') then tl s else s)
      in if r = ''0'' then Some 0
         else if r = [] then None
         else case parse_loop 0 r of
           None \<Rightarrow> None
         | Some d \<Rightarrow>
             if neg then Some (- of_nat d)
             else if 2 ^ 63 - 1 < d then None
             else Some (of_nat d))"

section \<open>Facts about parsed durations\<close>

lemma dec_val_ge: "x \<le> dec_val x ds"
proof (induction ds arbitrary: x)
  case (Cons c cs)
  have "x \<le> x * 10 + digit_val c" by simp
  also have "\<dots> \<le> dec_val (x * 10 + digit_val c) cs" by (rule Cons.IH)
  finally show ?case by simp
qed simp

lemma leading_int_digits:
  "list_all is_digit ds \<Longrightarrow> dec_val x ds \<le> 2 ^ 63 \<Longrightarrow> rest = [] \<or> \<not> is_digit (hd rest) \<Longrightarrow>
   leading_int x (ds @ rest) = Some (dec_val x ds, rest)"
proof (induction ds arbitrary: x)
  case Nil
  then show ?case by (cases rest) auto
next
  case (Cons c cs)
  have "x * 10 + digit_val c \<le> 2 ^ 63"
    using Cons.prems(2) dec_val_ge [of "x * 10 + digit_val c" cs] by simp
  moreover from this have "\<not> 2 ^ 63 div 10 < x" by simp
  ultimately show ?case using Cons by (simp add: Let_def)
qed

lemma leading_int_all_digits:
  "list_all is_digit ds \<Longrightarrow> leading_int x ds = None \<or> (\<exists>v. leading_int x ds = Some (v, []))"
  by (induction ds arbitrary: x) (auto simp: Let_def)

lemma nat_dec_head:
  obtains c cs where "nat_dec n = c # cs" and "is_digit c" and "list_all is_digit cs"
  using nat_dec_digits [of n] by (cases "nat_dec n") auto

text \<open>A plain number has no unit, so the parser refuses it.\<close>

lemma parse_duration_no_unit:
  assumes "n \<noteq> 0"
  shows "parse_duration (nat_dec n) = None"
proof -
  obtain c cs where c: "nat_dec n = c # cs" "is_digit c" "list_all is_digit cs"
    by (rule nat_dec_head)
  have "nat_dec n \<noteq> ''0''"
  proof
    assume "nat_dec n = ''0''"
    then have "dec_val 0 ''0'' = n"
      using dec_val_nat_dec [of n] by (simp del: dec_val_nat_dec)
    with assms show False by (simp add: digit_val_def)
  qed
  moreover have "parse_component (nat_dec n) = None"
    using leading_int_all_digits [OF nat_dec_digits [of n], of 0]
    by (auto simp: parse_component_def Let_def)
  then have "parse_loop 0 (nat_dec n) = None"
    by (subst parse_loop.simps) simp
  ultimately show ?thesis
    using is_digit_not_sign [OF c(2)] by (simp add: parse_duration_def Let_def c(1))
qed

text \<open>A whole number of seconds is read exactly, up to the largest duration there is.\<close>

lemma parse_component_seconds:
  assumes "n \<le> 9223372036"
  shows "parse_component (nat_dec n @ ''s'') = Some (n * 1000000000, [])"
proof -
  have hd: "num_char (hd (nat_dec n @ ''s''))"
    using hd_nat_dec_digit [of n] by (simp add: num_char_def)
  have li: "leading_int 0 (nat_dec n @ ''s'') = Some (n, ''s'')"
    using leading_int_digits [OF nat_dec_digits, of 0 n "''s''"] assms
    by (simp add: is_digit_def)
  have ns: "\<not> num_char (CHR ''s'')"
    by (simp add: num_char_def is_digit_def)
  from assms have "\<not> 2 ^ 63 div 1000000000 < n" by simp
  with hd li ns show ?thesis
    by (simp add: parse_component_def unit_map_def Let_def)
qed

lemma parse_duration_seconds:
  assumes "n \<le> 9223372036"
  shows "parse_duration (nat_dec n @ ''s'') = Some (of_nat (n * 1000000000))"
proof -
  obtain c cs where c: "nat_dec n = c # cs" "is_digit c" "list_all is_digit cs"
    by (rule nat_dec_head)
  have nil: "parse_loop d [] = Some d" for d
    by (subst parse_loop.simps) simp
  have "parse_loop 0 (nat_dec n @ ''s'') = Some (n * 1000000000)"
    using assms
    by (subst parse_loop.simps) (simp add: parse_component_seconds nil Let_def)
  with assms is_digit_not_sign [OF c(2)] show ?thesis
    by (simp add: parse_duration_def Let_def c(1))
qed

end
