(* ===== verification/Check_Interval.thy ===== *)
theory Check_Interval
  imports Go_Duration Go_Monad
begin

text \<open>
  \<open>getCheckInterval\<close> of \<open>internal/multicluster/krypton_operator.go\<close>: the interval after which a
  healthy deployment is reconciled again. It is read from the environment once (\<open>sync.Once\<close>) and
  cached in a package variable, the \<open>interval\<close> field of the state.
\<close>

section \<open>The model\<close>

definition default_interval :: duration where
  "default_interval = 60 * go_second"

text \<open>The function that \<open>checkIntervalOnce\<close> runs.\<close>

definition read_check_interval :: "env \<Rightarrow> duration" where
  "read_check_interval en =
     (let v = trim_space (getenv en ''KRYPTON_CHECK_INTERVAL'');
          seconds =
            (case atoi v of
               None \<Rightarrow> default_interval
             | Some s \<Rightarrow> if 0 < s then word_of_int s * go_second else default_interval)
      in if v = [] then default_interval
         else
           (case parse_duration v of
              None \<Rightarrow> seconds
            | Some d \<Rightarrow> if dur_pos d then d else seconds))"

definition get_check_interval :: "env \<Rightarrow> ('w, 'e, duration) go" where
  "get_check_interval en =
     State (\<lambda>s. case interval s of
       None \<Rightarrow> (read_check_interval en, s\<lparr>interval := Some (read_check_interval en)\<rparr>)
     | Some d \<Rightarrow> (d, s))"

section \<open>Values read\<close>

lemma default_interval_value: "sint default_interval = 60000000000"
  by (simp add: default_interval_def go_second_def)

lemma dur_pos_default [simp]: "dur_pos default_interval"
  by (simp add: dur_pos_def default_interval_value)

lemma read_check_interval_unset:
  "trim_space (getenv en ''KRYPTON_CHECK_INTERVAL'') = [] \<Longrightarrow>
   read_check_interval en = default_interval"
  by (simp add: read_check_interval_def Let_def)

text \<open>A value that is not positive can only come out of the branch that multiplies.\<close>

lemma read_check_interval_cases:
  obtains (positive) "dur_pos (read_check_interval en)"
  | (seconds) i where "atoi (trim_space (getenv en ''KRYPTON_CHECK_INTERVAL'')) = Some i"
      and "9223372036 < i" and "i < 2 ^ 63"
      and "read_check_interval en = word_of_int i * go_second"
proof (cases "dur_pos (read_check_interval en)")
  case True
  then show thesis by (rule positive)
next
  case False
  let ?v = "trim_space (getenv en ''KRYPTON_CHECK_INTERVAL'')"
  from False obtain i where i: "atoi ?v = Some i" "0 < i"
    "read_check_interval en = word_of_int i * go_second"
    by (auto simp: read_check_interval_def Let_def split: if_splits option.splits)
  moreover have "9223372036 < i"
    using False dur_pos_seconds(1) [of i] i by force
  ultimately show thesis
    using seconds atoi_range [OF i(1)] by blast
qed

lemma no_white_start_printable:
  assumes "33 \<le> (of_char c :: nat)" and "(of_char c :: nat) < 128"
  shows "no_white_start (c # cs)"
  using assms by (auto simp: no_white_start_def white_space_def)

lemma no_white_end_printable:
  assumes "33 \<le> (of_char c :: nat)" and "(of_char c :: nat) < 128"
  shows "no_white_end (cs @ [c])"
proof -
  have "\<not> suffix w (cs @ [c])" if "w \<in> set white_space" for w
  proof
    assume "suffix w (cs @ [c])"
    moreover have "w \<noteq> []" using that white_space_nonempty by auto
    ultimately have "last w = c" by (auto simp: suffix_def) (metis last_appendR last_snoc)
    moreover have
      "\<forall>w \<in> set white_space. \<not> (33 \<le> (of_char (last w) :: nat) \<and> (of_char (last w) :: nat) < 128)"
      by (simp add: white_space_def)
    ultimately show False using assms that by blast
  qed
  then show ?thesis by (simp add: no_white_end_def)
qed

lemma no_white_start_nat_dec: "no_white_start (nat_dec n @ t)"
proof -
  obtain c cs where "nat_dec n = c # cs" "is_digit c" by (rule nat_dec_head)
  then show ?thesis by (simp add: no_white_start_printable is_digit_def)
qed

lemma trim_space_nat_dec [simp]: "trim_space (nat_dec n) = nat_dec n"
proof (rule trim_space_id)
  show "no_white_start (nat_dec n)" using no_white_start_nat_dec [of n "[]"] by simp
  have "is_digit (last (nat_dec n))"
    using nat_dec_digits [of n] by (simp add: list_all_iff)
  then show "no_white_end (nat_dec n)"
    using no_white_end_printable [of "last (nat_dec n)" "butlast (nat_dec n)"]
    by (simp add: is_digit_def)
qed

lemma trim_space_nat_dec_s [simp]: "trim_space (nat_dec n @ ''s'') = nat_dec n @ ''s''"
  by (intro trim_space_id no_white_start_nat_dec no_white_end_printable) simp_all

lemma read_check_interval_plain:
  assumes "n \<noteq> 0" and "n < 2 ^ 63"
  shows "read_check_interval (en(''KRYPTON_CHECK_INTERVAL'' \<mapsto> nat_dec n)) =
    word_of_nat n * go_second"
  using assms
  by (simp add: read_check_interval_def Let_def parse_duration_no_unit atoi_nat_dec)

section \<open>The cache\<close>

lemma run_get_check_interval:
  "run_state (get_check_interval en) s =
     (case interval s of
        None \<Rightarrow> (read_check_interval en, s\<lparr>interval := Some (read_check_interval en)\<rparr>)
      | Some d \<Rightarrow> (d, s))"
  by (simp add: get_check_interval_def)

text \<open>What the cache holds, when it holds something, satisfies \<open>good\<close>.\<close>

definition interval_inv :: "(duration \<Rightarrow> bool) \<Rightarrow> duration option \<Rightarrow> bool" where
  "interval_inv good x = (case x of None \<Rightarrow> True | Some d \<Rightarrow> good d)"

lemma interval_inv_simps [simp]:
  "interval_inv good None"
  "interval_inv good (Some d) = good d"
  "interval_inv (\<lambda>_. True) x"
  by (simp_all add: interval_inv_def split: option.splits)

lemma emits_get_check_interval:
  assumes "good (read_check_interval en)" and "\<And>d. good d \<Longrightarrow> P d []"
  shows "emits (interval_inv good) (get_check_interval en) P"
  using assms
  by (auto simp: emits_def run_get_check_interval interval_inv_def split: option.splits)

lemma emits_bind_get_check_interval:
  assumes "good (read_check_interval en)" and "\<And>d. good d \<Longrightarrow> emits (interval_inv good) (g d) P"
  shows "emits (interval_inv good) (State_Monad.bind (get_check_interval en) g) P"
  by (rule emits_bind [OF emits_get_check_interval [where P = "\<lambda>d es. good d \<and> es = []"]])
    (use assms in auto)

section \<open>Properties\<close>

text \<open>
  C28. The interval read is positive, or the variable holds a plain number of more than
  9223372036 seconds and the interval is what is left of the product in 64 bits.
\<close>

theorem read_check_interval_positive_or_wrapped:
  "dur_pos (read_check_interval en) \<or>
   (\<exists>i. atoi (trim_space (getenv en ''KRYPTON_CHECK_INTERVAL'')) = Some i \<and> 9223372036 < i \<and>
      read_check_interval en = word_of_int i * go_second)"
  by (cases rule: read_check_interval_cases [of en]) blast+

text \<open>
  C29. A plain number is a number of seconds, multiplied in 64 bits: from 9223372037 on the product
  wraps around. The witness is such a number, and its interval is negative.
\<close>

theorem read_check_interval_plain_number:
  assumes "n \<noteq> 0" and "n < 2 ^ 63"
  shows "sint (read_check_interval (en(''KRYPTON_CHECK_INTERVAL'' \<mapsto> nat_dec n))) =
    signed_take_bit 63 (int n * 1000000000)"
proof -
  have "word_of_nat n * go_second = (word_of_int (int n * 1000000000) :: duration)"
    by (simp add: go_second_def)
  then show ?thesis
    using read_check_interval_plain [OF assms, of en] by (simp only: sint_sbintrunc') simp
qed

theorem read_check_interval_plain_number_witness:
  "sint (read_check_interval (Map.empty(''KRYPTON_CHECK_INTERVAL'' \<mapsto> nat_dec 9223372037))) =
    - 9223372036709551616"
proof -
  have wrapped: "signed_take_bit 63 (int 9223372037 * 1000000000) = - 9223372036709551616"
    by (simp only: signed_take_bit_eq_take_bit_shift take_bit_eq_mod) simp
  have "9223372037 < (2 :: nat) ^ 63" by simp
  from read_check_interval_plain_number [OF _ this, of Map.empty] show ?thesis
    unfolding wrapped by simp
qed

text \<open>C30. Below the wrap-around a plain number reads as the same duration with its unit written out.\<close>

theorem read_check_interval_unit_optional:
  assumes "0 < n" and "n \<le> 9223372036"
  shows "read_check_interval (en(''KRYPTON_CHECK_INTERVAL'' \<mapsto> nat_dec n)) =
      read_check_interval (en(''KRYPTON_CHECK_INTERVAL'' \<mapsto> nat_dec n @ ''s''))"
proof -
  have eq: "of_nat (n * 1000000000) = (word_of_nat n * go_second :: duration)"
    by (simp add: go_second_def)
  have "dur_pos (word_of_nat n * go_second)"
    using dur_pos_seconds(1) [of "int n"] assms by simp
  then have "read_check_interval (en(''KRYPTON_CHECK_INTERVAL'' \<mapsto> nat_dec n @ ''s'')) =
      word_of_nat n * go_second"
    by (simp add: read_check_interval_def Let_def parse_duration_seconds [OF assms(2)] eq
        del: of_nat_mult)
  with read_check_interval_plain [of n en] assms show ?thesis by simp
qed

theorem read_check_interval_unit_optional_witness:
  "read_check_interval (Map.empty(''KRYPTON_CHECK_INTERVAL'' \<mapsto> nat_dec 90)) =
   read_check_interval (Map.empty(''KRYPTON_CHECK_INTERVAL'' \<mapsto> nat_dec 90 @ ''s''))"
  by (rule read_check_interval_unit_optional) simp_all

text \<open>
  The interval is read once: a later call answers as the first one did, whatever the
  environment holds by then, and changes nothing.
\<close>

theorem get_check_interval_once:
  "run_state (get_check_interval en') (snd (run_state (get_check_interval en) s)) =
     (result_of (get_check_interval en) s, snd (run_state (get_check_interval en) s))"
  by (simp add: run_get_check_interval split: option.splits)

end
