(* ===== verification/Reconcile.thy ===== *)
theory Reconcile
  imports Check_Heal Workload_Health Check_Interval
begin

text \<open>
  The reconciler of \<open>internal/multicluster/krypton_operator.go\<close>: \<open>reconcileCED\<close> and the handlers it
  calls, with the deployment object threaded through as the Go code updates it in place. A call of
  the home client's \<open>Update\<close> or \<open>Status().Update\<close> also overwrites the object with what the server
  answered, so those operations hand the object back.
\<close>

section \<open>The model\<close>

text \<open>The reconciler's fixed arguments.\<close>

record op_config =
  oc_namespace :: string
  oc_chart_repo :: string
  oc_chart_name :: string
  oc_chart_version :: string

text \<open>\<open>reconcile.Result\<close> and the error returned beside it.\<close>

record reconcile_result =
  requeue_after :: duration

type_synonym outcome_pair = "reconcile_result \<times> goerr option"

definition requeue :: "duration \<Rightarrow> outcome_pair" where
  "requeue d = (\<lparr>requeue_after = d\<rparr>, None)"

definition finalizer_name :: string where
  "finalizer_name = ''mesh.openkcm.io/kryptondeployment-finalizer''"

definition set_ready_condition :: "'w ops \<Rightarrow> kdep \<Rightarrow> string \<Rightarrow> string \<Rightarrow> string \<Rightarrow> kdep" where
  "set_ready_condition ops d status reason message =
     d\<lparr>kd_status := (kd_status d)\<lparr>st_conditions :=
        set_status_condition ops (st_conditions (kd_status d))
          \<lparr>cond_type = ''Ready'', cond_status = status,
           cond_observed_generation = om_generation (kd_meta d),
           cond_last_transition_time = None,
           cond_reason = reason, cond_message = message\<rparr>\<rparr>\<rparr>"

text \<open>
  The block the handlers repeat: set phase, message and Ready condition on the object, write the
  status, ignore the error. \<open>status_object\<close> is the object handed to the client.
\<close>

definition status_object :: "'w ops \<Rightarrow> string \<Rightarrow> string \<Rightarrow> string \<Rightarrow> string \<Rightarrow> kdep \<Rightarrow> kdep" where
  "status_object ops phase msg status reason d =
     set_ready_condition ops (set_phase_message phase msg d) status reason msg"

definition status_update :: "'w ops \<Rightarrow> kdep \<Rightarrow> ('w, effect, goerr option \<times> kdep) go" where
  "status_update ops d = ext (home_status_update ops d) (\<lambda>r. HomeStatusUpdate d (fst r))"

definition write_status ::
  "'w ops \<Rightarrow> string \<Rightarrow> string \<Rightarrow> string \<Rightarrow> string \<Rightarrow> kdep \<Rightarrow> ('w, effect, kdep) go" where
  "write_status ops phase msg status reason d = do {
     (_, d') \<leftarrow> status_update ops (status_object ops phase msg status reason d);
     ret d'
   }"

definition update_object :: "'w ops \<Rightarrow> kdep \<Rightarrow> ('w, effect, goerr option \<times> kdep) go" where
  "update_object ops d = ext (home_update ops d) (\<lambda>r. HomeUpdate d (fst r))"

text \<open>\<open>rcedResolveTarget\<close>: the name of the target cluster, and the region.\<close>

definition resolve_target :: "string \<Rightarrow> kdep \<Rightarrow> string \<times> string" where
  "resolve_target namespace d =
     (let region = kd_region d;
          regionName = ri_name region;
          legacy =
            (if ri_kubeconfig_secret_name region \<noteq> []
             then (namespace @ ''/'' @ ri_kubeconfig_secret_name region, regionName)
             else (namespace @ ''/'' @ (regionName @ ''-kubeconfig''), regionName))
      in case ri_kubeconfig region of
           None \<Rightarrow> legacy
         | Some kc \<Rightarrow>
             (let name = sr_name (kr_secret kc); ns = sr_namespace (kr_secret kc)
              in if name \<noteq> [] \<and> ns \<noteq> [] then (ns @ ''/'' @ name, regionName)
                 else if name \<noteq> [] then (namespace @ ''/'' @ name, regionName)
                 else legacy))"

text \<open>\<open>rcedEnsureNamespace\<close>.\<close>

definition ensure_namespace ::
  "'w ops \<Rightarrow> cluster \<Rightarrow> string \<Rightarrow> kdep \<Rightarrow> ('w, effect, outcome_pair) go" where
  "ensure_namespace ops c nsName d = do {
     getErr \<leftarrow> ext (ns_get ops c nsName) (NsGet c nsName);
     (case getErr of
        None \<Rightarrow> ret (requeue 0)
      | Some e \<Rightarrow>
          if is_not_found (Some e) then do {
            createErr \<leftarrow> ext (ns_create ops c nsName) (NsCreate c nsName);
            (case createErr of
               Some e' \<Rightarrow> ret (requeue (30 * go_second))
             | None \<Rightarrow> do {
                 event d EventNormal ''EdgeNamespaceCreated''
                   (''Namespace '' @ nsName @ '' created on '' @ ri_name (kd_region d));
                 ret (requeue 0)
               })
          }
          else ret (requeue (30 * go_second)))
   }"

text \<open>\<open>rcedHandleDelete\<close>, in its two halves: the clean-up of the edge cluster and the finalizer.\<close>

definition cleanup_edge ::
  "'w ops \<Rightarrow> env \<Rightarrow> cluster \<Rightarrow> kdep \<Rightarrow> ('w, effect, unit) go" where
  "cleanup_edge ops en c d = do {
     let releaseName = ''ced-'' @ kd_name d;
     err \<leftarrow> uninstall_helm_chart ops en c (kd_name d) releaseName;
     (case err of
        Some e \<Rightarrow> event d EventWarning ''HelmUninstallFailed'' (err_text e)
      | None \<Rightarrow> event d EventNormal ''HelmUninstalled'' (''Uninstalled release '' @ releaseName));
     delErr \<leftarrow> ext (ns_delete ops c (kd_name d)) (NsDelete c (kd_name d));
     (case delErr of
        Some e \<Rightarrow> ret ()
      | None \<Rightarrow> event d EventNormal ''EdgeNamespaceDeleteRequested''
                  (''Requested deletion for namespace '' @ kd_name d))
   }"

fun remove_finalizer :: "string list \<Rightarrow> string list \<Rightarrow> string list" where
  "remove_finalizer [] newFinalizers = newFinalizers"
| "remove_finalizer (f # fs) newFinalizers =
     (if f \<noteq> finalizer_name then remove_finalizer fs (newFinalizers @ [f])
      else remove_finalizer fs newFinalizers)"

definition handle_delete ::
  "'w ops \<Rightarrow> env \<Rightarrow> op_config \<Rightarrow> kdep \<Rightarrow> ('w, effect, outcome_pair) go" where
  "handle_delete ops en cfg d = do {
     let (target, regionName) = resolve_target (oc_namespace cfg) d;
     event d EventNormal ''DeleteStarted'' (''Routing delete to region '' @ regionName);
     gc \<leftarrow> ext (mgr_get_cluster ops target) (GetCluster target);
     (case gc of
        Inl e \<Rightarrow> ret ()
      | Inr c \<Rightarrow> cleanup_edge ops en c d);
     (err, d') \<leftarrow> update_object ops (set_finalizers (remove_finalizer (kd_finalizers d) []) d);
     (case err of
        Some e \<Rightarrow> ret (requeue (5 * go_second))
      | None \<Rightarrow> do {
          event d' EventNormal ''FinalizerRemoved'' ''Finalizer removed, deletion complete'';
          ret (requeue 0)
        })
   }"

text \<open>\<open>rcedDeployAndStatus\<close>. \<open>finish_deploy\<close> is its part after the successful deployment.\<close>

definition finish_deploy ::
  "'w ops \<Rightarrow> env \<Rightarrow> cluster \<Rightarrow> op_config \<Rightarrow> kdep \<Rightarrow> ('w, effect, outcome_pair) go" where
  "finish_deploy ops en c cfg d = do {
     (healthy, notReady) \<leftarrow> namespace_workload_healthy ops c (kd_name d);
     (if \<not> healthy then do {
        let msg = ''Workloads not yet ready: '' @ str_join notReady '', '';
        event d EventNormal ''NotReady'' msg;
        d' \<leftarrow> write_status ops phase_pending msg ''False'' ''NotReady'' d;
        ret (requeue (15 * go_second))
      }
      else do {
        let region = ri_name (kd_region d);
        let d1 = set_phase_message phase_ready (''Successfully deployed to region '' @ region) d;
        let d2 = d1\<lparr>kd_status := (kd_status d1)\<lparr>st_last_applied_chart :=
                   oc_chart_repo cfg @ ''/'' @ oc_chart_name cfg @ '':'' @ oc_chart_version cfg\<rparr>\<rparr>;
        (err, d3) \<leftarrow> status_update ops (set_ready_condition ops d2 ''True'' ''Deployed''
                        (''Successfully deployed to region '' @ region));
        event d3 EventNormal ''Ready''
          (''Deployment ready in region '' @ ri_name (kd_region d3));
        checkInterval \<leftarrow> get_check_interval en;
        ret (requeue checkInterval)
      })
   }"

definition deploy_and_status ::
  "'w ops \<Rightarrow> env \<Rightarrow> cluster \<Rightarrow> op_config \<Rightarrow> kdep \<Rightarrow> ('w, effect, outcome_pair) go" where
  "deploy_and_status ops en c cfg d = do {
     let nsName = kd_name d;
     let releaseName = ''ced-'' @ kd_name d;
     (repaired, missingList, healErr) \<leftarrow>
       check_and_heal ops en c nsName releaseName
         (oc_chart_repo cfg) (oc_chart_name cfg) (oc_chart_version cfg) d;
     (case healErr of
        Some e \<Rightarrow> do {
          d' \<leftarrow> write_status ops phase_error (''Health check failed: '' @ err_text e)
                  ''False'' ''HealthCheckFailed'' d;
          ret (requeue (30 * go_second))
        }
      | None \<Rightarrow>
          if repaired then do {
            let msg = ''Detected missing resources, triggered repair: '' @
                      str_join missingList '', '';
            event d EventWarning ''RepairTriggered'' msg;
            d' \<leftarrow> write_status ops phase_pending msg ''False'' ''RepairTriggered'' d;
            ret (requeue (20 * go_second))
          }
          else do {
            err \<leftarrow> deploy_helm_chart ops en c nsName releaseName
                     (oc_chart_repo cfg) (oc_chart_name cfg) (oc_chart_version cfg);
            (case err of
               Some e \<Rightarrow> do {
                 d' \<leftarrow> write_status ops phase_error (''Helm deployment failed: '' @ err_text e)
                         ''False'' ''HelmFailed'' d;
                 event d' EventWarning ''HelmDeployFailed'' (st_last_message (kd_status d'));
                 ret (requeue (60 * go_second))
               }
             | None \<Rightarrow> do {
                 event d EventNormal ''HelmDeployed''
                   (''Release '' @ releaseName @ '' deployed to '' @ nsName);
                 finish_deploy ops en c cfg d
               })
          })
   }"

text \<open>
  The finalizer block of \<open>reconcileCED\<close>: the object to go on with, or \<open>None\<close> when the write
  failed.
\<close>

definition ensure_finalizer :: "'w ops \<Rightarrow> kdep \<Rightarrow> ('w, effect, kdep option) go" where
  "ensure_finalizer ops d =
     (if finalizer_name \<in> set (kd_finalizers d) then ret (Some d)
      else do {
        (err, d') \<leftarrow> update_object ops (set_finalizers (kd_finalizers d @ [finalizer_name]) d);
        (case err of
           Some e \<Rightarrow> ret None
         | None \<Rightarrow> do {
             event d' EventNormal ''FinalizerAdded'' ''Finalizer added for cleanup on delete'';
             ret (Some d')
           })
      })"

text \<open>The part of \<open>reconcileCED\<close> from the routing on.\<close>

definition route_and_deploy ::
  "'w ops \<Rightarrow> env \<Rightarrow> op_config \<Rightarrow> kdep \<Rightarrow> ('w, effect, outcome_pair) go" where
  "route_and_deploy ops en cfg d = do {
     let (target, regionName) = resolve_target (oc_namespace cfg) d;
     event d EventNormal ''Routing'' (''Routing to region '' @ regionName);
     gc \<leftarrow> ext (mgr_get_cluster ops target) (GetCluster target);
     (case gc of
        Inl e \<Rightarrow> do {
          d' \<leftarrow> write_status ops phase_error
                  (''Edge cluster '' @ regionName @ '' not available'')
                  ''False'' ''EdgeUnavailable'' d;
          event d' EventWarning ''EdgeUnavailable'' (st_last_message (kd_status d'));
          ret (requeue (30 * go_second))
        }
      | Inr c \<Rightarrow> do {
          res \<leftarrow> ensure_namespace ops c (kd_name d) d;
          (if snd res \<noteq> None \<or> dur_pos (requeue_after (fst res)) then ret res
           else deploy_and_status ops en c cfg d)
        })
   }"

definition reconcile_ced ::
  "'w ops \<Rightarrow> env \<Rightarrow> op_config \<Rightarrow> nsname \<Rightarrow> ('w, effect, outcome_pair) go" where
  "reconcile_ced ops en cfg req = do {
     got \<leftarrow> ext (home_get ops req) (HomeGet req);
     (case got of
        Inl e \<Rightarrow>
          if is_not_found (Some e) then ret (requeue 0) else ret (requeue (10 * go_second))
      | Inr d \<Rightarrow>
          if ai_name (kd_account d) = [] then do {
            d' \<leftarrow> write_status ops phase_error ''Spec.account.name must be set''
                    ''False'' ''AccountMissing'' d;
            event d' EventWarning ''AccountMissing'' (st_last_message (kd_status d'));
            ret (requeue (30 * go_second))
          }
          else do {
            event d EventNormal ''AccountValidated''
              (''Account '' @ ai_name (kd_account d) @ '' validated'');
            (if om_deletion_timestamp (kd_meta d) \<noteq> None then handle_delete ops en cfg d
             else do {
               r \<leftarrow> ensure_finalizer ops d;
               (case r of
                  None \<Rightarrow> ret (requeue (5 * go_second))
                | Some d' \<Rightarrow> route_and_deploy ops en cfg d')
             })
          })
   }"

text \<open>The handler that \<open>registerHomeController\<close> completes the controller with.\<close>

definition home_handler ::
  "'w ops \<Rightarrow> env \<Rightarrow> op_config \<Rightarrow> nsname \<Rightarrow> ('w, effect, outcome_pair) go" where
  "home_handler ops en cfg req = reconcile_ced ops en cfg req"

end
