(* ===== verification/Reconcile_Runs.thy ===== *)
theory Reconcile_Runs
  imports Reconcile
begin

text \<open>
  The runs of the reconciler as relations: one rule per way a handler can go, with the calls it
  makes and the result it returns, for every behaviour of the environment. \<open>emits_reconcile_ced\<close> says
  that every run of the program is a run of the relation; the properties of the reconciler are then
  proved by case analysis on it. \<open>good\<close> is what the cached check interval is known to satisfy.
\<close>

section \<open>The relations\<close>

inductive ns_run :: "cluster \<Rightarrow> string \<Rightarrow> kdep \<Rightarrow> effect list \<Rightarrow> outcome_pair \<Rightarrow> bool"
  for c ns d where
  ns_present: "ns_run c ns d [NsGet c ns None] (requeue 0)"
| ns_created: "err_reason e = NotFound \<Longrightarrow>
     ns_run c ns d [NsGet c ns (Some e), NsCreate c ns None,
       Event d EventNormal ''EdgeNamespaceCreated'' msg] (requeue 0)"
| ns_create_failed: "err_reason e = NotFound \<Longrightarrow>
     ns_run c ns d [NsGet c ns (Some e), NsCreate c ns (Some e')] (requeue (30 * go_second))"
| ns_check_failed: "err_reason e \<noteq> NotFound \<Longrightarrow>
     ns_run c ns d [NsGet c ns (Some e)] (requeue (30 * go_second))"

definition ready_object :: "'w ops \<Rightarrow> op_config \<Rightarrow> kdep \<Rightarrow> kdep" where
  "ready_object ops cfg d =
     (let msg = ''Successfully deployed to region '' @ ri_name (kd_region d);
          d1 = set_phase_message phase_ready msg d;
          d2 = d1\<lparr>kd_status := (kd_status d1)\<lparr>st_last_applied_chart :=
                 oc_chart_repo cfg @ ''/'' @ oc_chart_name cfg @ '':'' @ oc_chart_version cfg\<rparr>\<rparr>
      in set_ready_condition ops d2 ''True'' ''Deployed'' msg)"

abbreviation release_name :: "kdep \<Rightarrow> string" where
  "release_name d \<equiv> ''ced-'' @ kd_name d"

abbreviation kd_helm :: "'w ops \<Rightarrow> env \<Rightarrow> cluster \<Rightarrow> kdep \<Rightarrow> action_config" where
  "kd_helm ops en c d \<equiv> helm_config ops en c (kd_name d)"

abbreviation cfg_url :: "op_config \<Rightarrow> string" where
  "cfg_url cfg \<equiv> chart_url (oc_chart_repo cfg) (oc_chart_name cfg) (oc_chart_version cfg)"

inductive deploy_run ::
  "(duration \<Rightarrow> bool) \<Rightarrow> 'w ops \<Rightarrow> env \<Rightarrow> cluster \<Rightarrow> op_config \<Rightarrow> kdep \<Rightarrow> effect list \<Rightarrow> outcome_pair \<Rightarrow> bool"
  for good ops en c cfg d where
  heal_failed:
    "heal_post (kd_helm ops en c d) (kd_name d) (release_name d) (repaired, missing, Some e) hs \<Longrightarrow>
     deploy_run good ops en c cfg d
       (hs @ [HomeStatusUpdate (status_object ops phase_error
          (''Health check failed: '' @ err_text e) ''False'' ''HealthCheckFailed'' d) u])
       (requeue (30 * go_second))"
| repaired:
    "heal_post (kd_helm ops en c d) (kd_name d) (release_name d) (repaired, missing, None) hs \<Longrightarrow>
     repaired \<Longrightarrow>
     msg = ''Detected missing resources, triggered repair: '' @ str_join missing '', '' \<Longrightarrow>
     deploy_run good ops en c cfg d
       (hs @ [Event d EventWarning ''RepairTriggered'' msg,
          HomeStatusUpdate (status_object ops phase_pending msg ''False'' ''RepairTriggered'' d) u])
       (requeue (20 * go_second))"
| deploy_failed:
    "heal_post (kd_helm ops en c d) (kd_name d) (release_name d) (repaired, missing, None) hs \<Longrightarrow>
     \<not> repaired \<Longrightarrow>
     deploy_post (kd_helm ops en c d) (kd_name d) (release_name d) (cfg_url cfg) (Some e) ds \<Longrightarrow>
     deploy_run good ops en c cfg d
       (hs @ ds @ [HomeStatusUpdate (status_object ops phase_error
          (''Helm deployment failed: '' @ err_text e) ''False'' ''HelmFailed'' d) u,
          Event d' EventWarning ''HelmDeployFailed'' (st_last_message (kd_status d'))])
       (requeue (60 * go_second))"
| not_ready:
    "heal_post (kd_helm ops en c d) (kd_name d) (release_name d) (repaired, missing, None) hs \<Longrightarrow>
     \<not> repaired \<Longrightarrow>
     deploy_post (kd_helm ops en c d) (kd_name d) (release_name d) (cfg_url cfg) None ds \<Longrightarrow>
     health_post c (kd_name d) (healthy, notReady) ls \<Longrightarrow> \<not> healthy \<Longrightarrow>
     msg = ''Workloads not yet ready: '' @ str_join notReady '', '' \<Longrightarrow>
     deploy_run good ops en c cfg d
       (hs @ ds @ Event d EventNormal ''HelmDeployed'' msg' # ls @
        [Event d EventNormal ''NotReady'' msg,
         HomeStatusUpdate (status_object ops phase_pending msg ''False'' ''NotReady'' d) u])
       (requeue (15 * go_second))"
| ready:
    "heal_post (kd_helm ops en c d) (kd_name d) (release_name d) (repaired, missing, None) hs \<Longrightarrow>
     \<not> repaired \<Longrightarrow>
     deploy_post (kd_helm ops en c d) (kd_name d) (release_name d) (cfg_url cfg) None ds \<Longrightarrow>
     health_post c (kd_name d) (healthy, notReady) ls \<Longrightarrow> healthy \<Longrightarrow> good iv \<Longrightarrow>
     deploy_run good ops en c cfg d
       (hs @ ds @ Event d EventNormal ''HelmDeployed'' msg' # ls @
        [HomeStatusUpdate (ready_object ops cfg d) u, Event d' EventNormal ''Ready'' msg])
       (requeue iv)"

inductive cleanup_run :: "'w ops \<Rightarrow> env \<Rightarrow> cluster \<Rightarrow> kdep \<Rightarrow> effect list \<Rightarrow> bool"
  for ops en c d where
  cleaned:
    "uninstall_post (kd_helm ops en c d) (release_name d) r us \<Longrightarrow>
     ev = (case r of
       Some e \<Rightarrow> Event d EventWarning ''HelmUninstallFailed'' (err_text e)
     | None \<Rightarrow> Event d EventNormal ''HelmUninstalled'' (''Uninstalled release '' @ release_name d)) \<Longrightarrow>
     cleanup_run ops en c d (us @ [ev, NsDelete c (kd_name d) None,
       Event d EventNormal ''EdgeNamespaceDeleteRequested'' msg])"
| ns_delete_failed:
    "uninstall_post (kd_helm ops en c d) (release_name d) r us \<Longrightarrow>
     ev = (case r of
       Some e \<Rightarrow> Event d EventWarning ''HelmUninstallFailed'' (err_text e)
     | None \<Rightarrow> Event d EventNormal ''HelmUninstalled'' (''Uninstalled release '' @ release_name d)) \<Longrightarrow>
     cleanup_run ops en c d (us @ [ev, NsDelete c (kd_name d) (Some e')])"

definition without_finalizer :: "kdep \<Rightarrow> kdep" where
  "without_finalizer d = set_finalizers (filter (\<lambda>f. f \<noteq> finalizer_name) (kd_finalizers d)) d"

definition with_finalizer :: "kdep \<Rightarrow> kdep" where
  "with_finalizer d = set_finalizers (kd_finalizers d @ [finalizer_name]) d"

inductive delete_run ::
  "'w ops \<Rightarrow> env \<Rightarrow> op_config \<Rightarrow> kdep \<Rightarrow> effect list \<Rightarrow> outcome_pair \<Rightarrow> bool"
  for ops en cfg d where
  deleted:
    "(case gc of Inl _ \<Rightarrow> cs = [] | Inr c \<Rightarrow> cleanup_run ops en c d cs) \<Longrightarrow>
     resolve_target (oc_namespace cfg) d = (target, region) \<Longrightarrow>
     delete_run ops en cfg d
       (Event d EventNormal ''DeleteStarted'' msg # GetCluster target gc # cs @
        [HomeUpdate (without_finalizer d) None, Event d' EventNormal ''FinalizerRemoved'' msg'])
       (requeue 0)"
| finalizer_stays:
    "(case gc of Inl _ \<Rightarrow> cs = [] | Inr c \<Rightarrow> cleanup_run ops en c d cs) \<Longrightarrow>
     resolve_target (oc_namespace cfg) d = (target, region) \<Longrightarrow>
     delete_run ops en cfg d
       (Event d EventNormal ''DeleteStarted'' msg # GetCluster target gc # cs @
        [HomeUpdate (without_finalizer d) (Some e)])
       (requeue (5 * go_second))"

inductive route_run ::
  "(duration \<Rightarrow> bool) \<Rightarrow> 'w ops \<Rightarrow> env \<Rightarrow> op_config \<Rightarrow> kdep \<Rightarrow> effect list \<Rightarrow> outcome_pair \<Rightarrow> bool"
  for good ops en cfg d where
  edge_unavailable:
    "resolve_target (oc_namespace cfg) d = (target, region) \<Longrightarrow>
     route_run good ops en cfg d
       [Event d EventNormal ''Routing'' msg, GetCluster target (Inl e),
        HomeStatusUpdate (status_object ops phase_error
          (''Edge cluster '' @ region @ '' not available'') ''False'' ''EdgeUnavailable'' d) u,
        Event d' EventWarning ''EdgeUnavailable'' msg']
       (requeue (30 * go_second))"
| namespace_stops:
    "resolve_target (oc_namespace cfg) d = (target, region) \<Longrightarrow>
     ns_run c (kd_name d) d ns res \<Longrightarrow>
     snd res \<noteq> None \<or> dur_pos (requeue_after (fst res)) \<Longrightarrow>
     route_run good ops en cfg d
       (Event d EventNormal ''Routing'' msg # GetCluster target (Inr c) # ns) res"
| deploys:
    "resolve_target (oc_namespace cfg) d = (target, region) \<Longrightarrow>
     ns_run c (kd_name d) d ns nres \<Longrightarrow>
     \<not> (snd nres \<noteq> None \<or> dur_pos (requeue_after (fst nres))) \<Longrightarrow>
     deploy_run good ops en c cfg d ds res \<Longrightarrow>
     route_run good ops en cfg d
       (Event d EventNormal ''Routing'' msg # GetCluster target (Inr c) # ns @ ds) res"

inductive reconcile_run ::
  "(duration \<Rightarrow> bool) \<Rightarrow> 'w ops \<Rightarrow> env \<Rightarrow> op_config \<Rightarrow> nsname \<Rightarrow> effect list \<Rightarrow> outcome_pair \<Rightarrow> bool"
  for good ops en cfg req where
  gone: "err_reason e = NotFound \<Longrightarrow>
     reconcile_run good ops en cfg req [HomeGet req (Inl e)] (requeue 0)"
| fetch_failed: "err_reason e \<noteq> NotFound \<Longrightarrow>
     reconcile_run good ops en cfg req [HomeGet req (Inl e)] (requeue (10 * go_second))"
| account_missing: "ai_name (kd_account d) = [] \<Longrightarrow>
     reconcile_run good ops en cfg req
       [HomeGet req (Inr d),
        HomeStatusUpdate (status_object ops phase_error ''Spec.account.name must be set''
          ''False'' ''AccountMissing'' d) u,
        Event d' EventWarning ''AccountMissing'' msg]
       (requeue (30 * go_second))"
| deleting: "ai_name (kd_account d) \<noteq> [] \<Longrightarrow> om_deletion_timestamp (kd_meta d) \<noteq> None \<Longrightarrow>
     delete_run ops en cfg d ds res \<Longrightarrow>
     reconcile_run good ops en cfg req
       (HomeGet req (Inr d) # Event d EventNormal ''AccountValidated'' msg # ds) res"
| finalizer_failed: "ai_name (kd_account d) \<noteq> [] \<Longrightarrow> om_deletion_timestamp (kd_meta d) = None \<Longrightarrow>
     finalizer_name \<notin> set (kd_finalizers d) \<Longrightarrow>
     reconcile_run good ops en cfg req
       [HomeGet req (Inr d), Event d EventNormal ''AccountValidated'' msg,
        HomeUpdate (with_finalizer d) (Some e)]
       (requeue (5 * go_second))"
| finalizer_added: "ai_name (kd_account d) \<noteq> [] \<Longrightarrow> om_deletion_timestamp (kd_meta d) = None \<Longrightarrow>
     finalizer_name \<notin> set (kd_finalizers d) \<Longrightarrow>
     route_run good ops en cfg d' rs res \<Longrightarrow>
     reconcile_run good ops en cfg req
       (HomeGet req (Inr d) # Event d EventNormal ''AccountValidated'' msg #
        HomeUpdate (with_finalizer d) None # Event d' EventNormal ''FinalizerAdded'' msg' # rs) res"
| finalizer_present: "ai_name (kd_account d) \<noteq> [] \<Longrightarrow> om_deletion_timestamp (kd_meta d) = None \<Longrightarrow>
     finalizer_name \<in> set (kd_finalizers d) \<Longrightarrow>
     route_run good ops en cfg d rs res \<Longrightarrow>
     reconcile_run good ops en cfg req
       (HomeGet req (Inr d) # Event d EventNormal ''AccountValidated'' msg # rs) res"

section \<open>The status objects\<close>

lemma status_object_phase [simp]:
  "st_phase (kd_status (status_object ops phase msg status reason d)) = phase"
  by (simp add: status_object_def set_ready_condition_def)

lemma ready_object_simps [simp]:
  "st_phase (kd_status (ready_object ops cfg d)) = phase_ready"
  "kd_meta (ready_object ops cfg d) = kd_meta d"
  "kd_spec (ready_object ops cfg d) = kd_spec d"
  by (simp_all add: ready_object_def set_ready_condition_def Let_def)

lemma phases_distinct [simp]:
  "phase_error \<noteq> phase_ready" "phase_pending \<noteq> phase_ready" "phase_pending \<noteq> phase_error"
  by (simp_all add: phase_error_def phase_ready_def phase_pending_def)

section \<open>Every run of the program is a run of the relations\<close>

lemma remove_finalizer_eq:
  "remove_finalizer fs acc = acc @ filter (\<lambda>f. f \<noteq> finalizer_name) fs"
  by (induction fs arbitrary: acc) auto

lemma requeue_simps [simp]:
  "requeue_after (fst (requeue d)) = d"
  "snd (requeue d) = None"
  "dur_pos 0 = False"
  by (simp_all add: requeue_def dur_pos_def)

lemma delays_positive [simp]:
  "dur_pos (5 * go_second)" "dur_pos (10 * go_second)" "dur_pos (15 * go_second)"
  "dur_pos (20 * go_second)" "dur_pos (30 * go_second)" "dur_pos (60 * go_second)"
  by (simp_all add: dur_pos_def go_second_def)

lemma emits_bind_status_update [wp_rules]:
  "(\<And>r. emits I (g r) (\<lambda>b es. P b (HomeStatusUpdate d (fst r) # es))) \<Longrightarrow>
   emits I (State_Monad.bind (status_update ops d) g) P"
  unfolding status_update_def by (rule emits_bind_ext)

lemma emits_bind_update_object [wp_rules]:
  "(\<And>r. emits I (g r) (\<lambda>b es. P b (HomeUpdate d (fst r) # es))) \<Longrightarrow>
   emits I (State_Monad.bind (update_object ops d) g) P"
  unfolding update_object_def by (rule emits_bind_ext)

lemma emits_bind_write_status [wp_rules]:
  "(\<And>u d'. emits I (g d')
      (\<lambda>b es. P b (HomeStatusUpdate (status_object ops ph msg st reason d) u # es))) \<Longrightarrow>
   emits I (State_Monad.bind (write_status ops ph msg st reason d) g) P"
  unfolding write_status_def State_Monad.bind_assoc State_Monad.bind_left_identity
  by (intro wp_rules) (auto split: prod.splits)

lemma emits_ensure_namespace: "emits I (ensure_namespace ops c ns d) (\<lambda>r es. ns_run c ns d es r)"
  unfolding ensure_namespace_def
  by (intro wp_rules; hypsubst?) (auto intro: ns_run.intros)

lemma emits_cleanup_edge: "emits I (cleanup_edge ops en c d) (\<lambda>_ es. cleanup_run ops en c d es)"
  unfolding cleanup_edge_def Let_def
proof (rule emits_bind [OF emits_uninstall_helm_chart])
  fix r :: "goerr option" and es
  let ?ev = "case r of
      Some e \<Rightarrow> Event d EventWarning ''HelmUninstallFailed'' (err_text e)
    | None \<Rightarrow> Event d EventNormal ''HelmUninstalled'' (''Uninstalled release '' @ release_name d)"
  assume post: "uninstall_post (kd_helm ops en c d) (release_name d) r es"
  note runs = cleaned [OF post refl] ns_delete_failed [OF post refl]
  show "emits I
     (do {
       (case r of
          Some e \<Rightarrow> event d EventWarning ''HelmUninstallFailed'' (err_text e)
        | None \<Rightarrow> event d EventNormal ''HelmUninstalled'' (''Uninstalled release '' @ release_name d));
       delErr \<leftarrow> ext (ns_delete ops c (kd_name d)) (NsDelete c (kd_name d));
       (case delErr of
          Some e \<Rightarrow> ret ()
        | None \<Rightarrow> event d EventNormal ''EdgeNamespaceDeleteRequested''
                    (''Requested deletion for namespace '' @ kd_name d))
     })
     (\<lambda>_ es'. cleanup_run ops en c d (es @ es'))"
    using runs by (cases r) (auto intro!: wp_rules simp del: append_Cons append.simps)
qed

lemmas delete_runs =
  deleted [where gc = "Inl e" and cs = "[]" for e, unfolded sum.case append.simps, OF refl]
  deleted [where gc = "Inr c" for c, unfolded sum.case]
  finalizer_stays [where gc = "Inl e" and cs = "[]" for e, unfolded sum.case append.simps, OF refl]
  finalizer_stays [where gc = "Inr c" for c, unfolded sum.case]

lemma emits_handle_delete:
  "emits I (handle_delete ops en cfg d) (\<lambda>r es. delete_run ops en cfg d es r)"
proof -
  have fin: "set_finalizers (remove_finalizer (kd_finalizers d) []) d = without_finalizer d"
    by (simp add: remove_finalizer_eq without_finalizer_def)
  show ?thesis
    unfolding handle_delete_def Let_def fin
    by (intro wp_rules emits_bind [OF emits_cleanup_edge]; hypsubst?;
        (simp (no_asm) only: fst_conv)?; (rule delete_runs; assumption)?)
qed

lemma emits_finish_deploy:
  assumes "good (read_check_interval en)"
    and heal: "heal_post (kd_helm ops en c d) (kd_name d) (release_name d) (repaired, missing, None) hs"
      "\<not> repaired"
    and deploy: "deploy_post (kd_helm ops en c d) (kd_name d) (release_name d) (cfg_url cfg) None ds"
  shows "emits (interval_inv good) (finish_deploy ops en c cfg d)
     (\<lambda>r es. deploy_run good ops en c cfg d
        (hs @ ds @ Event d EventNormal ''HelmDeployed'' msg # es) r)"
  unfolding finish_deploy_def Let_def ready_object_def [unfolded Let_def, symmetric]
  by (intro wp_rules emits_bind [OF emits_namespace_workload_healthy] emits_bind_get_check_interval
      assms(1); hypsubst?; (simp (no_asm) only: fst_conv)?; (drule notnotD)?;
      (rule not_ready [OF heal deploy _ _ refl] ready [OF heal deploy]; assumption)?)

lemma emits_deploy_and_status:
  assumes "good (read_check_interval en)"
  shows "emits (interval_inv good) (deploy_and_status ops en c cfg d)
     (\<lambda>r es. deploy_run good ops en c cfg d es r)"
  unfolding deploy_and_status_def Let_def
  by (intro wp_rules emits_bind [OF emits_check_and_heal] emits_bind [OF emits_deploy_helm_chart];
      hypsubst?;
      (rule heal_failed repaired [OF _ _ refl] deploy_failed emits_finish_deploy [where good = good and en = en, OF assms];
       assumption)?)

lemma emits_route_and_deploy:
  assumes "good (read_check_interval en)"
  shows "emits (interval_inv good) (route_and_deploy ops en cfg d)
     (\<lambda>r es. route_run good ops en cfg d es r)"
  unfolding route_and_deploy_def Let_def
  by (intro wp_rules emits_bind [OF emits_ensure_namespace]
      emits_conseq [OF emits_deploy_and_status [where good = good and en = en, OF assms]]; hypsubst?;
      (simp (no_asm) only: append_Nil2)?;
      (rule edge_unavailable namespace_stops deploys; assumption)?)

lemma emits_ensure_finalizer:
  "emits I (ensure_finalizer ops d) (\<lambda>r es.
     if finalizer_name \<in> set (kd_finalizers d) then r = Some d \<and> es = []
     else case r of
         None \<Rightarrow> (\<exists>e. es = [HomeUpdate (with_finalizer d) (Some e)])
       | Some d' \<Rightarrow> (\<exists>msg. es = [HomeUpdate (with_finalizer d) None,
           Event d' EventNormal ''FinalizerAdded'' msg]))"
  unfolding ensure_finalizer_def with_finalizer_def [symmetric]
  by (intro wp_rules; hypsubst?) auto

theorem emits_reconcile_ced:
  assumes "good (read_check_interval en)"
  shows "emits (interval_inv good) (reconcile_ced ops en cfg req)
     (\<lambda>r es. reconcile_run good ops en cfg req es r)"
  unfolding reconcile_ced_def
  by (intro wp_rules emits_conseq [OF emits_handle_delete]
      emits_bind [OF emits_ensure_finalizer]
      emits_conseq [OF emits_route_and_deploy [where good = good and en = en, OF assms]];
      hypsubst?)
    (auto split: if_splits intro: reconcile_run.intros)

lemma reconcile_runs:
  "reconcile_run (\<lambda>_. True) ops en cfg req
     (calls (reconcile_ced ops en cfg req) s) (result_of (reconcile_ced ops en cfg req) s)"
  by (rule emitsD(1) [OF emits_reconcile_ced]) simp_all

lemma reconcile_runs_good:
  assumes "good (read_check_interval en)" and "interval_inv good (interval s)"
  shows "reconcile_run good ops en cfg req
     (calls (reconcile_ced ops en cfg req) s) (result_of (reconcile_ced ops en cfg req) s)"
  by (rule emitsD(1) [OF emits_reconcile_ced]) (use assms in simp_all)

end
