(* ===== verification/Example_World.thy ===== *)
theory Example_World
  imports Reconcile
begin

text \<open>
  A small concrete environment: the answers to the calls are fixed, the world has no state. The
  witnesses of the reconciler's properties run the program in it.
\<close>

definition sample_object :: "int option \<Rightarrow> string list \<Rightarrow> string \<Rightarrow> kdep" where
  "sample_object deleted fins account =
     \<lparr>kd_type = \<lparr>tm_kind = ''KryptonDeployment'', tm_api_version = ''mesh.openkcm.io/v1alpha1''\<rparr>,
      kd_meta = \<lparr>om_name = ''crypto'', om_namespace = ''team'', om_generation = 1,
        om_finalizers = fins, om_deletion_timestamp = deleted\<rparr>,
      kd_spec = \<lparr>ks_account = \<lparr>ai_name = account, ai_display_name = [], ai_owner = []\<rparr>,
        ks_region = \<lparr>ri_name = ''eu'', ri_kubeconfig = None, ri_kubeconfig_secret_name = []\<rparr>\<rparr>,
      kd_status = \<lparr>st_phase = [], st_last_message = [], st_conditions = [],
        st_last_applied_chart = []\<rparr>\<rparr>"

definition sample_ops :: "goerr + kdep \<Rightarrow> goerr + cluster \<Rightarrow> goerr option \<Rightarrow> unit ops" where
  "sample_ops obj edge history =
     \<lparr>home_get = \<lambda>_ w. (obj, w),
      home_update = \<lambda>d w. ((None, d), w),
      home_status_update = \<lambda>d w. ((None, d), w),
      mgr_get_cluster = \<lambda>_ w. (edge, w),
      ns_get = \<lambda>_ _ w. (None, w),
      ns_create = \<lambda>_ _ w. (None, w),
      ns_delete = \<lambda>_ _ w. (None, w),
      obj_get = \<lambda>_ _ _ w. (None, w),
      list_workloads = \<lambda>_ _ w. (Inr [], w),
      helm_init = \<lambda>_ w. (None, w),
      helm_history = \<lambda>_ _ _ w. (history, w),
      helm_get = \<lambda>_ _ w. (Inr (Some \<lparr>rel_info = Some ''deployed'', rel_manifest = []\<rparr>), w),
      helm_install = \<lambda>_ _ _ _ _ w. (None, w),
      helm_upgrade = \<lambda>_ _ _ _ _ w. (None, w),
      helm_uninstall = \<lambda>_ _ _ w. (None, w),
      http_new_request = \<lambda>_ w. (None, w),
      http_do = \<lambda>_ _ w. (Inr \<lparr>hr_status = 200, hr_body = 0\<rparr>, w),
      fs_create = \<lambda>_ w. (None, w),
      fs_write = \<lambda>_ _ w. (None, w),
      chart_load = \<lambda>_ w. (Inr 0, w),
      cluster_config = \<lambda>_. \<lparr>rc_host = ''https://edge'', rc_handle = 0\<rparr>,
      copy_config = \<lambda>c. c,
      yaml_decode = \<lambda>_. Inl (new_err ''no yaml''),
      set_status_condition = \<lambda>cs c. c # cs,
      nn_string = \<lambda>k. nn_namespace k @ ''/'' @ nn_name k\<rparr>"

definition sample_config :: op_config where
  "sample_config = \<lparr>oc_namespace = ''krypton'', oc_chart_repo = ''https://charts'',
     oc_chart_name = ''edge'', oc_chart_version = ''1.0''\<rparr>"

definition sample_request :: nsname where
  "sample_request = \<lparr>nn_namespace = ''team'', nn_name = ''crypto''\<rparr>"

definition fresh_sys :: "(unit, effect) sys" where
  "fresh_sys = \<lparr>world = (), trace = [], interval = None\<rparr>"

lemma sample_ops_simps [simp]:
  "home_get (sample_ops obj edge history) = (\<lambda>_ w. (obj, w))"
  "home_update (sample_ops obj edge history) = (\<lambda>d w. ((None, d), w))"
  "home_status_update (sample_ops obj edge history) = (\<lambda>d w. ((None, d), w))"
  "mgr_get_cluster (sample_ops obj edge history) = (\<lambda>_ w. (edge, w))"
  "ns_get (sample_ops obj edge history) = (\<lambda>_ _ w. (None, w))"
  "ns_create (sample_ops obj edge history) = (\<lambda>_ _ w. (None, w))"
  "ns_delete (sample_ops obj edge history) = (\<lambda>_ _ w. (None, w))"
  "obj_get (sample_ops obj edge history) = (\<lambda>_ _ _ w. (None, w))"
  "list_workloads (sample_ops obj edge history) = (\<lambda>_ _ w. (Inr [], w))"
  "helm_init (sample_ops obj edge history) = (\<lambda>_ w. (None, w))"
  "helm_history (sample_ops obj edge history) = (\<lambda>_ _ _ w. (history, w))"
  "helm_get (sample_ops obj edge history) = (\<lambda>_ _ w. (Inr (Some \<lparr>rel_info = Some ''deployed'', rel_manifest = []\<rparr>), w))"
  "helm_install (sample_ops obj edge history) = (\<lambda>_ _ _ _ _ w. (None, w))"
  "helm_upgrade (sample_ops obj edge history) = (\<lambda>_ _ _ _ _ w. (None, w))"
  "helm_uninstall (sample_ops obj edge history) = (\<lambda>_ _ _ w. (None, w))"
  "http_new_request (sample_ops obj edge history) = (\<lambda>_ w. (None, w))"
  "http_do (sample_ops obj edge history) = (\<lambda>_ _ w. (Inr \<lparr>hr_status = 200, hr_body = 0\<rparr>, w))"
  "fs_create (sample_ops obj edge history) = (\<lambda>_ w. (None, w))"
  "fs_write (sample_ops obj edge history) = (\<lambda>_ _ w. (None, w))"
  "chart_load (sample_ops obj edge history) = (\<lambda>_ w. (Inr 0, w))"
  "cluster_config (sample_ops obj edge history) = (\<lambda>_. \<lparr>rc_host = ''https://edge'', rc_handle = 0\<rparr>)"
  "copy_config (sample_ops obj edge history) = (\<lambda>c. c)"
  "yaml_decode (sample_ops obj edge history) = (\<lambda>_. Inl (new_err ''no yaml''))"
  "set_status_condition (sample_ops obj edge history) = (\<lambda>cs c. c # cs)"
  "nn_string (sample_ops obj edge history) = (\<lambda>k. nn_namespace k @ ''/'' @ nn_name k)"
  by (simp_all add: sample_ops_def)

lemma sample_object_simps [simp]:
  "kd_name (sample_object deleted fins account) = ''crypto''"
  "kd_finalizers (sample_object deleted fins account) = fins"
  "om_deletion_timestamp (kd_meta (sample_object deleted fins account)) = deleted"
  "ai_name (kd_account (sample_object deleted fins account)) = account"
  "ri_name (kd_region (sample_object deleted fins account)) = ''eu''"
  "ri_kubeconfig (kd_region (sample_object deleted fins account)) = None"
  "ri_kubeconfig_secret_name (kd_region (sample_object deleted fins account)) = []"
  by (simp_all add: sample_object_def)

lemma fresh_sys_simps [simp]: "trace fresh_sys = []" "interval fresh_sys = None"
  by (simp_all add: fresh_sys_def)

lemma parse_manifest_empty [simp]: "parse_manifest_to_objects dec [] = Inr []"
  by (simp add: parse_manifest_eq) code_simp

lemmas handler_defs =
  reconcile_ced_def ensure_finalizer_def route_and_deploy_def ensure_namespace_def
  deploy_and_status_def check_and_heal_def heal_missing_def installed_manifest_def reinstall_def
  deploy_helm_chart_def load_and_apply_def apply_release_def finish_deploy_def
  namespace_workload_healthy_def status_update_def update_object_def write_status_def
  handle_delete_def cleanup_edge_def uninstall_helm_chart_def resolve_target_def event_def
  run_get_check_interval requeue_def Let_def calls_def

text \<open>A healthy deployment, one under deletion, and one without an account name.\<close>

abbreviation live_object :: kdep where
  "live_object \<equiv> sample_object None [finalizer_name] ''acme''"

abbreviation deleted_object :: kdep where
  "deleted_object \<equiv> sample_object (Some 1) [finalizer_name] ''acme''"

abbreviation nameless_object :: kdep where
  "nameless_object \<equiv> sample_object (Some 1) [finalizer_name] []"

abbreviation sample_run :: "kdep \<Rightarrow> goerr + cluster \<Rightarrow> (unit, effect, outcome_pair) go" where
  "sample_run d edge \<equiv>
     reconcile_ced (sample_ops (Inr d) edge None) Map.empty sample_config sample_request"

text \<open>An uninstallation whose history read fails for a reason other than a missing release.\<close>

theorem uninstall_unread_history_succeeds_witness:
  "result_of (uninstall_helm_chart
      (sample_ops (Inr live_object) (Inr 0) (Some (new_err ''forbidden''))) Map.empty 0 ''crypto''
      ''ced-crypto'') fresh_sys = None"
  by (rule uninstall_unread_history_succeeds [THEN conjunct1])
    (simp add: uninstall_helm_chart_def calls_def Let_def)

end
