(* ===== verification/Reconcile_Properties.thy ===== *)
theory Reconcile_Properties
  imports Reconcile_Runs Example_World
begin

text \<open>
  What every run of the reconciler satisfies, whatever the clusters, Helm and the network answer.
  Each property is read off the rules of the run relations.
\<close>

section \<open>Stages of a run\<close>

text \<open>The stage each call belongs to, in the order a reconciliation that deploys goes through them.\<close>

datatype stage = Fetching | Finalizing | Routing | Preparing | Deploying | Checking | Reporting

fun stage_index :: "stage \<Rightarrow> nat" where
  "stage_index Fetching = 0"
| "stage_index Finalizing = 1"
| "stage_index Routing = 2"
| "stage_index Preparing = 3"
| "stage_index Deploying = 4"
| "stage_index Checking = 5"
| "stage_index Reporting = 6"

instantiation stage :: linorder
begin

definition less_eq_stage :: "stage \<Rightarrow> stage \<Rightarrow> bool" where
  "less_eq_stage a b \<longleftrightarrow> stage_index a \<le> stage_index b"

definition less_stage :: "stage \<Rightarrow> stage \<Rightarrow> bool" where
  "less_stage a b \<longleftrightarrow> stage_index a < stage_index b"

instance
proof
  fix a b :: stage
  show "a \<le> b \<Longrightarrow> b \<le> a \<Longrightarrow> a = b"
    by (cases a; cases b) (simp_all add: less_eq_stage_def)
qed (auto simp: less_eq_stage_def less_stage_def)

end

text \<open>Events are emitted at every stage and have none of their own.\<close>

fun stage_of :: "effect \<Rightarrow> stage option" where
  "stage_of (HomeGet _ _) = Some Fetching"
| "stage_of (HomeUpdate _ _) = Some Finalizing"
| "stage_of (HomeStatusUpdate _ _) = Some Reporting"
| "stage_of (Event _ _ _ _) = None"
| "stage_of (GetCluster _ _) = Some Routing"
| "stage_of (NsGet _ _ _) = Some Preparing"
| "stage_of (NsCreate _ _ _) = Some Preparing"
| "stage_of (NsDelete _ _ _) = Some Preparing"
| "stage_of (ListWorkloads _ _ _) = Some Checking"
| "stage_of _ = Some Deploying"

definition stages :: "effect list \<Rightarrow> stage list" where
  "stages es = List.map_filter stage_of es"

lemma stages_simps [simp]:
  "stages [] = []"
  "stages (e # es) = (case stage_of e of None \<Rightarrow> stages es | Some x \<Rightarrow> x # stages es)"
  "stages (xs @ ys) = stages xs @ stages ys"
  by (simp_all add: stages_def List.map_filter_def split: option.splits)

lemma heal_call_stage: "heal_call e \<Longrightarrow> stage_of e = Some Deploying \<or> stage_of e = None"
  by (cases e) (auto simp: heal_call_def)

lemma helm_call_heal_call: "helm_call e \<Longrightarrow> heal_call e"
  by (simp add: heal_call_def)

text \<open>\<open>staged a b es\<close>: the stages come in order, none before \<open>a\<close> and none after \<open>b\<close>.\<close>

definition staged :: "stage \<Rightarrow> stage \<Rightarrow> effect list \<Rightarrow> bool" where
  "staged a b es \<longleftrightarrow> sorted (stages es) \<and> (\<forall>x \<in> set (stages es). a \<le> x \<and> x \<le> b)"

lemma staged_simps [simp]:
  "staged a b []"
  "staged a b (e # es) \<longleftrightarrow>
     (case stage_of e of None \<Rightarrow> staged a b es | Some x \<Rightarrow> a \<le> x \<and> x \<le> b \<and> staged x b es)"
  by (auto simp: staged_def split: option.splits)

lemma staged_append:
  "staged a b xs \<Longrightarrow> staged c d ys \<Longrightarrow> b \<le> c \<Longrightarrow> a \<le> c \<Longrightarrow> b \<le> d \<Longrightarrow> staged a d (xs @ ys)"
  by (auto simp: staged_def sorted_append intro: order.trans) (meson order.trans)+

lemma staged_weaken: "staged c d es \<Longrightarrow> a \<le> c \<Longrightarrow> d \<le> b \<Longrightarrow> staged a b es"
  by (auto simp: staged_def)

lemma stages_heal_calls: "list_all heal_call es \<Longrightarrow> staged Deploying Deploying es"
  by (induction es) (auto dest!: heal_call_stage)

lemma stage_order [simp]:
  "a \<le> b \<longleftrightarrow> stage_index a \<le> stage_index b" for a b :: stage
  by (rule less_eq_stage_def)

section \<open>What the handlers contribute\<close>

lemma last_only:
  assumes "list_all (\<lambda>e. \<not> P e) (butlast es)"
  shows "length (filter P es) = (if es \<noteq> [] \<and> P (last es) then 1 else 0)"
proof (cases es rule: rev_cases)
  case (snoc ys y)
  with assms show ?thesis by (simp add: list_all_iff filter_empty_conv)
qed simp

lemma heal_post_edge_writes:
  "heal_post ac ns rel (repaired, missing, err) es \<Longrightarrow>
   length (filter edge_write es) \<le> (if repaired \<or> err \<noteq> None then 1 else 0)"
  by (auto simp: heal_post_def last_only)

lemma deploy_post_edge_writes:
  "deploy_post ac ns rel url r es \<Longrightarrow> length (filter edge_write es) \<le> 1"
  by (auto simp: deploy_post_def last_only)

lemma post_heal_calls:
  "heal_post ac ns rel r es \<Longrightarrow> list_all heal_call es"
  "deploy_post ac ns rel url e es \<Longrightarrow> list_all heal_call es"
  by (auto simp: heal_post_def deploy_post_def list_all_iff heal_call_def split: prod.splits)

lemma health_post_calls: "health_post c ns r es \<Longrightarrow> \<exists>ans. es = [ListWorkloads c ns ans]"
  by (auto simp: health_post_def)

text \<open>Calls of the heal and deploy phases are neither writes of the home cluster nor deletions.\<close>

fun is_status_write :: "effect \<Rightarrow> bool" where
  "is_status_write (HomeStatusUpdate _ _) = True"
| "is_status_write _ = False"

lemma heal_call_harmless:
  "heal_call e \<Longrightarrow> \<not> destroys e \<and> \<not> is_status_write e \<and> \<not> home_write e"
  by (cases e)
    (simp_all add: heal_call_def)

lemma heal_calls_harmless:
  "list_all heal_call es \<Longrightarrow> filter is_status_write es = []"
  "list_all heal_call es \<Longrightarrow> list_all (\<lambda>e. \<not> destroys e) es"
  by (auto simp: list_all_iff filter_empty_conv dest: heal_call_harmless)

lemma deploy_run_calls:
  assumes "deploy_run good ops en c cfg d es res"
  shows "staged Deploying Reporting es"
    and "list_all (\<lambda>e. \<not> destroys e) es"
    and "length (filter edge_write es) \<le> 1"
    and "length (filter is_status_write es) = 1"
proof -
  have app: "staged Deploying Reporting (xs @ ys)"
    if "list_all heal_call xs" "staged Deploying Reporting ys" for xs ys
    by (rule staged_append [OF stages_heal_calls that(2)]) (use that in simp_all)
  show "staged Deploying Reporting es"
    using assms by cases (auto intro!: app dest!: post_heal_calls health_post_calls)
  show "list_all (\<lambda>e. \<not> destroys e) es"
    using assms
    by cases (auto simp: heal_calls_harmless dest!: post_heal_calls health_post_calls)
  show "length (filter is_status_write es) = 1"
    using assms
    by cases (auto simp: heal_calls_harmless
      dest!: post_heal_calls health_post_calls)
  show "length (filter edge_write es) \<le> 1"
    using assms
    by cases (auto dest!: heal_post_edge_writes deploy_post_edge_writes
      health_post_calls)
qed

lemma ns_run_calls:
  assumes "ns_run c ns d es res"
  shows "staged Preparing Preparing es"
    and "list_all (\<lambda>e. \<not> destroys e) es"
    and "length (filter edge_write es) \<le> 1"
    and "filter is_status_write es = []"
  using assms by (cases; simp)+

lemma route_run_calls:
  assumes "route_run good ops en cfg d es res"
  shows "staged Routing Reporting es"
    and "list_all (\<lambda>e. \<not> destroys e) es"
    and "length (filter edge_write es) \<le> 2"
    and "length (filter is_status_write es) \<le> 1"
proof -
  show "staged Routing Reporting es"
    using assms
  proof cases
    case (namespace_stops target region c ns msg)
    then show ?thesis using staged_weaken [OF ns_run_calls(1)] by simp
  next
    case (deploys target region c ns nres ds msg)
    have "staged Preparing Reporting (ns @ ds)"
      by (rule staged_append [OF ns_run_calls(1) deploy_run_calls(1)]) (use deploys in simp_all)
    with deploys show ?thesis using staged_weaken [of Preparing Reporting] by simp
  qed simp
  show "list_all (\<lambda>e. \<not> destroys e) es"
    using assms by cases (auto dest: ns_run_calls(2) deploy_run_calls(2))
  show "length (filter edge_write es) \<le> 2"
    using assms by cases (auto dest!: ns_run_calls(3) deploy_run_calls(3))
  show "length (filter is_status_write es) \<le> 1"
    using assms by cases (auto dest!: ns_run_calls(4) deploy_run_calls(4))
qed

lemma cleanup_run_calls:
  assumes "cleanup_run ops en c d es"
  shows "filter is_status_write es = []" and "list_all (\<lambda>e. \<not> home_write e) es"
proof -
  have harmless: "\<not> is_status_write e \<and> \<not> home_write e" if "uninstall_call e" for e
    using that by (cases e) simp_all
  show "filter is_status_write es = []" "list_all (\<lambda>e. \<not> home_write e) es"
    using assms
    by (cases; auto simp: uninstall_post_def list_all_iff filter_empty_conv
        dest: harmless split: option.splits)+
qed

lemma delete_run_calls:
  assumes "delete_run ops en cfg d es res"
  shows "filter is_status_write es = []"
  using assms by cases (auto split: sum.splits dest: cleanup_run_calls)

section \<open>Classes of calls\<close>

text \<open>The object has the finalizer on record, or its deletion is under way already.\<close>

fun cleanup_assured :: "effect \<Rightarrow> bool" where
  "cleanup_assured (HomeGet _ (Inr d)) \<longleftrightarrow>
     finalizer_name \<in> set (kd_finalizers d) \<or> om_deletion_timestamp (kd_meta d) \<noteq> None"
| "cleanup_assured (HomeUpdate d None) \<longleftrightarrow> finalizer_name \<in> set (kd_finalizers d)"
| "cleanup_assured _ \<longleftrightarrow> False"

fun being_deleted :: "effect \<Rightarrow> bool" where
  "being_deleted (HomeGet _ (Inr d)) \<longleftrightarrow> om_deletion_timestamp (kd_meta d) \<noteq> None"
| "being_deleted _ \<longleftrightarrow> False"

text \<open>A status write that reports \<open>Ready\<close>.\<close>

fun claims_ready :: "effect \<Rightarrow> bool" where
  "claims_ready (HomeStatusUpdate d _) \<longleftrightarrow> st_phase (kd_status d) = phase_ready"
| "claims_ready _ \<longleftrightarrow> False"

text \<open>The object is gone, or its finalizer was taken off the record.\<close>

fun settled :: "effect \<Rightarrow> bool" where
  "settled (HomeGet _ (Inl e)) \<longleftrightarrow> err_reason e = NotFound"
| "settled (HomeUpdate d None) \<longleftrightarrow> finalizer_name \<notin> set (kd_finalizers d)"
| "settled _ \<longleftrightarrow> False"

section \<open>Sample runs\<close>

lemma sample_live_run:
  "list_ex claims_ready (calls (sample_run live_object (Inr 0)) fresh_sys)"
  "list_all (\<lambda>e. \<not> being_deleted e) (calls (sample_run live_object (Inr 0)) fresh_sys)"
  by (simp_all add: handler_defs set_ready_condition_def)

lemma sample_deletion_run:
  "HomeGet sample_request (Inr deleted_object)
     \<in> set (calls (sample_run deleted_object (Inl (new_err ''no route''))) fresh_sys)"
  "GetCluster ''krypton/eu-kubeconfig'' (Inl (new_err ''no route''))
     \<in> set (calls (sample_run deleted_object (Inl (new_err ''no route''))) fresh_sys)"
  by (simp_all add: handler_defs sample_config_def)

lemma sample_nameless_run:
  "HomeGet sample_request (Inr nameless_object)
     \<in> set (calls (sample_run nameless_object (Inr 0)) fresh_sys)"
  by (simp add: handler_defs)

lemma read_check_interval_empty [simp]: "read_check_interval Map.empty = default_interval"
  by (rule read_check_interval_unset) (simp add: getenv_def, code_simp)

section \<open>Properties\<close>

text \<open>C1. An edge cluster is only changed once the home cluster has the finalizer on record.\<close>

theorem reconcile_finalizer_before_edge_write:
  "guarded cleanup_assured edge_write (calls (reconcile_ced ops en cfg req) s)"
  using reconcile_runs [of ops en cfg req s]
  by cases (simp_all add: with_finalizer_def)

text \<open>C3. Nothing is taken away from an edge cluster unless the object is being deleted.\<close>

theorem reconcile_destroys_only_deleted:
  "guarded being_deleted destroys (calls (reconcile_ced ops en cfg req) s)"
  using reconcile_runs [of ops en cfg req s]
  by cases (auto intro: guarded_none dest: route_run_calls)

text \<open>The calls of a run whose object is not being deleted follow the order of the stages.\<close>

theorem reconcile_stages_in_order:
  assumes "list_all (\<lambda>e. \<not> being_deleted e) (calls (reconcile_ced ops en cfg req) s)"
  shows "sorted (stages (calls (reconcile_ced ops en cfg req) s))"
proof -
  have "staged Fetching Reporting (calls (reconcile_ced ops en cfg req) s)"
    using reconcile_runs [of ops en cfg req s] assms
    by cases (auto dest!: route_run_calls(1) intro: staged_weaken)
  then show ?thesis by (simp add: staged_def)
qed

theorem reconcile_stages_in_order_witness:
  "sorted (stages (calls (sample_run live_object (Inr 0)) fresh_sys))"
  by (rule reconcile_stages_in_order [OF sample_live_run(2)])

text \<open>One run writes the status at most once.\<close>

theorem reconcile_one_status_write:
  "length (filter is_status_write (calls (reconcile_ced ops en cfg req) s)) \<le> 1"
  using reconcile_runs [of ops en cfg req s]
  by cases (auto dest: route_run_calls delete_run_calls)

text \<open>
  C31. A run that is no deletion changes the edge cluster at most twice: the namespace, the release.
\<close>

theorem reconcile_edge_writes_bound:
  assumes "list_all (\<lambda>e. \<not> being_deleted e) (calls (reconcile_ced ops en cfg req) s)"
  shows "length (filter edge_write (calls (reconcile_ced ops en cfg req) s)) \<le> 2"
  using reconcile_runs [of ops en cfg req s] assms
  by cases (auto dest: route_run_calls)

theorem reconcile_edge_writes_bound_witness:
  "length (filter edge_write (calls (sample_run live_object (Inr 0)) fresh_sys)) \<le> 2"
  by (rule reconcile_edge_writes_bound [OF sample_live_run(2)])

text \<open>
  What stands on the trace at the end of a run that reports \<open>Ready\<close> for \<open>d\<close>: the application of the
  release, the listing of the workloads and the status write, next to each other but for an event.
\<close>

definition ready_evidence ::
  "'w ops \<Rightarrow> env \<Rightarrow> op_config \<Rightarrow> cluster \<Rightarrow> kdep \<Rightarrow> effect list \<Rightarrow> bool" where
  "ready_evidence ops en cfg c d es \<longleftrightarrow>
     (\<exists>pre a l m u d' m'. es = pre @ [a, Event d EventNormal ''HelmDeployed'' m, l,
          HomeStatusUpdate (ready_object ops cfg d) u, Event d' EventNormal ''Ready'' m'] \<and>
        applied_ok (kd_helm ops en c d) (kd_name d) (release_name d) a \<and>
        healthy_listing c (kd_name d) l)"

lemma ready_evidence_append:
  "ready_evidence ops en cfg c d es \<Longrightarrow> ready_evidence ops en cfg c d (pre @ es)"
  unfolding ready_evidence_def by (metis append.assoc)

lemma heal_calls_not_ready: "list_all heal_call es \<Longrightarrow> \<not> list_ex claims_ready es"
proof
  assume "list_all heal_call es" and "list_ex claims_ready es"
  then obtain e where "heal_call e" and "claims_ready e"
    by (auto simp: list_all_iff list_ex_iff)
  then show False by (cases e) (simp_all add: heal_call_def)
qed

lemma deploy_run_ready:
  assumes "deploy_run good ops en c cfg d es res" and "list_ex claims_ready es"
  shows "ready_evidence ops en cfg c d es"
  using assms(1)
proof cases
  case (ready repaired missing hs ds healthy notReady ls iv msg' u d' msg)
  then obtain ys a where ds: "ds = ys @ [a]"
    and a: "applied_ok (kd_helm ops en c d) (kd_name d) (release_name d) a"
    by (cases ds rule: rev_cases) (auto simp: deploy_post_def)
  obtain l where l: "ls = [l]" "healthy_listing c (kd_name d) l"
    using ready by (auto simp: health_post_def)
  from ready ds l have "es = (hs @ ys) @ [a, Event d EventNormal ''HelmDeployed'' msg', l,
      HomeStatusUpdate (ready_object ops cfg d) u, Event d' EventNormal ''Ready'' msg]"
    by simp
  with a l show ?thesis unfolding ready_evidence_def by blast
qed (use assms(2) in \<open>auto dest!: post_heal_calls health_post_calls heal_calls_not_ready\<close>)

text \<open>
  C2. \<open>Ready\<close> is only reported after, in the same run and on the cluster that the object's region
  resolves to, the release of the configured chart was applied without an error and the listing of
  the namespace then showed every Deployment available.
\<close>

theorem reconcile_ready_evidence:
  assumes "list_ex claims_ready (calls (reconcile_ced ops en cfg req) s)"
  shows "\<exists>d c. GetCluster (fst (resolve_target (oc_namespace cfg) d)) (Inr c)
      \<in> set (calls (reconcile_ced ops en cfg req) s) \<and>
    ready_evidence ops en cfg c d (calls (reconcile_ced ops en cfg req) s)"
proof -
  have route: "\<exists>c. GetCluster (fst (resolve_target (oc_namespace cfg) d)) (Inr c) \<in> set es \<and>
      ready_evidence ops en cfg c d es"
    if run: "route_run good ops en cfg d es res" and ready: "list_ex claims_ready es"
    for good d es res
    using run
  proof cases
    case (deploys target region c ns nres ds msg)
    have "\<not> list_ex claims_ready ns"
      using \<open>ns_run c (kd_name d) d ns nres\<close> by cases simp_all
    with deploys ready have "ready_evidence ops en cfg c d ds"
      by (auto intro: deploy_run_ready)
    from ready_evidence_append [OF this, of "Event d EventNormal ''Routing'' msg #
        GetCluster target (Inr c) # ns"] deploys
    show ?thesis by auto
  next
    case (namespace_stops target region c ns msg)
    have "\<not> list_ex claims_ready ns"
      using \<open>ns_run c (kd_name d) d ns res\<close> by cases simp_all
    with namespace_stops ready show ?thesis by simp
  qed (use ready in simp)
  have pre: "\<exists>d c. GetCluster (fst (resolve_target (oc_namespace cfg) d)) (Inr c) \<in> set (pre @ es) \<and>
      ready_evidence ops en cfg c d (pre @ es)"
    if "route_run good ops en cfg d es res" "list_ex claims_ready es" for good d es res pre
    using route [OF that] ready_evidence_append [of ops en cfg _ d es pre] by auto
  have no_delete: "\<not> list_ex claims_ready ds" if "delete_run ops en cfg d ds res" for d ds res
  proof -
    have "\<not> claims_ready e" if "\<not> is_status_write e" for e using that by (cases e) simp_all
    moreover have "filter is_status_write ds = []" by (rule delete_run_calls [OF that])
    ultimately show ?thesis by (auto simp: list_ex_iff filter_empty_conv)
  qed
  from reconcile_runs [of ops en cfg req s] show ?thesis
  proof cases
    case (finalizer_added d d' rs msg msg')
    with assms show ?thesis
      using pre [of "\<lambda>_. True" d' rs _ "[HomeGet req (Inr d), Event d EventNormal ''AccountValidated'' msg,
        HomeUpdate (with_finalizer d) None, Event d' EventNormal ''FinalizerAdded'' msg']"]
      by simp
  next
    case (finalizer_present d rs msg)
    with assms show ?thesis
      using pre [of "\<lambda>_. True" d rs _ "[HomeGet req (Inr d), Event d EventNormal ''AccountValidated'' msg]"]
      by simp
  qed (use assms no_delete in auto)
qed

theorem reconcile_ready_evidence_witness:
  "\<exists>d c. GetCluster (fst (resolve_target (oc_namespace sample_config) d)) (Inr c)
      \<in> set (calls (sample_run live_object (Inr 0)) fresh_sys) \<and>
    ready_evidence (sample_ops (Inr live_object) (Inr 0) None) Map.empty sample_config c d
      (calls (sample_run live_object (Inr 0)) fresh_sys)"
  by (rule reconcile_ready_evidence [OF sample_live_run(1)])

lemma ns_run_result: "ns_run c ns d es res \<Longrightarrow> snd res = None"
  by (erule ns_run.cases) auto

lemma deploy_run_requeues:
  "deploy_run dur_pos ops en c cfg d es res \<Longrightarrow> dur_pos (requeue_after (fst res))"
  by (erule deploy_run.cases) auto

lemma route_run_requeues:
  "route_run dur_pos ops en cfg d es res \<Longrightarrow> dur_pos (requeue_after (fst res))"
  by (erule route_run.cases) (auto dest: deploy_run_requeues ns_run_result)

text \<open>Calls that read or write the object itself stand at the first two stages only.\<close>

fun object_call :: "effect \<Rightarrow> bool" where
  "object_call (HomeGet _ _) \<longleftrightarrow> True"
| "object_call (HomeUpdate _ _) \<longleftrightarrow> True"
| "object_call _ \<longleftrightarrow> False"

lemma staged_no_object_call:
  assumes "staged a b es" and "Finalizing < a"
  shows "\<not> list_ex object_call es"
proof -
  have "\<not> object_call e" if "e \<in> set es" for e
  proof
    assume "object_call e"
    then have "stage_of e = Some Fetching \<or> stage_of e = Some Finalizing"
      by (cases e) simp_all
    moreover have "x \<in> set (stages es)" if "stage_of e = Some x" for x
      using that \<open>e \<in> set es\<close> by (induction es) (auto split: option.splits)
    ultimately show False using assms by (fastforce simp: staged_def less_stage_def)
  qed
  then show ?thesis by (simp add: list_ex_iff)
qed

lemma route_run_no_object_call:
  "route_run good ops en cfg d es res \<Longrightarrow> \<not> list_ex object_call es"
  by (drule route_run_calls(1), drule staged_no_object_call) (simp_all add: less_stage_def)

lemma cleanup_run_no_object_call: "cleanup_run ops en c d es \<Longrightarrow> \<not> list_ex object_call es"
proof -
  have no: "\<not> object_call e" if "uninstall_call e" for e using that by (cases e) simp_all
  assume "cleanup_run ops en c d es"
  then show ?thesis
    by cases (auto simp: uninstall_post_def list_all_iff list_ex_iff dest: no split: option.splits)
qed

lemma settled_object_call: "list_ex settled es \<Longrightarrow> list_ex object_call es"
proof -
  have "object_call e" if "settled e" for e using that by (cases e) simp_all
  then show "list_ex settled es \<Longrightarrow> list_ex object_call es" by (auto simp: list_ex_iff)
qed

lemma fetch_object_call: "HomeGet req r \<in> set es \<Longrightarrow> list_ex object_call es"
  by (auto simp: list_ex_iff intro!: bexI)

lemma delete_run_requeues:
  assumes "delete_run ops en cfg d es res"
  shows "if list_ex settled es then requeue_after (fst res) = 0 else dur_pos (requeue_after (fst res))"
  using assms
  by cases (auto simp: without_finalizer_def split: sum.splits
    dest!: cleanup_run_no_object_call settled_object_call)

text \<open>
  C7. With a positive check interval a run is the last one exactly when the object is gone or its
  finalizer has been taken off; after every other outcome the object is queued again, later.
\<close>

theorem reconcile_requeues_until_settled:
  assumes "dur_pos (read_check_interval en)" and "interval_inv dur_pos (interval s)"
  shows "if list_ex settled (calls (reconcile_ced ops en cfg req) s)
    then requeue_after (fst (result_of (reconcile_ced ops en cfg req) s)) = 0
    else dur_pos (requeue_after (fst (result_of (reconcile_ced ops en cfg req) s)))"
proof -
  have route: "\<not> list_ex settled es \<and> dur_pos (requeue_after (fst res))"
    if "route_run dur_pos ops en cfg d es res" for d es res
    using route_run_no_object_call [OF that] settled_object_call route_run_requeues [OF that]
    by blast
  from reconcile_runs_good [OF assms] show ?thesis
    by cases (auto simp: with_finalizer_def dest: route delete_run_requeues split: if_splits)
qed

theorem reconcile_requeues_until_settled_witness:
  "if list_ex settled (calls (sample_run live_object (Inr 0)) fresh_sys)
    then requeue_after (fst (result_of (sample_run live_object (Inr 0)) fresh_sys)) = 0
    else dur_pos (requeue_after (fst (result_of (sample_run live_object (Inr 0)) fresh_sys)))"
  by (rule reconcile_requeues_until_settled) simp_all

lemma reconcile_run_fetch:
  assumes "reconcile_run good ops en cfg req es res" and "HomeGet req (Inr d) \<in> set es"
  obtains (account) u d' msg where "ai_name (kd_account d) = []"
      and "es = [HomeGet req (Inr d), HomeStatusUpdate (status_object ops phase_error
        ''Spec.account.name must be set'' ''False'' ''AccountMissing'' d) u,
        Event d' EventWarning ''AccountMissing'' msg]"
      and "res = requeue (30 * go_second)"
  | (deletion) ds msg where "ai_name (kd_account d) \<noteq> []"
      and "om_deletion_timestamp (kd_meta d) \<noteq> None"
      and "es = HomeGet req (Inr d) # Event d EventNormal ''AccountValidated'' msg # ds"
      and "delete_run ops en cfg d ds res"
  | (live) rest where "ai_name (kd_account d) \<noteq> []"
      and "om_deletion_timestamp (kd_meta d) = None" and "es = HomeGet req (Inr d) # rest"
proof -
  have no_delete: "HomeGet req (Inr d) \<notin> set ds" if "delete_run ops en cfg d' ds res" for d' ds res
    using that
    by cases (auto split: sum.splits dest!: cleanup_run_no_object_call dest: fetch_object_call)
  have no_route: "HomeGet req (Inr d) \<notin> set rs" if "route_run good ops en cfg d' rs res" for d' rs res
    using route_run_no_object_call [OF that] fetch_object_call by blast
  from assms(1) show thesis
    by cases (use assms(2) account deletion live no_delete no_route in auto)
qed

text \<open>
  C8. The run of an object under deletion that has an account name asks the home cluster to take the
  finalizer off, once, after everything else it does, whatever became of the clean-up; it is over when the home
  cluster agrees and comes back after five seconds when not.
\<close>

theorem reconcile_deletion_always_finalizes:
  assumes "HomeGet req (Inr d) \<in> set (calls (reconcile_ced ops en cfg req) s)"
    and "om_deletion_timestamp (kd_meta d) \<noteq> None" and "ai_name (kd_account d) \<noteq> []"
  shows "\<exists>pre u ev. calls (reconcile_ced ops en cfg req) s =
      pre @ HomeUpdate (without_finalizer d) u # ev \<and>
    list_all (\<lambda>e. \<not> home_write e) pre \<and> stages ev = [] \<and>
    result_of (reconcile_ced ops en cfg req) s =
      (if u = None then requeue 0 else requeue (5 * go_second))"
proof -
  from reconcile_runs [of ops en cfg req s] assms(1) show ?thesis
  proof (cases rule: reconcile_run_fetch)
    case (deletion ds msg)
    let ?fetch = "[HomeGet req (Inr d), Event d EventNormal ''AccountValidated'' msg]"
    from \<open>delete_run ops en cfg d ds _\<close> show ?thesis
    proof cases
      case (deleted gc cs target region msg' d' msg'')
      have "list_all (\<lambda>e. \<not> home_write e) cs"
        using deleted by (auto split: sum.splits dest: cleanup_run_calls)
      then show ?thesis
        using deletion deleted
        by - (rule exI [of _ "?fetch @ Event d EventNormal ''DeleteStarted'' msg' #
              GetCluster target gc # cs"],
            rule exI [of _ "None"], rule exI [of _ "[Event d' EventNormal ''FinalizerRemoved'' msg'']"], simp)
    next
      case (finalizer_stays gc cs target region msg' e)
      have "list_all (\<lambda>e. \<not> home_write e) cs"
        using finalizer_stays by (auto split: sum.splits dest: cleanup_run_calls)
      then show ?thesis
        using deletion finalizer_stays
        by - (rule exI [of _ "?fetch @ Event d EventNormal ''DeleteStarted'' msg' #
              GetCluster target gc # cs"],
            rule exI [of _ "Some e"], rule exI [of _ "[]"], simp)
    qed
  qed (use assms in auto)
qed

theorem reconcile_deletion_always_finalizes_witness:
  "\<exists>pre u ev. calls (sample_run deleted_object (Inl (new_err ''no route''))) fresh_sys =
      pre @ HomeUpdate (without_finalizer deleted_object) u # ev \<and>
    list_all (\<lambda>e. \<not> home_write e) pre \<and> stages ev = [] \<and>
    result_of (sample_run deleted_object (Inl (new_err ''no route''))) fresh_sys =
      (if u = None then requeue 0 else requeue (5 * go_second))"
  by (rule reconcile_deletion_always_finalizes [OF sample_deletion_run(1)]) simp_all

text \<open>
  C11. Without an account name the run stops at the status write, also when the object is being
  deleted: nothing is cleaned up, and the finalizer stays.
\<close>

theorem reconcile_account_missing_stops:
  assumes "HomeGet req (Inr d) \<in> set (calls (reconcile_ced ops en cfg req) s)"
    and "ai_name (kd_account d) = []"
  shows "stages (calls (reconcile_ced ops en cfg req) s) = [Fetching, Reporting] \<and>
    result_of (reconcile_ced ops en cfg req) s = requeue (30 * go_second)"
  using reconcile_runs [of ops en cfg req s] assms(1)
  by (cases rule: reconcile_run_fetch) (use assms in auto)

theorem reconcile_account_missing_stops_witness:
  "stages (calls (sample_run nameless_object (Inr 0)) fresh_sys) = [Fetching, Reporting] \<and>
    result_of (sample_run nameless_object (Inr 0)) fresh_sys = requeue (30 * go_second)"
  by (rule reconcile_account_missing_stops [OF sample_nameless_run]) simp

text \<open>
  C12. When the edge cluster of an object under deletion is not available, nothing is changed on
  any edge cluster, and the removal of the finalizer is requested all the same: the release stays
  behind.
\<close>

theorem reconcile_unreachable_deletion_leaks:
  assumes "HomeGet req (Inr d) \<in> set (calls (reconcile_ced ops en cfg req) s)"
    and "om_deletion_timestamp (kd_meta d) \<noteq> None" and "ai_name (kd_account d) \<noteq> []"
    and "GetCluster target (Inl e) \<in> set (calls (reconcile_ced ops en cfg req) s)"
  shows "\<exists>u. HomeUpdate (without_finalizer d) u \<in> set (calls (reconcile_ced ops en cfg req) s) \<and>
    list_all (\<lambda>e. \<not> edge_write e) (calls (reconcile_ced ops en cfg req) s)"
proof -
  have no_lookup: "GetCluster t r \<notin> set cs" if "cleanup_run ops en c d cs" for c cs t r
  proof -
    have "\<not> uninstall_call (GetCluster t r)" by simp
    with that show ?thesis
      by (cases rule: cleanup_run.cases) (auto simp: uninstall_post_def list_all_iff split: option.splits)
  qed
  from reconcile_runs [of ops en cfg req s] assms(1) show ?thesis
  proof (cases rule: reconcile_run_fetch)
    case (deletion ds msg)
    from \<open>delete_run ops en cfg d ds _\<close> show ?thesis
      by cases (use deletion assms(4) no_lookup in \<open>auto split: sum.splits\<close>)
  qed (use assms in auto)
qed

theorem reconcile_unreachable_deletion_leaks_witness:
  "\<exists>u. HomeUpdate (without_finalizer deleted_object) u
      \<in> set (calls (sample_run deleted_object (Inl (new_err ''no route''))) fresh_sys) \<and>
    list_all (\<lambda>e. \<not> edge_write e)
      (calls (sample_run deleted_object (Inl (new_err ''no route''))) fresh_sys)"
  by (rule reconcile_unreachable_deletion_leaks
      [OF sample_deletion_run(1) _ _ sample_deletion_run(2)]) simp_all

end
