(* ===== verification/Home_Writes.thy ===== *)
theory Home_Writes
  imports Reconcile_Properties
begin

text \<open>
  What the reconciler writes to the home cluster, over all runs: the two updates of the object
  that move its finalizer, and statuses in which phase, condition and message agree.
\<close>

text \<open>A status as the handlers leave it: the phase, the condition and the message agree.\<close>

definition status_ok :: "'w ops \<Rightarrow> kdep \<Rightarrow> bool" where
  "status_ok ops d \<longleftrightarrow>
     st_phase (kd_status d) \<in> {phase_pending, phase_ready, phase_error} \<and>
     (\<exists>cs c. st_conditions (kd_status d) = set_status_condition ops cs c \<and>
        cond_type c = ''Ready'' \<and>
        cond_status c = (if st_phase (kd_status d) = phase_ready then ''True'' else ''False'') \<and>
        cond_message c = st_last_message (kd_status d) \<and>
        cond_observed_generation c = om_generation (kd_meta d))"

fun home_write_ok :: "'w ops \<Rightarrow> kdep \<Rightarrow> effect \<Rightarrow> bool" where
  "home_write_ok ops d (HomeUpdate o' _) \<longleftrightarrow> o' = with_finalizer d \<or> o' = without_finalizer d"
| "home_write_ok ops d (HomeStatusUpdate o' _) \<longleftrightarrow> status_ok ops o'"
| "home_write_ok ops d _ \<longleftrightarrow> True"

lemma status_ok_set_ready_condition:
  assumes "st_phase (kd_status d) \<in> {phase_pending, phase_ready, phase_error}"
    and "status = (if st_phase (kd_status d) = phase_ready then ''True'' else ''False'')"
    and "st_last_message (kd_status d) = msg"
  shows "status_ok ops (set_ready_condition ops d status reason msg)"
proof -
  let ?c = "\<lparr>cond_type = ''Ready'', cond_status = status,
    cond_observed_generation = om_generation (kd_meta d), cond_last_transition_time = None,
    cond_reason = reason, cond_message = msg\<rparr>"
  let ?d = "set_ready_condition ops d status reason msg"
  have "st_conditions (kd_status ?d) = set_status_condition ops (st_conditions (kd_status d)) ?c"
    and "st_phase (kd_status ?d) = st_phase (kd_status d)"
    and "st_last_message (kd_status ?d) = msg" and "kd_meta ?d = kd_meta d"
    using assms(3) by (simp_all add: set_ready_condition_def)
  with assms(1,2) show ?thesis
    unfolding status_ok_def
    by (intro conjI exI [where x = "st_conditions (kd_status d)"] exI [where x = "?c"]) simp_all
qed

lemma status_ok_written:
  "phase = phase_pending \<or> phase = phase_error \<Longrightarrow>
   status_ok ops (status_object ops phase msg ''False'' reason d)"
  "status_ok ops (ready_object ops cfg d)"
proof -
  show "status_ok ops (status_object ops phase msg ''False'' reason d)"
    if "phase = phase_pending \<or> phase = phase_error"
    unfolding status_object_def
    by (rule status_ok_set_ready_condition)
      (use that in \<open>auto simp: set_phase_message_def phases_distinct phases_distinct [symmetric]\<close>)
  show "status_ok ops (ready_object ops cfg d)"
    unfolding ready_object_def Let_def
    by (rule status_ok_set_ready_condition) (simp_all add: set_phase_message_def)
qed

lemma harmless_home_write_ok: "\<not> home_write e \<Longrightarrow> home_write_ok ops d e"
  by (cases e) simp_all

lemma heal_calls_home_write_ok: "list_all heal_call es \<Longrightarrow> list_all (home_write_ok ops d) es"
  by (auto simp: list_all_iff intro: harmless_home_write_ok dest: heal_call_harmless)

lemma deploy_run_home_write_ok:
  "deploy_run good ops en c cfg d es res \<Longrightarrow> list_all (home_write_ok ops d0) es"
  by (erule deploy_run.cases)
    (auto simp: status_ok_written heal_calls_home_write_ok dest!: post_heal_calls health_post_calls)

lemma route_run_home_write_ok:
  assumes "route_run good ops en cfg d es res"
  shows "list_all (home_write_ok ops d0) es"
proof -
  have ns: "list_all (home_write_ok ops d0) ns" if "ns_run c n d ns r" for c n d ns r
    using that by cases simp_all
  from assms show ?thesis
    by cases (auto simp: status_ok_written ns deploy_run_home_write_ok)
qed

lemma delete_run_home_write_ok:
  assumes "delete_run ops en cfg d es res"
  shows "list_all (home_write_ok ops d) es"
proof -
  have "list_all (home_write_ok ops d) cs" if "cleanup_run ops en c d cs" for c cs
    using cleanup_run_calls(2) [OF that] by (auto simp: list_all_iff intro: harmless_home_write_ok)
  with assms show ?thesis by cases (auto split: sum.splits)
qed

text \<open>
  C9. What a run writes to the home cluster: the object it read with the finalizer added or taken
  off and nothing else changed, and statuses whose phase is one of the three, with a \<open>Ready\<close>
  condition that is true exactly for the phase \<open>Ready\<close> and carries the same message and the
  object's generation.
\<close>

theorem reconcile_home_writes_well_formed:
  assumes "HomeGet req (Inr d) \<in> set (calls (reconcile_ced ops en cfg req) s)"
  shows "list_all (home_write_ok ops d) (calls (reconcile_ced ops en cfg req) s)"
proof -
  have no_route: "HomeGet req (Inr d) \<notin> set rs" if "route_run good ops en cfg d' rs res" for good d' rs res
    using route_run_no_object_call [OF that] fetch_object_call by blast
  from reconcile_runs [of ops en cfg req s] assms show ?thesis
  proof (cases rule: reconcile_run_fetch)
    case (deletion ds msg)
    then show ?thesis by (simp add: delete_run_home_write_ok)
  next
    case (live rest)
    from reconcile_runs [of ops en cfg req s] show ?thesis
      by cases (use live no_route in \<open>auto simp: route_run_home_write_ok\<close>)
  qed (simp add: status_ok_written)
qed

theorem reconcile_home_writes_well_formed_witness:
  "list_all (home_write_ok (sample_ops (Inr deleted_object) (Inl (new_err ''no route'')) None)
      deleted_object)
    (calls (sample_run deleted_object (Inl (new_err ''no route''))) fresh_sys)"
  by (rule reconcile_home_writes_well_formed [OF sample_deletion_run(1)])

end
