(* ===== verification/Edge_Scope.thy ===== *)
theory Edge_Scope
  imports Reconcile_Runs Example_World
begin

text \<open>
  Where a reconciliation may act: every change of an edge cluster concerns the cluster the object's
  region resolves to, the namespace with the object's name, and the release named after it.
\<close>

section \<open>The scope of an object\<close>

text \<open>
  The changes that belong to the objects named \<open>name\<close> on cluster \<open>c\<close>; other calls are not limited.
\<close>

fun in_scope :: "'w ops \<Rightarrow> env \<Rightarrow> string \<Rightarrow> cluster \<Rightarrow> effect \<Rightarrow> bool" where
  "in_scope ops en name c (NsCreate c' ns e) \<longleftrightarrow> c' = c \<and> ns = name"
| "in_scope ops en name c (NsDelete c' ns e) \<longleftrightarrow> c' = c \<and> ns = name"
| "in_scope ops en name c (HelmInstall ac opts rel ch v e) \<longleftrightarrow>
     ac = helm_config ops en c name \<and> ho_namespace opts = name \<and> rel = ''ced-'' @ name"
| "in_scope ops en name c (HelmUpgrade ac opts rel ch v e) \<longleftrightarrow>
     ac = helm_config ops en c name \<and> ho_namespace opts = name \<and> rel = ''ced-'' @ name"
| "in_scope ops en name c (HelmUninstall ac opts rel e) \<longleftrightarrow>
     ac = helm_config ops en c name \<and> rel = ''ced-'' @ name"
| "in_scope ops en name c _ \<longleftrightarrow> True"

lemma in_scope_harmless [simp]: "\<not> edge_write e \<Longrightarrow> in_scope ops en name c e"
  by (cases e) simp_all

abbreviation stays :: "'w ops \<Rightarrow> env \<Rightarrow> kdep \<Rightarrow> cluster \<Rightarrow> ('w, effect, 'a) go \<Rightarrow> bool" where
  "stays ops en d c \<equiv> upholds (in_scope ops en (kd_name d) c)"

lemma stays_event: "stays ops en d c (event d' ty reason msg)"
  unfolding event_def by (rule upholds_ext) simp

lemma stays_deploys:
  "stays ops en d c (deploy_helm_chart ops en c (kd_name d) (release_name d) repo name version)"
  unfolding deploy_helm_chart_def load_and_apply_def apply_release_def Let_def
  by (intro up_rules upholds_ext) (simp_all add: helm_apply_opts_def)

lemma stays_checks: "stays ops en d c (check_objects ops c ns objs missing)"
  by (induction objs arbitrary: missing) (auto intro!: up_rules upholds_ext)

lemma stays_heals:
  "stays ops en d c (check_and_heal ops en c (kd_name d) (release_name d) repo name version d')"
  unfolding check_and_heal_def heal_missing_def reinstall_def Let_def
  by (intro up_rules upholds_ext stays_deploys stays_checks stays_event) simp_all

lemma stays_write_status: "stays ops en d c (write_status ops phase msg status reason d')"
  unfolding write_status_def status_update_def
  by (intro up_rules upholds_ext) simp

lemma stays_interval: "stays ops en d c (get_check_interval en)"
  by (rule upholdsI) (simp add: run_get_check_interval split: option.splits)

lemma stays_deploy_and_status: "stays ops en d c (deploy_and_status ops en c cfg d)"
  unfolding deploy_and_status_def finish_deploy_def namespace_workload_healthy_def status_update_def
    Let_def
  by (intro up_rules upholds_ext stays_heals stays_deploys stays_event stays_write_status
      stays_interval) simp_all

lemma stays_ensure_namespace: "stays ops en d c (ensure_namespace ops c (kd_name d) d)"
  unfolding ensure_namespace_def
  by (intro up_rules upholds_ext stays_event) simp_all

lemma stays_cleanup: "stays ops en d c (cleanup_edge ops en c d)"
  unfolding cleanup_edge_def uninstall_helm_chart_def Let_def
  by (intro up_rules upholds_ext stays_event) simp_all

section \<open>The scope of a run\<close>

text \<open>
  \<open>scoped\<close>: the changes are in the scope of \<open>name\<close>, all on one cluster, which \<open>target\<close> was resolved
  to in the same run.
\<close>

definition scoped :: "'w ops \<Rightarrow> env \<Rightarrow> string \<Rightarrow> string \<Rightarrow> effect list \<Rightarrow> bool" where
  "scoped ops en target name es \<longleftrightarrow>
     list_all (\<lambda>e. \<not> edge_write e) es \<or>
     (\<exists>c. GetCluster target (Inr c) \<in> set es \<and> list_all (in_scope ops en name c) es)"

abbreviation scoped_for :: "'w ops \<Rightarrow> env \<Rightarrow> op_config \<Rightarrow> kdep \<Rightarrow> effect list \<Rightarrow> bool" where
  "scoped_for ops en cfg d \<equiv>
     scoped ops en (fst (resolve_target (oc_namespace cfg) d)) (kd_name d)"

lemma emits_upholds: "upholds Q m \<Longrightarrow> emits (\<lambda>_. True) m (\<lambda>_. list_all Q)"
  using upholdsD(1) by (fastforce simp: emits_def)

lemmas emits_scopes = stays_deploy_and_status [THEN emits_upholds]
  stays_ensure_namespace [THEN emits_upholds] stays_cleanup [THEN emits_upholds]

lemma emits_scope_delete:
  "emits (\<lambda>_. True) (handle_delete ops en cfg d) (\<lambda>_. scoped_for ops en cfg d)"
  unfolding handle_delete_def update_object_def Let_def
  by (intro wp_rules emits_bind [OF emits_scopes(3)]; hypsubst?) (auto simp: scoped_def)

lemma emits_scope_route:
  "emits (\<lambda>_. True) (route_and_deploy ops en cfg d) (\<lambda>_. scoped_for ops en cfg d)"
  unfolding route_and_deploy_def Let_def
  by (intro wp_rules emits_bind [OF emits_scopes(2)] emits_conseq [OF emits_scopes(1)]; hypsubst?)
    (auto simp: scoped_def)

lemma scoped_Cons:
  "\<not> edge_write e \<Longrightarrow> scoped ops en target name es \<Longrightarrow> scoped ops en target name (e # es)"
  by (auto simp: scoped_def)

text \<open>
  The object a run works on: the one it read when that is being deleted or has its finalizer, and
  otherwise the one the home cluster answered with when the finalizer was added.
\<close>

definition worked_on :: "'w ops \<Rightarrow> kdep \<Rightarrow> kdep \<Rightarrow> bool" where
  "worked_on ops d d' \<longleftrightarrow>
     (if om_deletion_timestamp (kd_meta d) \<noteq> None \<or> finalizer_name \<in> set (kd_finalizers d)
      then d' = d
      else \<exists>w. d' = snd (fst (home_update ops (with_finalizer d) w)))"

fun reads_object :: "kdep \<Rightarrow> effect list \<Rightarrow> bool" where
  "reads_object d (HomeGet r (Inr d') # _) \<longleftrightarrow> d' = d"
| "reads_object d _ \<longleftrightarrow> False"

definition run_scoped :: "'w ops \<Rightarrow> env \<Rightarrow> op_config \<Rightarrow> kdep \<Rightarrow> effect list \<Rightarrow> bool" where
  "run_scoped ops en cfg d es \<longleftrightarrow> (\<exists>d'. worked_on ops d d' \<and> scoped_for ops en cfg d' es)"

lemma run_scoped_none: "list_all (\<lambda>e. \<not> edge_write e) es \<Longrightarrow> run_scoped ops en cfg d es"
proof -
  assume none: "list_all (\<lambda>e. \<not> edge_write e) es"
  have "\<exists>d'. worked_on ops d d'"
  proof (cases "om_deletion_timestamp (kd_meta d) \<noteq> None \<or> finalizer_name \<in> set (kd_finalizers d)")
    case True
    then show ?thesis by (simp add: worked_on_def)
  next
    case False
    show ?thesis unfolding worked_on_def if_not_P [OF False] by blast
  qed
  with none show ?thesis by (auto simp: run_scoped_def scoped_def)
qed

lemma scoped_append:
  "list_all (\<lambda>e. \<not> edge_write e) pre \<Longrightarrow> scoped ops en target name es \<Longrightarrow>
   scoped ops en target name (pre @ es)"
  by (induction pre) (auto intro: scoped_Cons)

lemma run_scoped_append:
  "list_all (\<lambda>e. \<not> edge_write e) pre \<Longrightarrow> worked_on ops d d' \<Longrightarrow> scoped_for ops en cfg d' es \<Longrightarrow>
   run_scoped ops en cfg d (pre @ es)"
  by (auto simp: run_scoped_def intro: scoped_append)

lemma run_scoped_Cons:
  "\<not> edge_write e \<Longrightarrow> run_scoped ops en cfg d es \<Longrightarrow> run_scoped ops en cfg d (e # es)"
  by (auto simp: run_scoped_def intro: scoped_Cons)

lemma worked_on_intros:
  "om_deletion_timestamp (kd_meta d) \<noteq> None \<Longrightarrow> worked_on ops d d"
  "finalizer_name \<in> set (kd_finalizers d) \<Longrightarrow> worked_on ops d d"
  "om_deletion_timestamp (kd_meta d) = None \<Longrightarrow> finalizer_name \<notin> set (kd_finalizers d) \<Longrightarrow>
   worked_on ops d (snd (fst (home_update ops (with_finalizer d) w)))"
  by (auto simp: worked_on_def)

lemma emits_finalizer_object:
  "emits (\<lambda>_. True) (ensure_finalizer ops d) (\<lambda>r es.
     list_all (\<lambda>e. \<not> edge_write e) es \<and>
     (case r of
        None \<Rightarrow> True
      | Some d' \<Rightarrow>
          if finalizer_name \<in> set (kd_finalizers d) then d' = d
          else \<exists>w. d' = snd (fst (home_update ops (with_finalizer d) w))))"
proof (cases "finalizer_name \<in> set (kd_finalizers d)")
  case True
  then show ?thesis by (simp add: ensure_finalizer_def emits_ret)
next
  case False
  show ?thesis
    unfolding ensure_finalizer_def with_finalizer_def [symmetric] update_object_def
      if_not_P [OF False]
  proof (rule emits_bind_ext_from)
    fix w
    obtain err d' w' where "home_update ops (with_finalizer d) w = ((err, d'), w')"
      by (metis surj_pair)
    then have r: "fst (home_update ops (with_finalizer d) w) = (err, d')"
      by simp
    then have "\<exists>w. d' = snd (fst (home_update ops (with_finalizer d) w))"
      by (metis snd_conv)
    then show "emits (\<lambda>_. True)
        (case fst (home_update ops (with_finalizer d) w) of
           (None, d') \<Rightarrow> State_Monad.bind
             (event d' EventNormal ''FinalizerAdded'' ''Finalizer added for cleanup on delete'')
             (\<lambda>_. ret (Some d'))
         | (Some e, d') \<Rightarrow> ret None)
        (\<lambda>r es.
           list_all (\<lambda>e. \<not> edge_write e)
             (HomeUpdate (with_finalizer d) (fst (fst (home_update ops (with_finalizer d) w))) # es) \<and>
           (case r of
              None \<Rightarrow> True
            | Some d' \<Rightarrow> \<exists>w. d' = snd (fst (home_update ops (with_finalizer d) w))))"
      unfolding r by (cases err) (auto intro!: wp_rules)
  qed
qed

lemma emits_scope_reconcile:
  "emits (\<lambda>_. True) (reconcile_ced ops en cfg req) (\<lambda>_ es.
     \<forall>d. reads_object d es \<longrightarrow> run_scoped ops en cfg d es)"
  unfolding reconcile_ced_def
  by (intro wp_rules emits_bind [OF emits_finalizer_object] emits_conseq [OF emits_scope_delete]
      emits_conseq [OF emits_scope_route]; hypsubst?)
    (auto intro!: run_scoped_Cons intro: run_scoped_none
      run_scoped_append [where pre = "[]", simplified] run_scoped_append worked_on_intros split: if_splits)

section \<open>Property\<close>

text \<open>
  C4. What a run changes on an edge cluster is limited to the namespace and the release that carry
  the name of the object it works on, on one cluster, to which that object's target was resolved
  in this run. The object is the one that was read, or the home cluster's answer when the run
  adds the finalizer. Only the target and the name enter the limits.
\<close>

theorem reconcile_edge_scope:
  assumes "reads_object d (calls (reconcile_ced ops en cfg req) s)"
  shows "\<exists>d'. worked_on ops d d' \<and>
    scoped ops en (fst (resolve_target (oc_namespace cfg) d')) (kd_name d')
      (calls (reconcile_ced ops en cfg req) s)"
  using run_judged [OF emits_scope_reconcile, of ops en cfg req s] assms
  by (simp add: run_scoped_def)

theorem reconcile_edge_scope_witness:
  "\<exists>d'. worked_on (sample_ops (Inr deleted_object) (Inr 0) None) deleted_object d' \<and>
     scoped (sample_ops (Inr deleted_object) (Inr 0) None) Map.empty
       (fst (resolve_target (oc_namespace sample_config) d')) (kd_name d')
       (calls (sample_run deleted_object (Inr 0)) fresh_sys)"
  by (rule reconcile_edge_scope) (simp add: handler_defs)

text \<open>
  Two objects of the same name in different namespaces, routed to the same cluster: the deletion of
  either uninstalls the release of both.
\<close>

lemma same_name_same_release:
  "\<exists>e. e \<in> set (calls (sample_run deleted_object (Inr 0)) fresh_sys) \<and>
     e \<in> set (calls (sample_run
       (deleted_object\<lparr>kd_meta := (kd_meta deleted_object)\<lparr>om_namespace := ''other''\<rparr>\<rparr>) (Inr 0))
       fresh_sys) \<and>
     destroys e"
  by (rule exI [of _ "NsDelete 0 ''crypto'' None"]) (simp add: handler_defs)

end
