(* ===== verification/Reconcile_Results.thy ===== *)
theory Reconcile_Results
  imports Reconcile_Runs Example_World
begin

text \<open>
  What a reconciliation returns to the work queue, as a table over the calls it made.
\<close>

section \<open>The table\<close>

fun update_failed :: "effect \<Rightarrow> bool" where
  "update_failed (HomeUpdate _ e) \<longleftrightarrow> e \<noteq> None"
| "update_failed _ \<longleftrightarrow> False"

fun finalizer_dropped :: "effect \<Rightarrow> bool" where
  "finalizer_dropped (HomeUpdate d e) \<longleftrightarrow> e = None \<and> finalizer_name \<notin> set (kd_finalizers d)"
| "finalizer_dropped _ \<longleftrightarrow> False"

fun listed :: "bool \<Rightarrow> effect \<Rightarrow> bool" where
  "listed healthy (ListWorkloads c ns r) \<longleftrightarrow> healthy_listing c ns (ListWorkloads c ns r) = healthy"
| "listed healthy _ \<longleftrightarrow> False"

fun wrote_phase :: "string \<Rightarrow> effect \<Rightarrow> bool" where
  "wrote_phase p (HomeStatusUpdate d _) \<longleftrightarrow> st_phase (kd_status d) = p"
| "wrote_phase p _ \<longleftrightarrow> False"

fun noted_deploy_failure :: "effect \<Rightarrow> bool" where
  "noted_deploy_failure (Event _ _ reason _) \<longleftrightarrow> reason = ''HelmDeployFailed''"
| "noted_deploy_failure _ \<longleftrightarrow> False"

text \<open>
  The delay that goes with the calls \<open>es\<close>; \<open>iv\<close> is the check interval. The first row that fits counts:
  the object is gone, it could not be read, a write of the finalizer failed, the finalizer was taken
  off, the Deployments were found available, or not, a repair was made (the only pending status
  without a listing), a deployment failed. The last row is for a missing account name, an edge
  cluster or a namespace that is not available, and a failed health check.
\<close>

definition delay_table :: "duration \<Rightarrow> effect list \<Rightarrow> duration" where
  "delay_table iv es =
     (case es of
        HomeGet _ (Inl e) # _ \<Rightarrow> if err_reason e = NotFound then 0 else 10 * go_second
      | _ \<Rightarrow>
          if list_ex update_failed es then 5 * go_second
          else if list_ex finalizer_dropped es then 0
          else if list_ex (listed True) es then iv
          else if list_ex (listed False) es then 15 * go_second
          else if list_ex (wrote_phase phase_pending) es then 20 * go_second
          else if list_ex noted_deploy_failure es then 60 * go_second
          else 30 * go_second)"

lemmas table_rows = update_failed.simps finalizer_dropped.simps listed.simps wrote_phase.simps
  noted_deploy_failure.simps

section \<open>Parts of a run that fit no row\<close>

definition rowless :: "effect list \<Rightarrow> bool" where
  "rowless es \<longleftrightarrow> list_all (\<lambda>e. \<not> update_failed e \<and> \<not> finalizer_dropped e \<and> \<not> listed True e \<and>
     \<not> listed False e \<and> (\<forall>p. \<not> wrote_phase p e) \<and> \<not> noted_deploy_failure e) es"

lemma rowless_simps [simp]:
  "rowless []" 
  "rowless (xs @ ys) \<longleftrightarrow> rowless xs \<and> rowless ys"
  by (simp_all add: rowless_def)

lemma rowless_no_row [simp]:
  assumes "rowless es"
  shows "\<not> list_ex update_failed es" "\<not> list_ex finalizer_dropped es" "\<not> list_ex (listed b) es"
    "\<not> list_ex (wrote_phase p) es" "\<not> list_ex noted_deploy_failure es"
  using assms by (cases b; auto simp: rowless_def list_ex_iff list_all_iff)+

lemma rowless_heal_calls: "list_all heal_call es \<Longrightarrow> rowless es"
proof -
  have "heal_call e \<Longrightarrow> rowless [e]" for e
    by (cases e) (auto simp: rowless_def heal_call_def split: event_type.splits)
  then show "list_all heal_call es \<Longrightarrow> rowless es"
    by (simp add: rowless_def list_all_iff)
qed

lemma rowless_heal: "heal_post ac ns rel r es \<Longrightarrow> rowless es"
  by (auto simp: heal_post_def intro: rowless_heal_calls split: prod.splits)

lemma rowless_deploy: "deploy_post ac ns rel url r es \<Longrightarrow> rowless es"
  by (rule rowless_heal_calls) (auto simp: deploy_post_def list_all_iff heal_call_def)

lemma health_listing:
  "health_post c ns (healthy, notReady) es \<Longrightarrow>
   \<exists>r. es = [ListWorkloads c ns r] \<and> healthy_listing c ns (ListWorkloads c ns r) = healthy"
  by (auto simp: health_post_def)

lemmas part_rows = rowless_heal rowless_deploy health_listing

text \<open>\<open>decided\<close>: no row of \<open>pre\<close> fits, so the table is read on \<open>es\<close>.\<close>

definition table_rest :: "duration \<Rightarrow> effect list \<Rightarrow> duration" where
  "table_rest iv es =
     (if list_ex update_failed es then 5 * go_second
      else if list_ex finalizer_dropped es then 0
      else if list_ex (listed True) es then iv
      else if list_ex (listed False) es then 15 * go_second
      else if list_ex (wrote_phase phase_pending) es then 20 * go_second
      else if list_ex noted_deploy_failure es then 60 * go_second
      else 30 * go_second)"

lemma table_rest_skip [simp]: "rowless pre \<Longrightarrow> table_rest iv (pre @ es) = table_rest iv es"
  by (simp add: table_rest_def)

declare phases_distinct [symmetric, simp]

lemma deploy_run_table:
  assumes "deploy_run ((=) iv) ops en c cfg d es res"
  shows "res = requeue (table_rest iv es)"
  using assms
proof cases
  case (heal_failed repaired missing e hs u)
  from rowless_heal [OF heal_failed(3)] show ?thesis
    by (simp add: heal_failed(1,2) table_rest_def)
next
  case (repaired repaired missing hs msg u)
  from rowless_heal [OF repaired(3)] show ?thesis
    by (simp add: repaired(1,2) table_rest_def)
next
  case (deploy_failed repaired missing hs e ds u d')
  from rowless_heal [OF deploy_failed(3)] rowless_deploy [OF deploy_failed(5)] show ?thesis
    by (simp add: deploy_failed(1,2) table_rest_def)
next
  case (not_ready repaired missing hs ds healthy notReady ls msg msg' u)
  from health_listing [OF not_ready(6)] obtain r
    where "ls = [ListWorkloads c (kd_name d) r]"
      and "healthy_listing c (kd_name d) (ListWorkloads c (kd_name d) r) = healthy" by blast
  with rowless_heal [OF not_ready(3)] rowless_deploy [OF not_ready(5)] not_ready(7) show ?thesis
    by (simp add: not_ready(1,2) table_rest_def)
next
  case (ready repaired missing hs ds healthy notReady ls iv' msg' u d' msg)
  from health_listing [OF ready(6)] obtain r
    where "ls = [ListWorkloads c (kd_name d) r]"
      and "healthy_listing c (kd_name d) (ListWorkloads c (kd_name d) r) = healthy" by blast
  with rowless_heal [OF ready(3)] rowless_deploy [OF ready(5)] ready(7,8) show ?thesis
    by (simp add: ready(1,2) table_rest_def)
qed

lemma ns_run_table:
  "ns_run c ns d es res \<Longrightarrow>
   if snd res \<noteq> None \<or> dur_pos (requeue_after (fst res)) then res = requeue (30 * go_second) \<and> rowless es
   else rowless es"
  by (erule ns_run.cases) (auto simp: rowless_def)

lemma route_run_table:
  assumes "route_run ((=) iv) ops en cfg d es res"
  shows "res = requeue (table_rest iv es)"
  using assms
proof cases
  case (namespace_stops target region c ns msg)
  with ns_run_table [of c "kd_name d" d ns res] show ?thesis by (auto simp: table_rest_def)
next
  case (deploys target region c ns nres ds msg)
  with ns_run_table [of c "kd_name d" d ns nres] deploy_run_table [of iv ops en c cfg d ds res]
  show ?thesis by (auto simp: table_rest_def split: if_splits)
qed (auto simp: table_rest_def)

lemma rowless_cleanup: "cleanup_run ops en c d es \<Longrightarrow> rowless es"
proof -
  have one: "uninstall_call e \<Longrightarrow> rowless [e]" for e
    by (cases e) (auto simp: rowless_def)
  have "uninstall_post ac rel r us \<Longrightarrow> rowless us" for ac rel r us
    using one by (auto simp: uninstall_post_def rowless_def list_all_iff)
  then show "cleanup_run ops en c d es \<Longrightarrow> rowless es"
    by (erule_tac cleanup_run.cases) (auto simp: rowless_def split: option.splits)
qed

lemma finalizers_changed [simp]:
  "finalizer_name \<notin> set (kd_finalizers (without_finalizer d))"
  "finalizer_name \<in> set (kd_finalizers (with_finalizer d))"
  by (simp_all add: without_finalizer_def with_finalizer_def)

lemma delete_run_table:
  assumes "delete_run ops en cfg d es res"
  shows "res = requeue (table_rest iv es)"
  using assms
  by cases (auto simp: table_rest_def dest!: rowless_cleanup split: sum.splits)

lemma reconcile_run_table:
  assumes "reconcile_run ((=) iv) ops en cfg req es res"
  shows "res = requeue (delay_table iv es)"
proof -
  have rest: "delay_table iv (HomeGet req (Inr d) # es) = table_rest iv es" for d es
    by (simp add: delay_table_def table_rest_def)
  show ?thesis
    using assms
    by cases (auto simp: rest delay_table_def [of _ "[HomeGet _ (Inl _)]"]
      dest!: delete_run_table [where iv = iv] route_run_table simp: table_rest_def)
qed

section \<open>Property\<close>

text \<open>
  C10. A reconciliation returns no error to the work queue, and the delay it asks for is the one of
  the table. In particular a failed read, a failed write of the finalizer, an unavailable edge
  cluster or namespace, a failed check and a failed deployment each have their delay; what fails
  in the clean-up of a deleted object has none.
\<close>

theorem reconcile_delay_table:
  assumes "interval s = None \<or> interval s = Some (read_check_interval en)"
  shows "result_of (reconcile_ced ops en cfg req) s =
    requeue (delay_table (read_check_interval en) (calls (reconcile_ced ops en cfg req) s))"
proof -
  have "reconcile_run ((=) (read_check_interval en)) ops en cfg req
      (calls (reconcile_ced ops en cfg req) s) (result_of (reconcile_ced ops en cfg req) s)"
    by (rule reconcile_runs_good) (use assms in \<open>auto simp: interval_inv_def\<close>)
  then show ?thesis by (rule reconcile_run_table)
qed

theorem reconcile_delay_table_witness:
  "result_of (sample_run live_object (Inr 0)) fresh_sys =
     requeue (delay_table (read_check_interval Map.empty)
       (calls (sample_run live_object (Inr 0)) fresh_sys))"
  by (rule reconcile_delay_table) simp

end
