(* ===== verification/Reconcile_Protocol.thy ===== *)
theory Reconcile_Protocol
  imports Reconcile_Runs
begin

text \<open>
  What a reconciliation promises, as an abstract machine of a few states that knows nothing of Helm
  charts, addresses or texts, and the refinement: the calls of every run of the reconciler, read as
  actions of the machine, are a run of the machine that does not get stuck, and the result the
  reconciler returns is the one that belongs to the state the machine ends in.
\<close>

section \<open>The abstract machine\<close>

text \<open>What was found when the object was read.\<close>

datatype found = Absent | Unreadable | Nameless | Deleting | Owned | Unowned

datatype action =
    Read found
  | SetFinalizer bool
  | DropFinalizer bool
  | Locate bool
  | CreateNs bool
  | Apply bool
  | Observe bool
  | Uninstall bool
  | DeleteNs bool
  | Report string

text \<open>
  \<open>Refused\<close> (no account name), \<open>Adopting\<close> (no finalizer yet), \<open>Routing\<close>, \<open>Unplaced\<close> (no cluster),
  \<open>Placed\<close> and \<open>Prepared\<close> (cluster known, namespace created), \<open>Applied\<close>, \<open>Broken\<close>, \<open>Verified\<close>,
  \<open>Degraded\<close>; \<open>Closing\<close>, \<open>Removing\<close>, \<open>Emptying\<close> and \<open>Closed\<close> on the way of a deletion; and the
  ends \<open>Settled\<close>, \<open>Steady\<close> and \<open>Retry\<close>.
\<close>

datatype mstate =
    Begin | Refused | Adopting | Routing | Unplaced | Placed | Prepared | Applied | Broken
  | Verified | Degraded | Closing | Removing | Emptying | Closed | Settled | Steady | Retry

definition when_phase :: "string \<Rightarrow> string \<Rightarrow> mstate \<Rightarrow> mstate option" where
  "when_phase p q m = (if p = q then Some m else None)"

fun after_read :: "found \<Rightarrow> mstate" where
  "after_read Absent = Settled"
| "after_read Unreadable = Retry"
| "after_read Nameless = Refused"
| "after_read Deleting = Closing"
| "after_read Owned = Routing"
| "after_read Unowned = Adopting"

definition mstep :: "mstate \<Rightarrow> action \<Rightarrow> mstate option" where
  "mstep m a =
     (case m of
        Begin \<Rightarrow> 
           (case a of
              Read k \<Rightarrow> Some (after_read k)
            | _ \<Rightarrow> None)
      | Refused \<Rightarrow> 
           (case a of
              Report p \<Rightarrow> when_phase p phase_error Retry
            | _ \<Rightarrow> None)
      | Adopting \<Rightarrow> 
           (case a of
              SetFinalizer ok \<Rightarrow> Some (if ok then Routing else Retry)
            | _ \<Rightarrow> None)
      | Routing \<Rightarrow> 
           (case a of
              Locate ok \<Rightarrow> Some (if ok then Placed else Unplaced)
            | _ \<Rightarrow> None)
      | Unplaced \<Rightarrow> 
           (case a of
              Report p \<Rightarrow> when_phase p phase_error Retry
            | _ \<Rightarrow> None)
      | Placed \<Rightarrow> 
           (case a of
              CreateNs ok \<Rightarrow> Some (if ok then Prepared else Retry)
            | Apply ok \<Rightarrow> Some (if ok then Applied else Broken)
            | Report p \<Rightarrow> when_phase p phase_error Retry
            | _ \<Rightarrow> None)
      | Prepared \<Rightarrow> 
           (case a of
              Apply ok \<Rightarrow> Some (if ok then Applied else Broken)
            | Report p \<Rightarrow> when_phase p phase_error Retry
            | _ \<Rightarrow> None)
      | Broken \<Rightarrow> 
           (case a of
              Report p \<Rightarrow> when_phase p phase_error Retry
            | _ \<Rightarrow> None)
      | Applied \<Rightarrow> 
           (case a of
              Report p \<Rightarrow> when_phase p phase_pending Retry
            | Observe ok \<Rightarrow> Some (if ok then Verified else Degraded)
            | _ \<Rightarrow> None)
      | Verified \<Rightarrow> 
           (case a of
              Report p \<Rightarrow> when_phase p phase_ready Steady
            | _ \<Rightarrow> None)
      | Degraded \<Rightarrow> 
           (case a of
              Report p \<Rightarrow> when_phase p phase_pending Retry
            | _ \<Rightarrow> None)
      | Closing \<Rightarrow> 
           (case a of
              Locate ok \<Rightarrow> Some (if ok then Removing else Closed)
            | _ \<Rightarrow> None)
      | Removing \<Rightarrow> 
           (case a of
              Uninstall ok \<Rightarrow> Some Emptying
            | DeleteNs ok \<Rightarrow> Some Closed
            | _ \<Rightarrow> None)
      | Emptying \<Rightarrow> 
           (case a of
              DeleteNs ok \<Rightarrow> Some Closed
            | _ \<Rightarrow> None)
      | Closed \<Rightarrow> 
           (case a of
              DropFinalizer ok \<Rightarrow> Some (if ok then Settled else Retry)
            | _ \<Rightarrow> None)
      | _ \<Rightarrow> None)"

fun mrun :: "mstate \<Rightarrow> action list \<Rightarrow> mstate option" where
  "mrun m [] = Some m"
| "mrun m (a # as) = (case mstep m a of None \<Rightarrow> None | Some m' \<Rightarrow> mrun m' as)"

text \<open>The result that belongs to an end; a failed look at the namespace ends a run in \<open>Placed\<close>.\<close>

definition delays :: "duration set" where
  "delays = (\<lambda>n. n * go_second) ` {5, 10, 15, 20, 30, 60}"

fun ends :: "(duration \<Rightarrow> bool) \<Rightarrow> mstate \<Rightarrow> outcome_pair \<Rightarrow> bool" where
  "ends good Settled r \<longleftrightarrow> r = requeue 0"
| "ends good Steady r \<longleftrightarrow> snd r = None \<and> good (requeue_after (fst r))"
| "ends good Retry r \<longleftrightarrow> r = requeue (requeue_after (fst r)) \<and> requeue_after (fst r) \<in> delays"
| "ends good Placed r \<longleftrightarrow> r = requeue (30 * go_second)"
| "ends good _ r \<longleftrightarrow> False"

section \<open>The abstraction of the calls\<close>

definition classify :: "goerr + kdep \<Rightarrow> found" where
  "classify r =
     (case r of
        Inl e \<Rightarrow> if err_reason e = NotFound then Absent else Unreadable
      | Inr d \<Rightarrow>
          if ai_name (kd_account d) = [] then Nameless
          else if om_deletion_timestamp (kd_meta d) \<noteq> None then Deleting
          else if finalizer_name \<in> set (kd_finalizers d) then Owned else Unowned)"

fun action_of :: "effect \<Rightarrow> action option" where
  "action_of (HomeGet _ r) = Some (Read (classify r))"
| "action_of (HomeUpdate d e) =
     Some (if finalizer_name \<in> set (kd_finalizers d) then SetFinalizer (e = None)
           else DropFinalizer (e = None))"
| "action_of (HomeStatusUpdate d _) = Some (Report (st_phase (kd_status d)))"
| "action_of (GetCluster _ r) = Some (Locate (case r of Inl _ \<Rightarrow> False | Inr _ \<Rightarrow> True))"
| "action_of (NsCreate _ _ e) = Some (CreateNs (e = None))"
| "action_of (NsDelete _ _ e) = Some (DeleteNs (e = None))"
| "action_of (HelmInstall _ _ _ _ _ e) = Some (Apply (e = None))"
| "action_of (HelmUpgrade _ _ _ _ _ e) = Some (Apply (e = None))"
| "action_of (HelmUninstall _ _ _ e) = Some (Uninstall (e = None))"
| "action_of (ListWorkloads c ns r) =
     Some (Observe (healthy_listing c ns (ListWorkloads c ns r)))"
| "action_of _ = None"

definition actions :: "effect list \<Rightarrow> action list" where
  "actions es = List.map_filter action_of es"

lemma actions_simps [simp]:
  "actions [] = []"
  "actions (e # es) = (case action_of e of None \<Rightarrow> actions es | Some a \<Rightarrow> a # actions es)"
  "actions (xs @ ys) = actions xs @ actions ys"
  by (simp_all add: actions_def List.map_filter_def split: option.splits)

lemmas mstep_simps [simp] = mstep_def [of Begin] mstep_def [of Refused] mstep_def [of Adopting]
  mstep_def [of Routing] mstep_def [of Unplaced] mstep_def [of Placed] mstep_def [of Prepared]
  mstep_def [of Broken] mstep_def [of Applied] mstep_def [of Verified] mstep_def [of Degraded]
  mstep_def [of Closing] mstep_def [of Removing] mstep_def [of Emptying] mstep_def [of Closed]

lemma mrun_append [simp]:
  "mrun m (as @ bs) = (case mrun m as of None \<Rightarrow> None | Some m' \<Rightarrow> mrun m' bs)"
  by (induction as arbitrary: m) (auto split: option.splits)

section \<open>The refinement\<close>

lemma heal_call_action:
  "heal_call e \<Longrightarrow> action_of e = (if edge_write e then Some (Apply (apply_succeeded e)) else None)"
  by (cases e) (simp_all add: heal_call_def)

lemma actions_heal_calls:
  "list_all heal_call es \<Longrightarrow> list_all (\<lambda>e. \<not> edge_write e) es \<Longrightarrow> actions es = []"
  by (induction es) (simp_all add: heal_call_action)

lemma actions_last:
  assumes "list_all heal_call es" and "list_all (\<lambda>e. \<not> edge_write e) (butlast es)" and "es \<noteq> []"
  shows "actions es = (if edge_write (last es) then [Apply (apply_succeeded (last es))] else [])"
  using assms
  by (cases es rule: rev_cases) (simp_all add: actions_heal_calls heal_call_action)

lemma applied_ok_edge_write: "applied_ok ac ns rel e \<Longrightarrow> edge_write e"
  by (cases e) simp_all

lemma actions_heal_error:
  assumes "heal_post ac ns rel (repaired, missing, Some e) es"
  shows "actions es = (if edge_write (last es) then [Apply False] else [])"
  using assms actions_last [of es] by (auto simp: heal_post_def)

lemma actions_heal_ok:
  assumes "heal_post ac ns rel (repaired, missing, None) es"
  shows "actions es = (if repaired then [Apply True] else [])"
  using assms actions_last [of es] applied_ok_edge_write [of ac ns rel "last es"]
  by (auto simp: heal_post_def)

lemma actions_deploy_post:
  assumes "deploy_post ac ns rel url err es"
  shows "actions es =
    (if err = None then [Apply True] else if edge_write (last es) then [Apply False] else [])"
proof -
  have "list_all heal_call es"
    using assms by (auto simp: deploy_post_def list_all_iff heal_call_def)
  then show ?thesis
    using assms actions_last [of es] applied_ok_edge_write [of ac ns rel "last es"]
    by (auto simp: deploy_post_def)
qed

lemma actions_health_post:
  "health_post c ns (healthy, notReady) es \<Longrightarrow> actions es = [Observe healthy]"
  by (auto simp: health_post_def)

lemma delays_in [simp]:
  "5 * go_second \<in> delays" "10 * go_second \<in> delays" "15 * go_second \<in> delays"
  "20 * go_second \<in> delays" "30 * go_second \<in> delays" "60 * go_second \<in> delays"
  by (simp_all add: delays_def)

lemma ends_Retry [simp]: "ends good Retry (requeue d) \<longleftrightarrow> d \<in> delays"
  by simp

lemma deploy_run_refines:
  assumes "deploy_run good ops en c cfg d es res" and "m = Placed \<or> m = Prepared"
  shows "\<exists>m'. mrun m (actions es) = Some m' \<and> ends good m' res"
  using assms
  by cases (auto simp: actions_heal_error actions_heal_ok actions_deploy_post actions_health_post
    when_phase_def)

lemma ns_run_refines:
  "ns_run c ns d es res \<Longrightarrow>
   snd res = None \<and>
   (if dur_pos (requeue_after (fst res))
    then \<exists>m'. mrun Placed (actions es) = Some m' \<and> ends good m' res
    else \<exists>m'. mrun Placed (actions es) = Some m' \<and> (m' = Placed \<or> m' = Prepared))"
  by (erule ns_run.cases) simp_all

lemma route_run_refines:
  assumes "route_run good ops en cfg d es res"
  shows "\<exists>m'. mrun Routing (actions es) = Some m' \<and> ends good m' res"
  using assms
proof cases
  case (deploys target region c ns nres ds msg)
  from ns_run_refines [OF deploys(3), of good] deploys(4)
  obtain m where m: "mrun Placed (actions ns) = Some m" "m = Placed \<or> m = Prepared" by auto
  from deploy_run_refines [OF deploys(5) m(2)] deploys(1,2) m(1) show ?thesis by simp
qed (auto simp: when_phase_def dest!: ns_run_refines [where good = good] split: if_splits)

lemma actions_cleanup_run:
  assumes "cleanup_run ops en c d es"
  shows "mrun Removing (actions es) = Some Closed"
proof -
  have quiet: "actions us = []" if "list_all uninstall_call us" "list_all (\<lambda>e. \<not> edge_write e) us" for us
  proof -
    have "action_of e = None" if "uninstall_call e" "\<not> edge_write e" for e
      using that by (cases e) simp_all
    with that show ?thesis by (induction us) simp_all
  qed
  have "actions us = [] \<or> (\<exists>ok. actions us = [Uninstall ok])" if "uninstall_post ac rel r us" for ac rel r us
  proof (cases us rule: rev_cases)
    case (snoc vs u)
    with that have "actions vs = []" "uninstall_call u" by (auto simp: uninstall_post_def quiet)
    with snoc show ?thesis by (cases u) simp_all
  qed simp
  with assms show ?thesis
    by cases (fastforce split: option.splits)+
qed

lemma finalizer_simps [simp]:
  "finalizer_name \<in> set (kd_finalizers (with_finalizer d))"
  "finalizer_name \<notin> set (kd_finalizers (without_finalizer d))"
  by (simp_all add: with_finalizer_def without_finalizer_def)

lemma delete_run_refines:
  assumes "delete_run ops en cfg d es res"
  shows "\<exists>m'. mrun Closing (actions es) = Some m' \<and> ends good m' res"
  using assms
  by cases (auto simp: actions_cleanup_run split: sum.splits)

theorem reconcile_run_refines:
  assumes "reconcile_run good ops en cfg req es res"
  shows "\<exists>m. mrun Begin (actions es) = Some m \<and> ends good m res"
  using assms
  by cases (auto simp: classify_def when_phase_def dest: delete_run_refines route_run_refines)

text \<open>
  C5. Every run of the reconciler, seen through its actions, is a run of the abstract machine, and
  its result is the one of the end the machine reaches.
\<close>

theorem reconcile_refines_machine:
  "\<exists>m. mrun Begin (actions (calls (reconcile_ced ops en cfg req) s)) = Some m \<and>
     ends (\<lambda>_. True) m (result_of (reconcile_ced ops en cfg req) s)"
  by (rule reconcile_run_refines [OF reconcile_runs])

end
