(* ===== verification/Reconcile_Progress.thy ===== *)
theory Reconcile_Progress
  imports Reconcile_Runs Example_World
begin

text \<open>
  Progress: in an environment that answers every call the way the handlers hope for, one run takes
  a live deployment all the way to \<open>Ready\<close>.
\<close>

section \<open>Runs without trouble\<close>

text \<open>A smooth call; a listing of Deployments must also show every one of them available.\<close>

fun steady :: "effect \<Rightarrow> bool" where
  "steady (ListWorkloads c ns r) \<longleftrightarrow> healthy_listing c ns (ListWorkloads c ns r)"
| "steady e \<longleftrightarrow> smooth e"

lemma steady_smooth: "list_all steady es \<Longrightarrow> list_all smooth es"
proof -
  have "steady e \<Longrightarrow> smooth e" for e by (cases e) simp_all
  then show "list_all steady es \<Longrightarrow> list_all smooth es" by (simp add: list_all_iff)
qed

lemma heal_post_steady:
  "heal_post ac ns rel (repaired, missing, err) es \<Longrightarrow> list_all steady es \<Longrightarrow> \<not> repaired \<and> err = None"
  by (auto simp: heal_post_def dest: steady_smooth)

lemma deploy_post_steady:
  "deploy_post ac ns rel url err es \<Longrightarrow> list_all steady es \<Longrightarrow> err = None"
  by (auto simp: deploy_post_def dest: steady_smooth)

lemma health_post_steady:
  "health_post c ns (healthy, notReady) es \<Longrightarrow> list_all steady es \<Longrightarrow> healthy"
  by (auto simp: health_post_def)

lemmas steady_posts = heal_post_steady deploy_post_steady health_post_steady

lemma deploy_run_steady:
  assumes "deploy_run good ops en c cfg d es res" and "list_all steady es"
  shows "\<exists>iv u. HomeStatusUpdate (ready_object ops cfg d) u \<in> set es \<and> res = requeue iv \<and> good iv"
  using assms by cases (auto dest: steady_posts)

lemma ns_run_steady:
  "ns_run c ns d es res \<Longrightarrow> list_all steady es \<Longrightarrow> res = requeue 0"
  by (erule ns_run.cases) auto

lemma route_run_steady:
  assumes "route_run good ops en cfg d es res" and "list_all steady es"
  shows "\<exists>iv u. HomeStatusUpdate (ready_object ops cfg d) u \<in> set es \<and> res = requeue iv \<and> good iv"
  using assms(1)
proof cases
  case (namespace_stops target region c ns msg)
  with assms(2) ns_run_steady [of c "kd_name d" d ns res] show ?thesis by simp
next
  case (deploys target region c ns nres ds msg)
  with assms(2) deploy_run_steady [of good ops en c cfg d ds res] show ?thesis by auto
qed (use assms(2) in simp)

lemma reconcile_run_steady:
  assumes "reconcile_run good ops en cfg req es res" and "list_all steady es"
    and "HomeGet req (Inr d) = hd es" and "ai_name (kd_account d) \<noteq> []"
    and "om_deletion_timestamp (kd_meta d) = None"
  shows "\<exists>d' iv u. HomeStatusUpdate (ready_object ops cfg d') u \<in> set es \<and>
    res = requeue iv \<and> good iv"
  using assms
  by cases (auto dest!: route_run_steady)

section \<open>Property\<close>

text \<open>
  C6. A run of a live deployment with an account name, all of whose calls are answered well (the
  release is there, nothing of it is missing, the chart can be fetched and applied, the Deployments
  are available), reports \<open>Ready\<close> and comes back after the configured interval.
\<close>

theorem reconcile_steady_reaches_ready:
  assumes "HomeGet req (Inr d) = hd (calls (reconcile_ced ops en cfg req) s)"
    and "ai_name (kd_account d) \<noteq> []" and "om_deletion_timestamp (kd_meta d) = None"
    and "list_all steady (calls (reconcile_ced ops en cfg req) s)"
    and "interval s = None \<or> interval s = Some (read_check_interval en)"
  shows "\<exists>d' u. HomeStatusUpdate (ready_object ops cfg d') u
      \<in> set (calls (reconcile_ced ops en cfg req) s) \<and>
    result_of (reconcile_ced ops en cfg req) s = requeue (read_check_interval en)"
proof -
  have "reconcile_run ((=) (read_check_interval en)) ops en cfg req
      (calls (reconcile_ced ops en cfg req) s) (result_of (reconcile_ced ops en cfg req) s)"
    by (rule reconcile_runs_good) (use assms(5) in \<open>auto simp: interval_inv_def\<close>)
  from reconcile_run_steady [OF this assms(4,1,2,3)] show ?thesis by blast
qed

lemma steady_sample_run:
  "HomeGet sample_request (Inr live_object)
     = hd (calls (sample_run live_object (Inr 0)) fresh_sys)"
  "list_all steady (calls (sample_run live_object (Inr 0)) fresh_sys)"
  by (simp_all add: handler_defs healthy_listing_def)

theorem reconcile_steady_reaches_ready_witness:
  "\<exists>d' u. HomeStatusUpdate (ready_object (sample_ops (Inr live_object) (Inr 0) None) sample_config d') u
      \<in> set (calls (sample_run live_object (Inr 0)) fresh_sys) \<and>
    result_of (sample_run live_object (Inr 0)) fresh_sys = requeue (read_check_interval Map.empty)"
  by (rule reconcile_steady_reaches_ready [OF steady_sample_run(1) _ _ steady_sample_run(2)])
    simp_all

end
