(* ===== verification/Secret_Provider.thy ===== *)
theory Secret_Provider
  imports Go_Effects "HOL-Library.AList"
begin

text \<open>
  \<open>multicluster/secretprovider/provider.go\<close>: the provider that turns the name of a cluster into a
  running cluster object, lazily, from a kubeconfig Secret. Its map of clusters is an association
  list. \<open>Get\<close> holds the provider's mutex from its first statement to its last, so concurrent calls
  are sequences of whole calls. The Secret read, the kubeconfig loader and the cluster
  constructor are external and are fields of \<open>pops\<close>. The locale \<open>cluster_cache\<close> is the contract
  between a provider and the manager that calls it; the provider is its interpretation.
\<close>

section \<open>The model\<close>

type_synonym secret_data = "string \<rightharpoonup> string"

record raw_config =
  raw_current_context :: string
  raw_handle :: nat

record 'w pops =
  secret_get :: "nsname \<Rightarrow> 'w \<Rightarrow> (goerr + secret_data) \<times> 'w"
  kc_load :: "string \<Rightarrow> goerr + raw_config"
  kc_client_config :: "raw_config \<Rightarrow> config_overrides \<Rightarrow> goerr + rest_config"
  cluster_new :: "rest_config \<Rightarrow> scheme \<Rightarrow> 'w \<Rightarrow> (goerr + cluster) \<times> 'w"

record provider =
  pv_scheme :: scheme
  pv_namespace :: string
  pv_clusters :: "(string \<times> cluster) list"

definition new_provider :: "scheme \<Rightarrow> string \<Rightarrow> provider" where
  "new_provider sch ns = \<lparr>pv_scheme = sch, pv_namespace = ns, pv_clusters = []\<rparr>"

text \<open>The namespace and name of the Secret that a cluster name stands for.\<close>

definition secret_key :: "string \<Rightarrow> string \<Rightarrow> nsname" where
  "secret_key def_ns name =
     (if str_contains name ''/'' then
        (case split_n 2 name ''/'' of
           [a, b] \<Rightarrow>
             (if a \<noteq> [] \<and> b \<noteq> [] then \<lparr>nn_namespace = a, nn_name = b\<rparr>
              else \<lparr>nn_namespace = def_ns, nn_name = name\<rparr>)
         | _ \<Rightarrow> \<lparr>nn_namespace = def_ns, nn_name = name\<rparr>)
      else \<lparr>nn_namespace = def_ns, nn_name = name\<rparr>)"

definition build_config :: "'w pops \<Rightarrow> string \<Rightarrow> goerr + rest_config" where
  "build_config po kubeconfig =
     (case kc_load po kubeconfig of
        Inl e \<Rightarrow> Inl e
      | Inr raw \<Rightarrow> kc_client_config po raw no_overrides)"

definition provider_get ::
  "'w pops \<Rightarrow> string \<Rightarrow> provider \<times> 'w \<Rightarrow> (goerr + cluster) \<times> (provider \<times> 'w)" where
  "provider_get po name st =
     (case st of (p, w) \<Rightarrow>
       (case map_of (pv_clusters p) name of
          Some cl \<Rightarrow> (Inr cl, (p, w))
        | None \<Rightarrow>
           (let key = secret_key (pv_namespace p) name;
                id = nn_namespace key @ ''/'' @ nn_name key
            in case secret_get po key w of (r, w1) \<Rightarrow>
              (case r of
                 Inl e \<Rightarrow>
                   (if is_not_found (Some e)
                    then (Inl (new_err (''cluster secret '' @ id @ '' not found'')), (p, w1))
                    else (Inl (wrap_err (''error getting secret '' @ id @ '': '') e), (p, w1)))
               | Inr sec \<Rightarrow>
                   (case sec ''kubeconfig'' of
                      None \<Rightarrow>
                        (Inl (new_err (''secret '' @ id @ '' missing kubeconfig key'')), (p, w1))
                    | Some kc \<Rightarrow>
                       if kc = [] then
                         (Inl (new_err (''secret '' @ id @ '' missing kubeconfig key'')), (p, w1))
                       else
                         (case build_config po kc of
                            Inl e \<Rightarrow> (Inl (wrap_err ''failed building rest config: '' e), (p, w1))
                          | Inr cfg \<Rightarrow>
                             (case cluster_new po cfg (pv_scheme p) w1 of (rc, w2) \<Rightarrow>
                               (case rc of
                                  Inl e \<Rightarrow> (Inl (wrap_err ''failed creating cluster: '' e), (p, w2))
                                | Inr cl \<Rightarrow>
                                   (Inr cl,
                                    (p\<lparr>pv_clusters := AList.update name cl (pv_clusters p)\<rparr>,
                                     w2))))))))))"

text \<open>
  \<open>List\<close> ranges over a Go map, whose order is unspecified: only which names the list holds, and
  that none is repeated, carries over to the code.
\<close>

definition provider_list :: "provider \<Rightarrow> string list" where
  "provider_list p = map fst (pv_clusters p)"

text \<open>The hooks that do nothing.\<close>

definition provider_index_field :: "provider \<Rightarrow> goerr option" where
  "provider_index_field p = None"

definition provider_setup_with_manager :: "provider \<Rightarrow> goerr option" where
  "provider_setup_with_manager p = None"

text \<open>\<open>Start\<close> waits for the end of its context and returns the context's error.\<close>

definition provider_start :: "goerr \<Rightarrow> goerr option" where
  "provider_start ctx_err = Some ctx_err"

section \<open>The contract of a cluster cache\<close>

locale cluster_cache =
  fixes get :: "string \<Rightarrow> 's \<Rightarrow> (goerr + cluster) \<times> 's"
    and known :: "'s \<Rightarrow> string \<rightharpoonup> cluster"
  assumes hit: "known s k = Some c \<Longrightarrow> get k s = (Inr c, s)"
    and miss_ok: "known s k = None \<Longrightarrow> get k s = (Inr c, s') \<Longrightarrow> known s' = (known s)(k \<mapsto> c)"
    and miss_fail: "known s k = None \<Longrightarrow> get k s = (Inl e, s') \<Longrightarrow> known s' = known s"
begin

fun gets :: "string list \<Rightarrow> 's \<Rightarrow> 's" where
  "gets [] s = s"
| "gets (k # ks) s = gets ks (snd (get k s))"

lemma get_known:
  assumes "get k s = (Inr c, s')"
  shows "known s' k = Some c"
proof (cases "known s k")
  case None
  with assms show ?thesis by (simp add: miss_ok)
next
  case (Some d)
  with assms hit [OF Some] show ?thesis by simp
qed

lemma get_keeps:
  assumes "known s j = Some c"
  shows "known (snd (get k s)) j = Some c"
proof (cases "known s k")
  case None
  obtain r s' where g: "get k s = (r, s')" by (cases "get k s")
  show ?thesis
  proof (cases r)
    case (Inl e)
    with g None assms show ?thesis by (simp add: miss_fail)
  next
    case (Inr d)
    with None assms have "j \<noteq> k" by auto
    with g Inr None assms show ?thesis by (simp add: miss_ok)
  qed
next
  case (Some d)
  with assms show ?thesis by (simp add: hit [OF Some])
qed

lemma gets_keeps: "known s j = Some c \<Longrightarrow> known (gets ks s) j = Some c"
  by (induction ks arbitrary: s) (auto intro: get_keeps)

text \<open>Once a name has been resolved it is resolved for good, to the same cluster.\<close>

lemma get_stable:
  assumes "get k s = (Inr c, s')"
  shows "get k (gets ks s') = (Inr c, gets ks s')"
  using assms get_known gets_keeps hit by blast

text \<open>What a sequence of lookups answers, each with the name asked for.\<close>

fun answers :: "string list \<Rightarrow> 's \<Rightarrow> (string \<times> (goerr + cluster)) list" where
  "answers [] s = []"
| "answers (k # ks) s = (k, fst (get k s)) # answers ks (snd (get k s))"

lemma known_after_get:
  "known (snd (get k s)) j = Some c \<longleftrightarrow> known s j = Some c \<or> j = k \<and> fst (get k s) = Inr c"
proof (cases "known s k")
  case None
  then show ?thesis
    using miss_ok [OF None] miss_fail [OF None]
    by (cases "get k s"; cases "fst (get k s)") auto
next
  case (Some d)
  from hit [OF Some] Some show ?thesis by auto
qed

text \<open>The cache holds what it held before and what the lookups answered, and nothing else.\<close>

lemma known_iff_answered:
  "known (gets ks s) j = Some c \<longleftrightarrow> known s j = Some c \<or> (j, Inr c) \<in> set (answers ks s)"
  by (induction ks arbitrary: s) (auto simp: known_after_get)

lemma failed_get_changes_nothing:
  assumes "get k s = (Inl e, s')"
  shows "known s' = known s"
proof (cases "known s k")
  case None
  then show ?thesis using assms by (rule miss_fail)
next
  case (Some c)
  with assms hit [OF Some] show ?thesis by simp
qed

end

definition provider_known :: "provider \<times> 'w \<Rightarrow> string \<rightharpoonup> cluster" where
  "provider_known st = map_of (pv_clusters (fst st))"

lemma provider_get_hit:
  "provider_known st k = Some c \<Longrightarrow> provider_get po k st = (Inr c, st)"
  by (cases st) (simp add: provider_get_def provider_known_def)

lemma provider_get_miss:
  assumes "map_of (pv_clusters p) k = None"
  obtains (failed) e w' where "provider_get po k (p, w) = (Inl e, (p, w'))"
  | (made) c w' where "provider_get po k (p, w) =
      (Inr c, (p\<lparr>pv_clusters := AList.update k c (pv_clusters p)\<rparr>, w'))"
proof -
  obtain r w1 where sg: "secret_get po (secret_key (pv_namespace p) k) w = (r, w1)"
    by (cases "secret_get po (secret_key (pv_namespace p) k) w")
  note unf = provider_get_def prod.case assms option.case Let_def sg
  show thesis
  proof (cases r)
    case (Inl e)
    show thesis
      by (cases "is_not_found (Some e)"; rule failed; simp only: unf Inl sum.case if_True if_False)
  next
    case (Inr sec)
    show thesis
    proof (cases "sec ''kubeconfig''")
      case None
      show thesis by (rule failed) (simp only: unf Inr sum.case None)
    next
      case (Some kc)
      show thesis
      proof (cases "kc = []"; cases "build_config po kc")
        fix e
        assume kc: "kc \<noteq> []" and e: "build_config po kc = Inl e"
        show thesis by (rule failed) (simp only: unf Inr sum.case Some kc e if_False)
      next
        fix cfg
        assume cfg: "kc \<noteq> []" "build_config po kc = Inr cfg"
        obtain rc w2 where cn: "cluster_new po cfg (pv_scheme p) w1 = (rc, w2)"
          by (cases "cluster_new po cfg (pv_scheme p) w1")
        show thesis
          by (cases rc; (rule failed made; simp only: unf Inr sum.case Some cfg cn if_False))
      qed (rule failed, simp only: unf Inr sum.case Some simp_thms if_True)+
    qed
  qed
qed

lemma provider_get_miss_state:
  assumes "provider_known st k = None" and "provider_get po k st = (r, st')"
  shows "case r of
      Inl _ \<Rightarrow> fst st' = fst st
    | Inr c \<Rightarrow> fst st' = (fst st)\<lparr>pv_clusters := AList.update k c (pv_clusters (fst st))\<rparr>"
proof -
  obtain p w where st: "st = (p, w)" by (cases st)
  with assms(1) have "map_of (pv_clusters p) k = None" by (simp add: provider_known_def)
  then show ?thesis
    using assms(2) unfolding st by (cases rule: provider_get_miss [of p k po w]) auto
qed

lemma provider_known_miss:
  assumes "provider_known st k = None" and "provider_get po k st = (r, st')"
  shows "provider_known st' =
    (case r of Inl _ \<Rightarrow> provider_known st | Inr c \<Rightarrow> (provider_known st)(k \<mapsto> c))"
  using provider_get_miss_state [OF assms]
  by (cases r) (simp_all add: provider_known_def update_conv')

interpretation pc: cluster_cache "provider_get po" provider_known for po
proof unfold_locales
  show "provider_known s k = Some c \<Longrightarrow> provider_get po k s = (Inr c, s)" for s k c
    by (rule provider_get_hit)
  show "provider_known s k = None \<Longrightarrow> provider_get po k s = (Inr c, s') \<Longrightarrow>
      provider_known s' = (provider_known s)(k \<mapsto> c)" for s k c s'
    using provider_known_miss [of s k po "Inr c" s'] by simp
  show "provider_known s k = None \<Longrightarrow> provider_get po k s = (Inl e, s') \<Longrightarrow>
      provider_known s' = provider_known s" for s k e s'
    using provider_known_miss [of s k po "Inl e" s'] by simp
qed

section \<open>Keys and lists\<close>

lemma secret_key_plain: "CHR ''/'' \<notin> set name \<Longrightarrow>
    secret_key ns name = \<lparr>nn_namespace = ns, nn_name = name\<rparr>"
  by (simp add: secret_key_def str_contains_def str_index_single_None)

lemma secret_key_namespaced:
  assumes "CHR ''/'' \<notin> set a" and "a \<noteq> []" and "b \<noteq> []"
  shows "secret_key ns (a @ ''/'' @ b) = \<lparr>nn_namespace = a, nn_name = b\<rparr>"
  using assms
  by (simp add: secret_key_def str_contains_def str_index_single split_n_2_slash)

lemma secret_key_empty_namespace:
  "secret_key ns (''/'' @ b) = \<lparr>nn_namespace = ns, nn_name = ''/'' @ b\<rparr>"
  using split_n_2_slash [of "CHR ''/''" "[]" b]
  by (simp add: secret_key_def str_contains_def)

text \<open>The association list stays a map: no name is on it twice.\<close>

lemma provider_list_distinct:
  assumes "distinct (provider_list p)"
  shows "distinct (provider_list (fst (snd (provider_get po k (p, w)))))"
proof (cases "provider_known (p, w) k")
  case None
  obtain r st' where g: "provider_get po k (p, w) = (r, st')"
    by (cases "provider_get po k (p, w)")
  show ?thesis
    using provider_get_miss_state [OF None g] assms
    by (auto simp: g provider_list_def distinct_update split: sum.splits)
next
  case (Some c)
  with assms show ?thesis by (simp add: provider_get_hit)
qed

section \<open>Properties\<close>

text \<open>A provider that finds a kubeconfig in every Secret.\<close>

definition sample_pops :: "unit pops" where
  "sample_pops =
     \<lparr>secret_get = \<lambda>_ w. (Inr [''kubeconfig'' \<mapsto> ''kc''], w),
      kc_load = \<lambda>_. Inr \<lparr>raw_current_context = [], raw_handle = 0\<rparr>,
      kc_client_config = \<lambda>_ _. Inr \<lparr>rc_host = ''https://edge'', rc_handle = 0\<rparr>,
      cluster_new = \<lambda>_ _ w. (Inr 7, w)\<rparr>"

text \<open>
  C23. A cluster, once resolved, is resolved to the same object for good: no later change of the
  Secret is seen, whatever the provider is asked in between.
\<close>

theorem provider_get_stable:
  assumes "provider_get po k st = (Inr c, st')"
  shows "provider_get po k (pc.gets po ks st') = (Inr c, pc.gets po ks st')"
  by (rule pc.get_stable [OF assms])

theorem provider_get_stable_witness:
  "provider_get sample_pops ''eu'' (pc.gets sample_pops [''us'']
      (\<lparr>pv_scheme = [], pv_namespace = ''ns'', pv_clusters = [(''eu'', 7)]\<rparr>, ())) =
    (Inr 7, pc.gets sample_pops [''us''] (\<lparr>pv_scheme = [], pv_namespace = ''ns'', pv_clusters = [(''eu'', 7)]\<rparr>, ()))"
  by (rule provider_get_stable [of sample_pops "''eu''" "(new_provider [] ''ns'', ())"])
    (simp add: provider_get_def new_provider_def sample_pops_def build_config_def)

lemma provider_get_error_state:
  assumes "provider_get po k st = (Inl e, st')"
  shows "fst st' = fst st"
proof (cases "provider_known st k")
  case None
  from provider_get_miss_state [OF None assms] show ?thesis by simp
next
  case (Some c)
  with assms show ?thesis by (simp add: provider_get_hit)
qed

text \<open>
  A failed lookup leaves the provider as it was, so the next one for that name reads the Secret
  again: failures are not cached.
\<close>

theorem provider_failures_not_cached:
  assumes "provider_get po k st = (Inl e, st')"
  shows "fst st' = fst st \<and> provider_known st' k = None"
proof -
  have "provider_known st k = None"
    using assms provider_get_hit [of st k _ po] by (cases "provider_known st k") auto
  with provider_get_error_state [OF assms] show ?thesis
    by (simp add: provider_known_def)
qed

theorem provider_failures_not_cached_witness:
  "provider_known (new_provider [] ''ns'', ()) ''eu'' = None"
  using provider_failures_not_cached
    [of "sample_pops\<lparr>cluster_new := \<lambda>_ _ w. (Inl (new_err ''down''), w)\<rparr>" "''eu''"
      "(new_provider [] ''ns'', ())" "wrap_err ''failed creating cluster: '' (new_err ''down'')"
      "(new_provider [] ''ns'', ())"]
  by (simp add: provider_get_def new_provider_def sample_pops_def build_config_def)

text \<open>
  C24. After any sequence of lookups by a new provider, a name is held with a cluster exactly when
  some lookup of that name was answered with that cluster, and the list names exactly the names
  of which a lookup succeeded.
\<close>

theorem provider_list_exact:
  "(provider_known (pc.gets po ks (new_provider sch ns, w)) k = Some c \<longleftrightarrow>
      (k, Inr c) \<in> set (pc.answers po ks (new_provider sch ns, w))) \<and>
   set (provider_list (fst (pc.gets po ks (new_provider sch ns, w)))) =
     {k. \<exists>c. (k, Inr c) \<in> set (pc.answers po ks (new_provider sch ns, w))}"
proof -
  have known: "provider_known (pc.gets po ks (new_provider sch ns, w)) k = Some c \<longleftrightarrow>
      (k, Inr c) \<in> set (pc.answers po ks (new_provider sch ns, w))" for k c
    by (simp add: pc.known_iff_answered) (simp add: provider_known_def new_provider_def)
  have "set (provider_list p) = {k. \<exists>c. map_of (pv_clusters p) k = Some c}" for p
  proof -
    have "set (provider_list p) = dom (map_of (pv_clusters p))"
      by (simp add: provider_list_def dom_map_of_conv_image_fst)
    then show ?thesis by (auto simp: dom_def)
  qed
  with known show ?thesis by (simp add: provider_known_def)
qed

end
