(* ===== verification/Watch_Config.thy ===== *)
theory Watch_Config
  imports Secret_Provider
begin

text \<open>
  The configuration of the operator: flags and their environment fallbacks (the first part of
  \<open>RunKryptonOperator\<close>), \<open>setupHelmEnv\<close>, the watch scope, the cache options of
  \<open>createHomeManager\<close>, \<open>buildWatchConfig\<close> and \<open>truncatePath\<close>. The values of the flags come from the
  \<open>flag\<close> package and the namespace file from the pod, so both are arguments. \<open>client-go\<close>'s kubeconfig
  loaders are external.
\<close>

section \<open>Flags and environment\<close>

record flags =
  fl_namespace :: string
  fl_watch_namespaces :: string
  fl_watch_context :: string
  fl_ensure_watch_crds :: bool
  fl_secret_name :: string
  fl_secret_namespace :: string
  fl_secret_key :: string
  fl_chart_repo :: string
  fl_chart_name :: string
  fl_chart_version :: string

definition default_flags :: flags where
  "default_flags =
     \<lparr>fl_namespace = [], fl_watch_namespaces = [], fl_watch_context = [],
      fl_ensure_watch_crds = False, fl_secret_name = [], fl_secret_namespace = [],
      fl_secret_key = ''kubeconfig'',
      fl_chart_repo = ''https://charts.jetstack.io'', fl_chart_name = ''cert-manager'',
      fl_chart_version = ''1.19.1''\<rparr>"

text \<open>The local variables of \<open>RunKryptonOperator\<close> once the fallbacks are applied.\<close>

record settings =
  se_namespace :: string
  se_watch_namespaces :: string
  se_secret_label :: string
  se_provider_key :: string
  se_watch_kubeconfig :: string
  se_watch_context :: string
  se_ensure_watch_crds :: bool
  se_secret_name :: string
  se_secret_namespace :: string
  se_secret_key :: string

text \<open>\<open>if v := os.Getenv(k); v != "" { x = v }\<close>.\<close>

definition env_or :: "env \<Rightarrow> string \<Rightarrow> string \<Rightarrow> string" where
  "env_or en k x = (if getenv en k \<noteq> [] then getenv en k else x)"

text \<open>\<open>ns_file\<close> is the content of the service account's namespace file, \<open>None\<close> if it cannot be read.\<close>

definition own_namespace :: "env \<Rightarrow> string option \<Rightarrow> string \<Rightarrow> string" where
  "own_namespace en ns_file flag_value =
     (if getenv en ''WATCH_NAMESPACE'' \<noteq> [] then getenv en ''WATCH_NAMESPACE''
      else if getenv en ''POD_NAMESPACE'' \<noteq> [] then getenv en ''POD_NAMESPACE''
      else (case ns_file of
              None \<Rightarrow> flag_value
            | Some b \<Rightarrow> if b \<noteq> [] then b else flag_value))"

definition read_settings :: "flags \<Rightarrow> env \<Rightarrow> string option \<Rightarrow> settings" where
  "read_settings fl en ns_file =
     (let namespace = own_namespace en ns_file (fl_namespace fl);
          secret_ns = env_or en ''WATCH_KUBECONFIG_SECRET_NAMESPACE'' (fl_secret_namespace fl);
          ensure = getenv en ''ENSURE_WATCH_CRDS''
      in \<lparr>se_namespace = namespace,
          se_watch_namespaces = env_or en ''WATCH_NAMESPACES'' (fl_watch_namespaces fl),
          se_secret_label = env_or en ''KUBECONFIG_SECRET_LABEL'' [],
          se_provider_key = env_or en ''KUBECONFIG_SECRET_KEY'' [],
          se_watch_kubeconfig =
            (if getenv en ''WATCH_KUBECONFIG'' \<noteq> [] then getenv en ''WATCH_KUBECONFIG''
             else env_or en ''WATCH_CLUSTER_KUBECONFIG'' []),
          se_watch_context = env_or en ''WATCH_CONTEXT'' (fl_watch_context fl),
          se_ensure_watch_crds =
            (if ensure = ''true'' \<or> ensure = ''1'' \<or> ensure = ''yes'' then True
             else fl_ensure_watch_crds fl),
          se_secret_name = env_or en ''WATCH_KUBECONFIG_SECRET'' (fl_secret_name fl),
          se_secret_namespace = (if secret_ns = [] then namespace else secret_ns),
          se_secret_key = env_or en ''WATCH_KUBECONFIG_SECRET_KEY'' (fl_secret_key fl)\<rparr>)"

text \<open>\<open>setupHelmEnv\<close>: defaults for Helm's variables.\<close>

definition set_default :: "string \<Rightarrow> string \<Rightarrow> env \<Rightarrow> env" where
  "set_default k v en = (if getenv en k = [] then en(k \<mapsto> v) else en)"

definition setup_helm_env :: "env \<Rightarrow> env" where
  "setup_helm_env en =
     set_default ''HELM_DRIVER'' ''secret''
       (set_default ''HELM_REGISTRY_CONFIG'' ''/.config/helm/registry.json''
         (set_default ''HELM_REPOSITORY_CACHE'' ''/.cache/helm/repository''
           (set_default ''HELM_REPOSITORY_CONFIG'' ''/.config/helm/repositories.yaml'' en)))"

section \<open>Watch scope\<close>

fun collect_names :: "string list \<Rightarrow> string list \<Rightarrow> string list" where
  "collect_names [] acc = acc"
| "collect_names (p # ps) acc =
     (let n = trim_space p in if n \<noteq> [] then collect_names ps (acc @ [n]) else collect_names ps acc)"

definition watch_scope :: "string \<Rightarrow> string list" where
  "watch_scope watch_namespaces =
     (let ws = trim_space watch_namespaces
      in if ws \<noteq> [] \<and> ws \<noteq> ''*'' then collect_names (split_char (CHR '','') ws) [] else [])"

definition watch_mode :: "string list \<Rightarrow> string" where
  "watch_mode ns = (if ns \<noteq> [] then ''restricted'' else ''all'')"

text \<open>
  The cache options of the home manager: \<open>None\<close> for all namespaces, otherwise the keys of the map
  \<open>DefaultNamespaces\<close>.
\<close>

fun add_names :: "string list \<Rightarrow> (string \<rightharpoonup> unit) \<Rightarrow> (string \<rightharpoonup> unit)" where
  "add_names [] m = m"
| "add_names (n # ns) m = add_names ns (m(n \<mapsto> ()))"

definition home_cache :: "string list \<Rightarrow> (string \<rightharpoonup> unit) option" where
  "home_cache ns = (if 0 < length ns then Some (add_names ns Map.empty) else None)"

text \<open>\<open>truncatePath\<close>; the ellipsis is three bytes of UTF-8.\<close>

definition ellipsis :: string where
  "ellipsis = [CHR 0xE2, CHR 0x80, CHR 0xA6]"

definition truncate_path :: "string \<Rightarrow> string" where
  "truncate_path p =
     (if p = [] then []
      else if 64 < length p then ellipsis @ drop (length p - 61) p
      else p)"

section \<open>The watch cluster's configuration\<close>

text \<open>A call that may end the process (\<open>GetConfigOrDie\<close>, \<open>os.Exit\<close>).\<close>

datatype 'a process = Exited | Returned 'a

text \<open>The error values of \<open>buildWatchConfig\<close>, one per message; the text is only logged.\<close>

datatype watch_error =
    ClientFailed goerr
  | FetchFailed nsname goerr
  | KeyMissing nsname string
  | ParseFailed goerr
  | ConfigFailed goerr
  | FileFailed goerr

datatype watch_effect =
    BaseConfig "rest_config option"
  | NewClient rest_config "goerr option"
  | SecretGet nsname "goerr + secret_data"
  | RawFile string config_overrides "goerr + raw_config"
  | FileConfig string config_overrides "goerr + rest_config"

record 'w wops =
  base_config :: "'w \<Rightarrow> rest_config option \<times> 'w"
  new_client :: "rest_config \<Rightarrow> 'w \<Rightarrow> goerr option \<times> 'w"
  watch_secret :: "nsname \<Rightarrow> 'w \<Rightarrow> (goerr + secret_data) \<times> 'w"
  raw_file :: "string \<Rightarrow> config_overrides \<Rightarrow> 'w \<Rightarrow> (goerr + raw_config) \<times> 'w"
  file_config :: "string \<Rightarrow> config_overrides \<Rightarrow> 'w \<Rightarrow> (goerr + rest_config) \<times> 'w"
  load_kubeconfig :: "string \<Rightarrow> goerr + raw_config"
  raw_client_config :: "raw_config \<Rightarrow> config_overrides \<Rightarrow> goerr + rest_config"

type_synonym watch_result = "(watch_error + rest_config \<times> string \<times> string) process"

definition context_overrides :: "string \<Rightarrow> config_overrides" where
  "context_overrides ctx =
     (if ctx \<noteq> [] then no_overrides\<lparr>co_current_context := ctx\<rparr> else no_overrides)"

definition config_from_secret ::
  "'w wops \<Rightarrow> string \<Rightarrow> nsname \<Rightarrow> string \<Rightarrow> ('w, watch_effect, watch_result) go" where
  "config_from_secret wo ctx key data_key = do {
     base \<leftarrow> ext (base_config wo) BaseConfig;
     (case base of
        None \<Rightarrow> ret Exited
      | Some cfg \<Rightarrow> do {
          err \<leftarrow> ext (new_client wo cfg) (NewClient cfg);
          (case err of
             Some e \<Rightarrow> ret (Returned (Inl (ClientFailed e)))
           | None \<Rightarrow> do {
               got \<leftarrow> ext (watch_secret wo key) (SecretGet key);
               (case got of
                  Inl e \<Rightarrow> ret (Returned (Inl (FetchFailed key e)))
                | Inr sec \<Rightarrow>
                    (case sec data_key of
                       None \<Rightarrow> ret (Returned (Inl (KeyMissing key data_key)))
                     | Some kc \<Rightarrow>
                         if kc = [] then ret (Returned (Inl (KeyMissing key data_key)))
                         else
                           (case load_kubeconfig wo kc of
                              Inl e \<Rightarrow> ret (Returned (Inl (ParseFailed e)))
                            | Inr raw \<Rightarrow>
                                let usedCtx = (if ctx \<noteq> [] then ctx else raw_current_context raw)
                                in (case raw_client_config wo raw (context_overrides ctx) of
                                      Inl e \<Rightarrow> ret (Returned (Inl (ConfigFailed e)))
                                    | Inr c \<Rightarrow> ret (Returned (Inr (c, rc_host c, usedCtx)))))))
             })
        })
   }"

definition config_from_file ::
  "'w wops \<Rightarrow> string \<Rightarrow> string \<Rightarrow> ('w, watch_effect, watch_result) go" where
  "config_from_file wo path ctx = do {
     usedCtx \<leftarrow>
       (if ctx \<noteq> [] then ret ctx
        else do {
          raw \<leftarrow> ext (raw_file wo path (context_overrides ctx)) (RawFile path (context_overrides ctx));
          ret (case raw of Inl e \<Rightarrow> [] | Inr r \<Rightarrow> raw_current_context r)
        });
     cfg \<leftarrow> ext (file_config wo path (context_overrides ctx)) (FileConfig path (context_overrides ctx));
     (case cfg of
        Inl e \<Rightarrow> ret (Returned (Inl (FileFailed e)))
      | Inr c \<Rightarrow> ret (Returned (Inr (c, rc_host c, usedCtx))))
   }"

definition build_watch_config ::
  "'w wops \<Rightarrow> string \<Rightarrow> string \<Rightarrow> string \<Rightarrow> string \<Rightarrow> string \<Rightarrow> ('w, watch_effect, watch_result) go" where
  "build_watch_config wo path ctx secretNS secretName secretKey =
     (if secretName \<noteq> []
      then config_from_secret wo ctx \<lparr>nn_namespace = secretNS, nn_name = secretName\<rparr> secretKey
      else if path \<noteq> [] then config_from_file wo path ctx
      else do {
        base \<leftarrow> ext (base_config wo) BaseConfig;
        (case base of
           None \<Rightarrow> ret Exited
         | Some cfg \<Rightarrow> ret (Returned (Inr (cfg, rc_host cfg, ''in-cluster''))))
      })"

section \<open>Properties\<close>

lemma collect_names_eq: "collect_names ps acc = acc @ filter (\<lambda>n. n \<noteq> []) (map trim_space ps)"
  by (induction ps arbitrary: acc) (auto simp: Let_def)

lemma add_names_eq: "add_names ns m = (\<lambda>n. if n \<in> set ns then Some () else m n)"
  by (induction ns arbitrary: m) auto

lemma trim_space_empty: "trim_space [] = []"
  using set_trim_space [of "[]"] by simp

text \<open>
  C35. The value of the watch list is read as its comma-separated parts: the cache of the home
  manager is restricted to exactly the trimmed, non-empty ones, and it is not restricted when the
  trimmed value is a star or no part is left.
\<close>

theorem home_cache_matches_scope:
  "\<exists>parts. str_join parts '','' = trim_space s \<and> list_all (\<lambda>p. CHR '','' \<notin> set p) parts \<and>
     home_cache (watch_scope s) =
       (let names = {n. n \<in> trim_space ` set parts \<and> n \<noteq> []}
        in if trim_space s = ''*'' \<or> names = {} then None
           else Some (\<lambda>n. if n \<in> names then Some () else None))"
proof -
  let ?parts = "split_char (CHR '','') (trim_space s)"
  let ?names = "{n. n \<in> trim_space ` set ?parts \<and> n \<noteq> []}"
  have scope: "set (watch_scope s) = (if trim_space s = ''*'' then {} else ?names)"
    by (auto simp: watch_scope_def Let_def collect_names_eq trim_space_empty)
  have names: "add_names ns Map.empty = (\<lambda>n. if n \<in> set ns then Some () else None)" for ns
    using add_names_eq [of ns Map.empty] by auto
  have "home_cache (watch_scope s) =
      (if trim_space s = ''*'' \<or> ?names = {} then None
       else Some (\<lambda>n. if n \<in> ?names then Some () else None))"
  proof (cases "watch_scope s = []")
    case True
    then show ?thesis using scope by (auto simp: home_cache_def split: if_splits)
  next
    case False
    then have nonempty: "set (watch_scope s) \<noteq> {}" by simp
    with scope have star: "trim_space s \<noteq> ''*''" and eq: "set (watch_scope s) = ?names"
      by (auto split: if_splits)
    with nonempty have "?names \<noteq> {}" by simp
    with star False show ?thesis by (simp only: home_cache_def names eq length_greater_0_conv if_True
          if_False not_False_eq_True simp_thms)
  qed
  then show ?thesis
    using split_char_parts [of _ "CHR '',''" "trim_space s"]
    by (intro exI [of _ "?parts"]) (simp add: Let_def list_all_iff)
qed

text \<open>A path is shortened to at most 64 bytes, and its last 61 bytes are kept.\<close>

theorem truncate_path_bounds:
  "length (truncate_path p) \<le> 64 \<and> suffix (drop (length p - 61) p) (truncate_path p)"
  by (auto simp: truncate_path_def ellipsis_def suffix_def) (metis append_take_drop_id)

lemma set_default_simps:
  "getenv (set_default k v en) k' = (if k' = k \<and> getenv en k = [] then v else getenv en k')"
  by (simp add: set_default_def getenv_def)

text \<open>
  The Helm variables are set once they have a default: a value the user gave is kept, every
  other variable is left alone, and doing it again changes nothing.
\<close>

theorem setup_helm_env_defaults:
  "getenv (setup_helm_env en) k =
     (if getenv en k \<noteq> [] then getenv en k
      else if k = ''HELM_DRIVER'' then ''secret''
      else if k = ''HELM_REPOSITORY_CONFIG'' then ''/.config/helm/repositories.yaml''
      else if k = ''HELM_REPOSITORY_CACHE'' then ''/.cache/helm/repository''
      else if k = ''HELM_REGISTRY_CONFIG'' then ''/.config/helm/registry.json''
      else []) \<and>
   setup_helm_env (setup_helm_env en) = setup_helm_env en"
proof
  show one: "getenv (setup_helm_env en) k =
     (if getenv en k \<noteq> [] then getenv en k
      else if k = ''HELM_DRIVER'' then ''secret''
      else if k = ''HELM_REPOSITORY_CONFIG'' then ''/.config/helm/repositories.yaml''
      else if k = ''HELM_REPOSITORY_CACHE'' then ''/.cache/helm/repository''
      else if k = ''HELM_REGISTRY_CONFIG'' then ''/.config/helm/registry.json''
      else [])" for k
    by (simp add: setup_helm_env_def set_default_simps)
  have same: "set_default k v e = e" if "getenv e k \<noteq> []" for k v e
    using that by (simp add: set_default_def)
  show "setup_helm_env (setup_helm_env en) = setup_helm_env en"
    unfolding setup_helm_env_def [of "setup_helm_env en"]
    using one by (simp add: same)
qed

text \<open>The calls each source of a configuration may make.\<close>

fun source_call :: "string \<Rightarrow> nsname \<Rightarrow> watch_effect \<Rightarrow> bool" where
  "source_call path key (BaseConfig _) \<longleftrightarrow> path = [] \<or> nn_name key \<noteq> []"
| "source_call path key (NewClient _ _) \<longleftrightarrow> nn_name key \<noteq> []"
| "source_call path key (SecretGet k _) \<longleftrightarrow> nn_name key \<noteq> [] \<and> k = key"
| "source_call path key (RawFile p _ _) \<longleftrightarrow> nn_name key = [] \<and> path \<noteq> [] \<and> p = path"
| "source_call path key (FileConfig p _ _) \<longleftrightarrow> nn_name key = [] \<and> path \<noteq> [] \<and> p = path"

text \<open>
  \<open>watch_source\<close>: the configuration \<open>c\<close> and the context \<open>used\<close> are what the calls gave. With a
  Secret's name: the default configuration leads to the Secret, the kubeconfig under the data key was
  parsed, and \<open>c\<close> is its client configuration. With a path: the file's configuration. Otherwise the
  default configuration.
\<close>

definition watch_source ::
  "'w wops \<Rightarrow> string \<Rightarrow> string \<Rightarrow> nsname \<Rightarrow> string \<Rightarrow> watch_effect list \<Rightarrow> rest_config \<Rightarrow> string \<Rightarrow> bool" where
  "watch_source wo path ctx key data_key es c used \<longleftrightarrow>
     (if nn_name key \<noteq> [] then
        (\<exists>base sec kc raw.
           es = [BaseConfig (Some base), NewClient base None, SecretGet key (Inr sec)] \<and>
           sec data_key = Some kc \<and> kc \<noteq> [] \<and> load_kubeconfig wo kc = Inr raw \<and>
           raw_client_config wo raw (context_overrides ctx) = Inr c \<and>
           used = (if ctx \<noteq> [] then ctx else raw_current_context raw))
      else if path \<noteq> [] then
        (if ctx \<noteq> [] then
           es = [FileConfig path (context_overrides ctx) (Inr c)] \<and> used = ctx
         else
           (\<exists>raw. es = [RawFile path no_overrides raw, FileConfig path no_overrides (Inr c)] \<and>
              used = (case raw of Inl _ \<Rightarrow> [] | Inr r \<Rightarrow> raw_current_context r)))
      else es = [BaseConfig (Some c)] \<and> used = ''in-cluster'')"

definition watch_post ::
  "'w wops \<Rightarrow> string \<Rightarrow> string \<Rightarrow> nsname \<Rightarrow> string \<Rightarrow> watch_result \<Rightarrow> watch_effect list \<Rightarrow> bool" where
  "watch_post wo path ctx key data_key r es \<longleftrightarrow>
     list_all (source_call path key) es \<and>
     (\<forall>c host used. r = Returned (Inr (c, host, used)) \<longleftrightarrow>
        host = rc_host c \<and> watch_source wo path ctx key data_key es c used)"

lemma context_overrides_Nil [simp]: "context_overrides [] = no_overrides"
  by (simp add: context_overrides_def)

lemma emits_config_from_secret:
  "nn_name key \<noteq> [] \<Longrightarrow>
   emits I (config_from_secret wo ctx key data_key) (watch_post wo path ctx key data_key)"
  unfolding config_from_secret_def Let_def
  by (intro wp_rules; hypsubst?) (auto simp: watch_post_def watch_source_def)

lemma emits_config_from_file:
  "nn_name key = [] \<Longrightarrow> path \<noteq> [] \<Longrightarrow>
   emits I (config_from_file wo path ctx) (watch_post wo path ctx key data_key)"
  unfolding config_from_file_def Let_def
  by (cases "ctx = []"; simp; intro wp_rules; hypsubst?) (auto simp: watch_post_def watch_source_def)

lemma emits_build_watch_config:
  "emits I (build_watch_config wo path ctx ns name data_key)
     (watch_post wo path ctx \<lparr>nn_namespace = ns, nn_name = name\<rparr> data_key)"
  unfolding build_watch_config_def
  by (intro wp_rules emits_config_from_secret emits_config_from_file; hypsubst?)
    (auto simp: watch_post_def watch_source_def)

text \<open>
  C36. The configuration comes from one source, the named Secret before the file before the default:
  a success, with the configuration, its host and the context, is returned exactly when the calls
  to that source gave it. No other source replaces a failed one: with a named Secret the file is not
  read (the default configuration only leads to the Secret), with a file neither Secret nor default
  configuration is, and without both only the default configuration is.
\<close>

theorem build_watch_config_source:
  "list_all (source_call path \<lparr>nn_namespace = ns, nn_name = name\<rparr>)
     (calls (build_watch_config wo path ctx ns name data_key) s) \<and>
   (result_of (build_watch_config wo path ctx ns name data_key) s = Returned (Inr (c, host, used)) \<longleftrightarrow>
      host = rc_host c \<and>
      watch_source wo path ctx \<lparr>nn_namespace = ns, nn_name = name\<rparr> data_key
        (calls (build_watch_config wo path ctx ns name data_key) s) c used)"
  using run_judged [OF emits_build_watch_config, of wo path ctx ns name data_key s]
  by (simp add: watch_post_def)

text \<open>Without a Secret and without a file the context asked for makes no difference.\<close>

theorem build_watch_config_default_ignores_context:
  "build_watch_config wo [] ctx ns [] data_key = build_watch_config wo [] ctx' ns' [] data_key'"
  by (simp add: build_watch_config_def)

text \<open>
  The namespace of the watch cluster's Secret is the one given by the environment or the flag
  and otherwise the operator's own, which the environment, the pod and the flag give in that order.
\<close>

theorem read_settings_namespaces:
  "se_namespace (read_settings fl en ns_file) =
     (if getenv en ''WATCH_NAMESPACE'' \<noteq> [] then getenv en ''WATCH_NAMESPACE''
      else if getenv en ''POD_NAMESPACE'' \<noteq> [] then getenv en ''POD_NAMESPACE''
      else if ns_file \<noteq> None \<and> ns_file \<noteq> Some [] then the ns_file
      else fl_namespace fl) \<and>
   se_secret_namespace (read_settings fl en ns_file) =
     (if getenv en ''WATCH_KUBECONFIG_SECRET_NAMESPACE'' \<noteq> []
        then getenv en ''WATCH_KUBECONFIG_SECRET_NAMESPACE''
      else if fl_secret_namespace fl \<noteq> [] then fl_secret_namespace fl
      else se_namespace (read_settings fl en ns_file))"
  by (auto simp: read_settings_def own_namespace_def env_or_def Let_def split: option.splits)

end
