(* ===== verification/Cluster_Routing.thy ===== *)
theory Cluster_Routing
  imports Reconcile Example_World Secret_Provider Watch_Config
begin

text \<open>
  The reconciler and the Secret provider together, as \<open>RunKryptonOperator\<close> connects them: the
  multicluster manager answers \<open>GetCluster\<close> from the provider, whose state is part of the world the
  reconciler runs in. The locale \<open>kept_environment\<close> is the contract between the reconciler and
  an environment that keeps an invariant of its state and the calls made.
\<close>

section \<open>The reconciler in an environment that keeps an invariant\<close>

locale kept_environment =
  fixes ops :: "'w ops" and K :: "'w \<Rightarrow> effect list \<Rightarrow> bool"
  assumes home_get: "keeps K (ext (home_get ops req) (HomeGet req))"
    and home_update: "keeps K (ext (home_update ops d) (\<lambda>r. HomeUpdate d (fst r)))"
    and home_status_update:
      "keeps K (ext (home_status_update ops d) (\<lambda>r. HomeStatusUpdate d (fst r)))"
    and event: "keeps K (event d ty reason msg)"
    and get_cluster: "keeps K (ext (mgr_get_cluster ops t) (GetCluster t))"
    and ns_get: "keeps K (ext (ns_get ops c ns) (NsGet c ns))"
    and ns_create: "keeps K (ext (ns_create ops c ns) (NsCreate c ns))"
    and ns_delete: "keeps K (ext (ns_delete ops c ns) (NsDelete c ns))"
    and obj_get: "keeps K (ext (obj_get ops c g k) (ObjGet c g k))"
    and list_workloads: "keeps K (ext (list_workloads ops c ns) (ListWorkloads c ns))"
    and helm_init: "keeps K (ext (helm_init ops ac) (HelmInit ac))"
    and helm_history: "keeps K (ext (helm_history ops ac n rel) (HelmHistory ac n rel))"
    and helm_get: "keeps K (ext (helm_get ops ac rel) (HelmGet ac rel))"
    and helm_install:
      "keeps K (ext (helm_install ops ac ho rel ch v) (HelmInstall ac ho rel ch v))"
    and helm_upgrade:
      "keeps K (ext (helm_upgrade ops ac ho rel ch v) (HelmUpgrade ac ho rel ch v))"
    and helm_uninstall: "keeps K (ext (helm_uninstall ops ac uo rel) (HelmUninstall ac uo rel))"
    and http_new_request: "keeps K (ext (http_new_request ops url) (HttpNewRequest url))"
    and http_do: "keeps K (ext (http_do ops url t') (HttpDo url t'))"
    and fs_create: "keeps K (ext (fs_create ops path) (FsCreate path))"
    and fs_write: "keeps K (ext (fs_write ops path b) (FsWrite path b))"
    and chart_load: "keeps K (ext (chart_load ops path) (ChartLoad path))"
begin

lemmas call_rules = home_get home_update home_status_update event get_cluster ns_get ns_create
  ns_delete obj_get list_workloads helm_init helm_history helm_get helm_install helm_upgrade
  helm_uninstall http_new_request http_do fs_create fs_write chart_load

lemma deploys: "keeps K (deploy_helm_chart ops en c ns rel repo name version)"
  unfolding deploy_helm_chart_def load_and_apply_def apply_release_def Let_def
  by (intro up_rules call_rules)

lemma uninstalls: "keeps K (uninstall_helm_chart ops en c ns rel)"
  unfolding uninstall_helm_chart_def Let_def
  by (intro up_rules call_rules)

lemma checks: "keeps K (check_objects ops c ns objs missing)"
  by (induction objs arbitrary: missing) (auto intro!: up_rules call_rules)

lemma heals: "keeps K (check_and_heal ops en c ns rel repo name version d)"
  unfolding check_and_heal_def heal_missing_def reinstall_def Let_def
  by (intro up_rules call_rules deploys checks)

lemma reads_interval: "keeps K (get_check_interval en)"
  by (simp add: keeps_def run_get_check_interval split: option.splits)

lemma writes_status: "keeps K (write_status ops phase msg status reason d)"
  unfolding write_status_def status_update_def
  by (intro up_rules call_rules)

lemma finishes: "keeps K (deploy_and_status ops en c cfg d)"
  unfolding deploy_and_status_def finish_deploy_def namespace_workload_healthy_def status_update_def
    Let_def
  by (intro up_rules call_rules heals deploys reads_interval writes_status)

lemma reconciles: "keeps K (reconcile_ced ops en cfg req)"
  unfolding reconcile_ced_def handle_delete_def cleanup_edge_def ensure_finalizer_def
    route_and_deploy_def ensure_namespace_def update_object_def Let_def
  by (intro up_rules call_rules uninstalls finishes writes_status)

end

section \<open>The provider behind the manager\<close>

text \<open>An operation of the world beside the provider.\<close>

definition on_world :: "('w \<Rightarrow> 'a \<times> 'w) \<Rightarrow> provider \<times> 'w \<Rightarrow> 'a \<times> (provider \<times> 'w)" where
  "on_world f st = (case st of (p, w) \<Rightarrow> (case f w of (a, w') \<Rightarrow> (a, (p, w'))))"

lemma on_world_provider [simp]: "fst (snd (on_world f st)) = fst st"
  by (simp add: on_world_def split: prod.splits)

text \<open>
  \<open>with_provider po ops\<close>: the operations \<open>ops\<close>, but \<open>GetCluster\<close> asks the provider. Nothing else
  reaches the provider.
\<close>

definition with_provider :: "'w pops \<Rightarrow> 'w ops \<Rightarrow> (provider \<times> 'w) ops" where
  "with_provider po ops =
     \<lparr>home_get = \<lambda>k. on_world (home_get ops k),
      home_update = \<lambda>d. on_world (home_update ops d),
      home_status_update = \<lambda>d. on_world (home_status_update ops d),
      mgr_get_cluster = provider_get po,
      ns_get = \<lambda>c ns. on_world (ns_get ops c ns),
      ns_create = \<lambda>c ns. on_world (ns_create ops c ns),
      ns_delete = \<lambda>c ns. on_world (ns_delete ops c ns),
      obj_get = \<lambda>c g k. on_world (obj_get ops c g k),
      list_workloads = \<lambda>c ns. on_world (list_workloads ops c ns),
      helm_init = \<lambda>ac. on_world (helm_init ops ac),
      helm_history = \<lambda>ac n rel. on_world (helm_history ops ac n rel),
      helm_get = \<lambda>ac rel. on_world (helm_get ops ac rel),
      helm_install = \<lambda>ac ho rel ch v. on_world (helm_install ops ac ho rel ch v),
      helm_upgrade = \<lambda>ac ho rel ch v. on_world (helm_upgrade ops ac ho rel ch v),
      helm_uninstall = \<lambda>ac uo rel. on_world (helm_uninstall ops ac uo rel),
      http_new_request = \<lambda>url. on_world (http_new_request ops url),
      http_do = \<lambda>url t. on_world (http_do ops url t),
      fs_create = \<lambda>path. on_world (fs_create ops path),
      fs_write = \<lambda>path b. on_world (fs_write ops path b),
      chart_load = \<lambda>path. on_world (chart_load ops path),
      cluster_config = cluster_config ops,
      copy_config = copy_config ops,
      yaml_decode = yaml_decode ops,
      set_status_condition = set_status_condition ops,
      nn_string = nn_string ops\<rparr>"

text \<open>The calls that ask for \<open>t\<close> are answered with \<open>c\<close>.\<close>

fun cluster_fixed :: "string \<Rightarrow> cluster \<Rightarrow> effect \<Rightarrow> bool" where
  "cluster_fixed t c (GetCluster t' r) \<longleftrightarrow> (if t' = t then r = Inr c else True)"
| "cluster_fixed t c _ \<longleftrightarrow> True"

text \<open>\<open>clusters_fixed\<close>: after a call that resolved a target, all calls for it have the same answer.\<close>

fun clusters_fixed :: "effect list \<Rightarrow> bool" where
  "clusters_fixed [] \<longleftrightarrow> True"
| "clusters_fixed (e # es) \<longleftrightarrow>
     (case e of GetCluster t (Inr c) \<Rightarrow> list_all (cluster_fixed t c) es | _ \<Rightarrow> True) \<and>
     clusters_fixed es"

lemma clusters_fixed_snoc:
  "clusters_fixed (es @ [e]) \<longleftrightarrow>
     clusters_fixed es \<and> (\<forall>t c. GetCluster t (Inr c) \<in> set es \<longrightarrow> cluster_fixed t c e)"
  by (induction es) (auto split: effect.splits sum.splits)

text \<open>What the provider has resolved since \<open>before\<close> it holds, and it has not changed its mind.\<close>

definition remembered :: "effect list \<Rightarrow> provider \<times> 'w \<Rightarrow> effect list \<Rightarrow> bool" where
  "remembered before st tr \<longleftrightarrow>
     (\<exists>es. tr = before @ es \<and> clusters_fixed es \<and>
        (\<forall>t c. GetCluster t (Inr c) \<in> set es \<longrightarrow> provider_known st t = Some c))"

lemma known_on_world [simp]:
  "provider_known (snd (on_world f st)) = provider_known st"
  by (simp add: provider_known_def)

lemma remembered_other:
  assumes "remembered before st tr" and "provider_known st' = provider_known st"
    and "\<And>t r. e \<noteq> GetCluster t r"
  shows "remembered before st' (tr @ [e])"
proof -
  from assms(1) obtain es where "tr = before @ es" "clusters_fixed es"
    "\<forall>t c. GetCluster t (Inr c) \<in> set es \<longrightarrow> provider_known st t = Some c"
    by (auto simp: remembered_def)
  moreover have "cluster_fixed t c e" for t c
  proof (cases e)
    case (GetCluster t' r)
    with assms(3) show ?thesis by blast
  qed simp_all
  moreover have "GetCluster t (Inr c) \<in> set (es @ [e]) \<longleftrightarrow> GetCluster t (Inr c) \<in> set es" for t c
    using assms(3) [of t "Inr c"] by auto
  ultimately show ?thesis
    unfolding remembered_def assms(2)
    by (intro exI [of _ "es @ [e]"]) (simp add: clusters_fixed_snoc)
qed

lemma remembered_get:
  assumes "remembered before st tr"
  shows "remembered before (snd (provider_get po t st)) (tr @ [GetCluster t (fst (provider_get po t st))])"
proof -
  from assms obtain es where tr: "tr = before @ es" and fixed: "clusters_fixed es"
    and known: "\<And>t c. GetCluster t (Inr c) \<in> set es \<Longrightarrow> provider_known st t = Some c"
    by (auto simp: remembered_def)
  have "cluster_fixed t' c (GetCluster t (fst (provider_get po t st)))"
    if "GetCluster t' (Inr c) \<in> set es" for t' c
    using provider_get_hit [OF known [OF that]] by simp
  moreover have "provider_known (snd (provider_get po t st)) t' = Some c"
    if "GetCluster t' (Inr c) \<in> set (es @ [GetCluster t (fst (provider_get po t st))])" for t' c
  proof (cases "GetCluster t' (Inr c) \<in> set es")
    case True
    from pc.get_keeps [OF known [OF True]] show ?thesis .
  next
    case False
    with that have "provider_get po t' st = (Inr c, snd (provider_get po t' st))" and "t' = t"
      by (auto simp: prod_eq_iff)
    with pc.get_known show ?thesis by blast
  qed
  ultimately show ?thesis
    using tr fixed unfolding remembered_def
    by (intro exI [of _ "es @ [GetCluster t (fst (provider_get po t st))]"])
      (simp add: clusters_fixed_snoc)
qed

interpretation routed: kept_environment "with_provider po ops" "remembered before" for po ops before
proof unfold_locales
  show "keeps (remembered before)
      (ext (mgr_get_cluster (with_provider po ops) t) (GetCluster t))" for t
    by (rule keeps_ext) (simp add: with_provider_def remembered_get)
qed (auto intro!: keeps_ext intro: remembered_other simp: with_provider_def Go_Effects.event_def)

text \<open>A controller with one worker: one reconciliation after the other.\<close>

fun reconcile_all ::
  "'w ops \<Rightarrow> env \<Rightarrow> op_config \<Rightarrow> nsname list \<Rightarrow> ('w, effect, unit) go" where
  "reconcile_all ops en cfg [] = ret ()"
| "reconcile_all ops en cfg (req # reqs) = do {
     _ \<leftarrow> home_handler ops en cfg req;
     reconcile_all ops en cfg reqs
   }"

lemma keeps_reconcile_all:
  "keeps (remembered before) (reconcile_all (with_provider po ops) en cfg reqs)"
  by (induction reqs) (auto intro!: up_rules routed.reconciles simp: home_handler_def)

section \<open>Which Secret a region stands for\<close>

text \<open>
  What the region of a deployment means: the Secret named by its reference, in the reference's
  namespace or else the operator's; without a reference the old field, without that the name made
  from the region's.
\<close>

definition region_secret :: "string \<Rightarrow> kdep \<Rightarrow> nsname" where
  "region_secret ns d =
     (let old = (if ri_kubeconfig_secret_name (kd_region d) \<noteq> []
                 then ri_kubeconfig_secret_name (kd_region d)
                 else ri_name (kd_region d) @ ''-kubeconfig'')
      in case ri_kubeconfig (kd_region d) of
           None \<Rightarrow> \<lparr>nn_namespace = ns, nn_name = old\<rparr>
         | Some kc \<Rightarrow>
             if sr_name (kr_secret kc) = [] then \<lparr>nn_namespace = ns, nn_name = old\<rparr>
             else \<lparr>nn_namespace = (if sr_namespace (kr_secret kc) = [] then ns
                                   else sr_namespace (kr_secret kc)),
                   nn_name = sr_name (kr_secret kc)\<rparr>)"

lemma resolve_target_region_secret:
  "fst (resolve_target ns d) =
     nn_namespace (region_secret ns d) @ ''/'' @ nn_name (region_secret ns d)"
  by (auto simp: resolve_target_def region_secret_def Let_def split: option.splits)

lemma region_secret_name: "nn_name (region_secret ns d) \<noteq> []"
  by (auto simp: region_secret_def Let_def split: option.splits)

section \<open>Properties\<close>

text \<open>
  C22. However many objects are reconciled, and whatever the provider held before: after a
  reconciliation has resolved its target to a cluster, every later one that routes to that target
  gets the same cluster object. A change of the kubeconfig Secret (a rotated credential, another
  server) is not seen until the process is started again.
\<close>

theorem reconcile_clusters_fixed:
  "clusters_fixed (calls (reconcile_all (with_provider po ops) en cfg reqs) s)"
proof -
  have "remembered (trace s) (world s) (trace s)"
    by (simp add: remembered_def)
  from keepsD [OF keeps_reconcile_all this, of po ops en cfg reqs] show ?thesis
    by (auto simp: remembered_def calls_def)
qed

text \<open>Two reconciliations from an empty provider; the second gets the cluster made for the first.\<close>

lemma reconcile_clusters_fixed_sample:
  "filter (\<lambda>e. case e of GetCluster _ _ \<Rightarrow> True | _ \<Rightarrow> False)
     (calls (reconcile_all (with_provider sample_pops (sample_ops (Inr deleted_object) (Inr 0) None))
        Map.empty sample_config [sample_request, sample_request])
      \<lparr>world = (new_provider [] ''krypton'', ()), trace = [], interval = None\<rparr>) =
   [GetCluster ''krypton/eu-kubeconfig'' (Inr 7), GetCluster ''krypton/eu-kubeconfig'' (Inr 7)]"
  by (simp add: handler_defs home_handler_def with_provider_def on_world_def provider_get_def
    new_provider_def sample_pops_def build_config_def sample_config_def)

text \<open>
  C21. The name the reconciler builds for a region and the provider takes apart again leads to the
  Secret the region stands for, provided the namespace has no slash; but with an empty namespace
  the name is not taken apart, and the slash stays in the Secret's name.
\<close>

theorem resolved_target_names_region_secret:
  assumes "CHR ''/'' \<notin> set (nn_namespace (region_secret ns d))"
  shows "secret_key def_ns (fst (resolve_target ns d)) =
    (if nn_namespace (region_secret ns d) = []
     then \<lparr>nn_namespace = def_ns, nn_name = ''/'' @ nn_name (region_secret ns d)\<rparr>
     else region_secret ns d)"
  using secret_key_namespaced [OF assms _ region_secret_name, of def_ns]
    secret_key_empty_namespace [of def_ns "nn_name (region_secret ns d)"]
  by (simp add: resolve_target_region_secret)

theorem resolved_target_names_region_secret_witness:
  "secret_key ''krypton'' (fst (resolve_target ''krypton'' live_object)) =
     \<lparr>nn_namespace = ''krypton'', nn_name = ''eu-kubeconfig''\<rparr>"
  using resolved_target_names_region_secret [of "''krypton''" live_object "''krypton''"]
  by (simp add: region_secret_def)

text \<open>The flags' defaults leave the namespace empty, as the case above needs it.\<close>

lemma default_namespace_empty: "se_namespace (read_settings default_flags Map.empty None) = []"
  by (simp add: read_settings_def own_namespace_def default_flags_def getenv_def Let_def)

end
