(* ===== verification/Crd_Watch.thy ===== *)
theory Crd_Watch
  imports Go_Effects
begin

text \<open>
  \<open>internal/multicluster/crd_watch.go\<close>: \<open>EnsureKryptonDeploymentCRD\<close>, which creates the custom
  resource definition on the watch cluster when it is missing, with up to five attempts. The
  client and the YAML decoder are external; the sleeps between attempts are calls on the trace.
\<close>

section \<open>The model\<close>

datatype crd_effect =
    CrdGet string "goerr option"
  | CrdCreate uobj "goerr option"
  | Sleep duration

text \<open>A Go call that returns, or panics on a nil pointer.\<close>

datatype 'a outcome = Done 'a | Panic

record 'w crd_ops =
  crd_get :: "string \<Rightarrow> 'w \<Rightarrow> goerr option \<times> 'w"
  crd_create :: "uobj \<Rightarrow> 'w \<Rightarrow> goerr option \<times> 'w"
  crd_decode :: "string \<Rightarrow> goerr + uobj option"

definition crd_name :: string where
  "crd_name = ''kryptondeployments.mesh.openkcm.io''"

definition transient_error :: "goerr \<Rightarrow> bool" where
  "transient_error e =
     (str_contains (err_text e) ''connection refused'' \<or>
      str_contains (err_text e) ''context canceled'' \<or>
      str_contains (err_text e) ''Client.Timeout'')"

definition sleep :: "duration \<Rightarrow> ('w, crd_effect, unit) go" where
  "sleep d = ext (\<lambda>w. ((), w)) (\<lambda>_. Sleep d)"

text \<open>
  The creation half of an attempt. \<open>Inl\<close> carries the value that the function returns, \<open>Inr\<close> the
  error of a failed creation.
\<close>

definition create_crd ::
  "'w crd_ops \<Rightarrow> string \<Rightarrow> ('w, crd_effect, goerr option outcome + goerr) go" where
  "create_crd ops yaml =
     (case crd_decode ops yaml of
        Inl e \<Rightarrow> ret (Inl (Done (Some (wrap_err ''decode embedded CRD failed: '' e))))
      | Inr None \<Rightarrow> ret (Inl Panic)
      | Inr (Some obj) \<Rightarrow>
          (if gvk_kind (uo_gvk obj) \<noteq> ''CustomResourceDefinition''
           then ret (Inl (Done (Some (new_err
                  (''embedded manifest kind '' @ gvk_kind (uo_gvk obj) @ '' unexpected'')))))
           else do {
             createErr \<leftarrow> ext (crd_create ops obj) (CrdCreate obj);
             (case createErr of
                None \<Rightarrow> ret (Inl (Done None))
              | Some e \<Rightarrow>
                  if is_already_exists (Some e) then ret (Inl (Done None)) else ret (Inr e))
           }))"

text \<open>
  The loop \<open>for attempt := range 5\<close>: \<open>n\<close> attempts are left, \<open>attempt\<close> is the loop variable.
\<close>

fun ensure_crd_loop ::
  "'w crd_ops \<Rightarrow> string \<Rightarrow> nat \<Rightarrow> nat \<Rightarrow> goerr option \<Rightarrow> ('w, crd_effect, goerr option outcome) go" where
  "ensure_crd_loop ops yaml 0 attempt lastErr =
     ret (Done (case lastErr of
       Some e \<Rightarrow> Some e
     | None \<Rightarrow> Some (new_err ''ensure CRD exhausted retries without success'')))"
| "ensure_crd_loop ops yaml (Suc n) attempt lastErr = do {
     getErr \<leftarrow> ext (crd_get ops crd_name) (CrdGet crd_name);
     (case getErr of
        None \<Rightarrow> ret (Done None)
      | Some ge \<Rightarrow>
          if is_not_found (Some ge) then do {
            r \<leftarrow> create_crd ops yaml;
            (case r of
               Inl out \<Rightarrow> ret out
             | Inr ce \<Rightarrow>
                 if transient_error ce then do {
                   _ \<leftarrow> sleep (of_nat (attempt + 1) * 300 * go_millisecond);
                   ensure_crd_loop ops yaml n (attempt + 1)
                     (Some (wrap_err (''create CRD transient error (attempt '' @
                        fmt_d (int (attempt + 1)) @ ''): '') ce))
                 }
                 else ret (Done (Some (wrap_err ''create CRD failed: '' ce))))
          }
          else if transient_error ge then do {
            _ \<leftarrow> sleep (of_nat (attempt + 1) * 200 * go_millisecond);
            ensure_crd_loop ops yaml n (attempt + 1)
              (Some (wrap_err (''get CRD transient error (attempt '' @
                 fmt_d (int (attempt + 1)) @ ''): '') ge))
          }
          else ret (Done (Some (wrap_err ''get CRD failed: '' ge))))
   }"

definition ensure_krypton_deployment_crd ::
  "'w crd_ops \<Rightarrow> string \<Rightarrow> ('w, crd_effect, goerr option outcome) go" where
  "ensure_krypton_deployment_crd ops yaml = ensure_crd_loop ops yaml 5 0 None"

section \<open>What a run of the loop looks like\<close>

lemma emits_bind_sleep [wp_rules]:
  "emits I (g ()) (\<lambda>b es. P b (Sleep d # es)) \<Longrightarrow> emits I (State_Monad.bind (sleep d) g) P"
  unfolding sleep_def by (rule emits_bind_ext) simp

text \<open>
  The runs as a relation: \<open>crd_run n a last es out\<close> says that from attempt \<open>a\<close> with \<open>n\<close> left and
  \<open>last\<close> as the last error, the calls \<open>es\<close> end with the outcome \<open>out\<close>. One rule per way an
  attempt can go; which one is taken is up to the cluster.
\<close>

inductive crd_run ::
  "nat \<Rightarrow> nat \<Rightarrow> goerr option \<Rightarrow> crd_effect list \<Rightarrow> goerr option outcome \<Rightarrow> bool" where
  exhausted: "crd_run 0 a (Some e) [] (Done (Some e))"
| no_attempt: "crd_run 0 a None []
     (Done (Some (new_err ''ensure CRD exhausted retries without success'')))"
| present: "crd_run (Suc n) a l [CrdGet crd_name None] (Done None)"
| get_fatal: "err_reason e \<noteq> NotFound \<Longrightarrow> \<not> transient_error e \<Longrightarrow>
     crd_run (Suc n) a l [CrdGet crd_name (Some e)] (Done (Some (wrap_err ''get CRD failed: '' e)))"
| get_retry: "err_reason e \<noteq> NotFound \<Longrightarrow> transient_error e \<Longrightarrow>
     crd_run n (a + 1) (Some (wrap_err (''get CRD transient error (attempt '' @
       fmt_d (int (a + 1)) @ ''): '') e)) es out \<Longrightarrow>
     crd_run (Suc n) a l
       (CrdGet crd_name (Some e) # Sleep (of_nat (a + 1) * 200 * go_millisecond) # es) out"
| decode_fatal: "err_reason e = NotFound \<Longrightarrow>
     crd_run (Suc n) a l [CrdGet crd_name (Some e)]
       (Done (Some (wrap_err ''decode embedded CRD failed: '' d)))"
| decode_panic: "err_reason e = NotFound \<Longrightarrow>
     crd_run (Suc n) a l [CrdGet crd_name (Some e)] Panic"
| kind_fatal: "err_reason e = NotFound \<Longrightarrow>
     crd_run (Suc n) a l [CrdGet crd_name (Some e)]
       (Done (Some (new_err (''embedded manifest kind '' @ k @ '' unexpected''))))"
| created: "err_reason e = NotFound \<Longrightarrow> c = None \<or> is_already_exists c \<Longrightarrow>
     crd_run (Suc n) a l [CrdGet crd_name (Some e), CrdCreate obj c] (Done None)"
| create_fatal: "err_reason e = NotFound \<Longrightarrow> err_reason c \<noteq> AlreadyExists \<Longrightarrow>
     \<not> transient_error c \<Longrightarrow>
     crd_run (Suc n) a l [CrdGet crd_name (Some e), CrdCreate obj (Some c)]
       (Done (Some (wrap_err ''create CRD failed: '' c)))"
| create_retry: "err_reason e = NotFound \<Longrightarrow> err_reason c \<noteq> AlreadyExists \<Longrightarrow> transient_error c \<Longrightarrow>
     crd_run n (a + 1) (Some (wrap_err (''create CRD transient error (attempt '' @
       fmt_d (int (a + 1)) @ ''): '') c)) es out \<Longrightarrow>
     crd_run (Suc n) a l
       (CrdGet crd_name (Some e) # CrdCreate obj (Some c) #
        Sleep (of_nat (a + 1) * 300 * go_millisecond) # es) out"

lemmas crd_run_rules = crd_run.intros crd_run.kind_fatal [simplified]
  crd_run.get_retry [simplified] crd_run.create_retry [simplified]

definition create_post :: "(goerr option outcome + goerr) \<Rightarrow> crd_effect list \<Rightarrow> bool" where
  "create_post r es =
     (case r of
        Inl Panic \<Rightarrow> es = []
      | Inl (Done None) \<Rightarrow> (\<exists>obj c. es = [CrdCreate obj c] \<and> (c = None \<or> is_already_exists c))
      | Inl (Done (Some e)) \<Rightarrow> es = [] \<and>
          ((\<exists>d. e = wrap_err ''decode embedded CRD failed: '' d) \<or>
           (\<exists>k. e = new_err (''embedded manifest kind '' @ k @ '' unexpected'')))
      | Inr e \<Rightarrow> (\<exists>obj. es = [CrdCreate obj (Some e)]) \<and> err_reason e \<noteq> AlreadyExists)"

lemma emits_create_crd: "emits I (create_crd ops yaml) create_post"
  unfolding create_crd_def
  by (intro wp_rules) (auto simp: create_post_def)

theorem emits_ensure_crd_loop:
  "emits I (ensure_crd_loop ops yaml n a l) (\<lambda>out es. crd_run n a l es out)"
proof (induction n arbitrary: a l)
  case 0
  show ?case
    by (cases l) (auto intro!: wp_rules intro: crd_run.intros)
next
  case (Suc n)
  note IH = emits_conseq [OF Suc.IH]
  have create: "emits I (State_Monad.bind (create_crd ops yaml) (\<lambda>r.
      case r of Inl out \<Rightarrow> ret out
      | Inr ce \<Rightarrow> if transient_error ce
          then State_Monad.bind (sleep (of_nat (a + 1) * 300 * go_millisecond)) (\<lambda>_.
            ensure_crd_loop ops yaml n (a + 1)
              (Some (wrap_err (''create CRD transient error (attempt '' @
                 fmt_d (int (a + 1)) @ ''): '') ce)))
          else ret (Done (Some (wrap_err ''create CRD failed: '' ce)))))
      (\<lambda>out es. crd_run (Suc n) a l (CrdGet crd_name (Some ge) # es) out)"
    if ge: "err_reason ge = NotFound" for ge
    apply (rule emits_bind [OF emits_create_crd])
    apply (intro wp_rules IH)
    using ge
    apply (auto simp: create_post_def split: outcome.splits option.splits
        intro: crd_run_rules)
    done
  show ?case
    unfolding ensure_crd_loop.simps
    by (intro wp_rules; hypsubst?)
      (auto intro: crd_run_rules intro!: IH create)
qed

section \<open>What every run keeps to\<close>

definition sleep_nanos :: "crd_effect list \<Rightarrow> int" where
  "sleep_nanos es = sum_list (map (\<lambda>e. case e of Sleep d \<Rightarrow> sint d | _ \<Rightarrow> 0) es)"

definition attempts :: "crd_effect list \<Rightarrow> nat" where
  "attempts es = length (filter (\<lambda>e. case e of CrdGet _ _ \<Rightarrow> True | _ \<Rightarrow> False) es)"

text \<open>Every creation comes right after a read that found no definition.\<close>

fun creates_after_not_found :: "crd_effect list \<Rightarrow> bool" where
  "creates_after_not_found [] = True"
| "creates_after_not_found (CrdCreate _ _ # es) = False"
| "creates_after_not_found (CrdGet _ r # CrdCreate _ _ # es) =
     (is_not_found r \<and> creates_after_not_found es)"
| "creates_after_not_found (e # es) = creates_after_not_found es"

definition crd_present :: "crd_effect \<Rightarrow> bool" where
  "crd_present e =
     (case e of
        CrdGet _ r \<Rightarrow> r = None
      | CrdCreate _ r \<Rightarrow> r = None \<or> is_already_exists r
      | Sleep _ \<Rightarrow> False)"

definition explained :: "goerr \<Rightarrow> bool" where
  "explained e =
     (\<exists>p \<in> {''get CRD '', ''create CRD '', ''decode embedded CRD '', ''embedded manifest ''}.
        prefix p (err_text e))"

lemma creates_after_not_found_Cons:
  "(case e of CrdCreate _ _ \<Rightarrow> False | _ \<Rightarrow> True) \<Longrightarrow>
   (case es of CrdCreate _ _ # _ \<Rightarrow> False | _ \<Rightarrow> True) \<Longrightarrow>
   creates_after_not_found (e # es) = creates_after_not_found es"
  by (cases "(e # es)" rule: creates_after_not_found.cases)
    (auto split: crd_effect.splits list.splits)

lemma crd_run_no_create_first: "crd_run n a l es out \<Longrightarrow> es = CrdCreate obj c # fs \<Longrightarrow> False"
  by (induction rule: crd_run.induct) auto

lemma crd_run_creates: "crd_run n a l es out \<Longrightarrow> creates_after_not_found es"
proof (induction rule: crd_run.induct)
  case (get_retry e n a es out l)
  then have "case es of CrdCreate _ _ # _ \<Rightarrow> False | _ \<Rightarrow> True"
    using crd_run_no_create_first by (auto split: list.splits crd_effect.splits)
  with get_retry show ?case by (simp add: creates_after_not_found_Cons)
next
  case (create_retry e c n a es out l obj)
  then have "case es of CrdCreate _ _ # _ \<Rightarrow> False | _ \<Rightarrow> True"
    using crd_run_no_create_first by (auto split: list.splits crd_effect.splits)
  with create_retry show ?case by (simp add: creates_after_not_found_Cons)
qed auto

lemma crd_run_attempts: "crd_run n a l es out \<Longrightarrow> attempts es \<le> n"
  by (induction rule: crd_run.induct) (auto simp: attempts_def)

lemma backoff_sint:
  assumes "k < 10" and "m = 200 \<or> m = 300"
  shows "sint (of_nat k * m * go_millisecond) = int k * sint m * 1000000"
proof -
  have "of_nat k * m * go_millisecond = (word_of_int (int k * sint m * 1000000) :: duration)"
    using assms(2) by (auto simp: go_millisecond_def)
  moreover have "sint (word_of_int (int k * sint m * 1000000) :: duration) = int k * sint m * 1000000"
    using assms by (subst sint_sbintrunc') (auto simp: signed_take_bit_int_eq_self)
  ultimately show ?thesis by simp
qed

text \<open>At most 300 ms times the number of the attempt, summed over the attempts.\<close>

lemma crd_run_sleeps:
  "crd_run n a l es out \<Longrightarrow> a + n < 10 \<Longrightarrow>
   sleep_nanos es \<le> 300000000 * (\<Sum>i = a + 1..a + n. int i)"
proof (induction rule: crd_run.induct)
  case (get_retry e n a es out l)
  have "sleep_nanos es \<le> 300000000 * (\<Sum>i = a + 2..a + 1 + n. int i)"
    using get_retry by simp
  moreover have "sint (of_nat (a + 1) * 200 * go_millisecond :: duration) = int (a + 1) * 200000000"
    using get_retry.prems backoff_sint [of "a + 1" 200] by simp
  moreover have "(\<Sum>i = a + 1..a + Suc n. int i) = int (a + 1) + (\<Sum>i = a + 2..a + 1 + n. int i)"
    by (simp add: sum.atLeast_Suc_atMost)
  ultimately show ?case by (simp add: sleep_nanos_def algebra_simps)
next
  case (create_retry e c n a es out l obj)
  have "sleep_nanos es \<le> 300000000 * (\<Sum>i = a + 2..a + 1 + n. int i)"
    using create_retry by simp
  moreover have "sint (of_nat (a + 1) * 300 * go_millisecond :: duration) = int (a + 1) * 300000000"
    using create_retry.prems backoff_sint [of "a + 1" 300] by simp
  moreover have "(\<Sum>i = a + 1..a + Suc n. int i) = int (a + 1) + (\<Sum>i = a + 2..a + 1 + n. int i)"
    by (simp add: sum.atLeast_Suc_atMost)
  ultimately show ?case by (simp add: sleep_nanos_def algebra_simps)
qed (auto simp: sleep_nanos_def sum_nonneg)

lemma crd_run_success:
  "crd_run n a l es out \<Longrightarrow> out = Done None \<longleftrightarrow> es \<noteq> [] \<and> crd_present (last es)"
  by (induction rule: crd_run.induct) (auto simp: crd_present_def is_already_exists_def split: option.splits)

lemma crd_run_explained:
  "crd_run n a l es out \<Longrightarrow> out = Done (Some e) \<Longrightarrow> 0 < n \<or> l \<noteq> None \<Longrightarrow>
   (\<forall>x. l = Some x \<longrightarrow> explained x) \<Longrightarrow> explained e"
  by (induction rule: crd_run.induct) (auto simp: explained_def)

section \<open>Properties\<close>

lemma ensure_crd_runs:
  "crd_run 5 0 None (calls (ensure_krypton_deployment_crd ops yaml) s)
     (result_of (ensure_krypton_deployment_crd ops yaml) s)"
  unfolding ensure_krypton_deployment_crd_def
  by (rule run_judged [OF emits_ensure_crd_loop])

text \<open>
  C25. The function returns success exactly when its last call showed the definition to be present:
  a read found it, or its creation succeeded or met an existing one.
\<close>

theorem ensure_crd_success_iff_present:
  "result_of (ensure_krypton_deployment_crd ops yaml) s = Done None \<longleftrightarrow>
     calls (ensure_krypton_deployment_crd ops yaml) s \<noteq> [] \<and>
     crd_present (last (calls (ensure_krypton_deployment_crd ops yaml) s))"
  by (rule crd_run_success [OF ensure_crd_runs])

text \<open>C26. It tries at most five times and waits at most four and a half seconds in all.\<close>

theorem ensure_crd_bounded:
  "attempts (calls (ensure_krypton_deployment_crd ops yaml) s) \<le> 5 \<and>
   sleep_nanos (calls (ensure_krypton_deployment_crd ops yaml) s) \<le> 4500000000"
proof
  show "attempts (calls (ensure_krypton_deployment_crd ops yaml) s) \<le> 5"
    by (rule crd_run_attempts [OF ensure_crd_runs])
  have "(\<Sum>i = 0 + 1..0 + (5 :: nat). int i) = 15"
    by (simp add: numeral_eq_Suc)
  then show "sleep_nanos (calls (ensure_krypton_deployment_crd ops yaml) s) \<le> 4500000000"
    using crd_run_sleeps [OF ensure_crd_runs [of ops yaml s]] by simp
qed

text \<open>C27. It creates the definition only right after a read that found none.\<close>

theorem ensure_crd_creates_only_missing:
  "creates_after_not_found (calls (ensure_krypton_deployment_crd ops yaml) s)"
  by (rule crd_run_creates [OF ensure_crd_runs])

text \<open>The error for exhausted retries at the end of the function is never returned.\<close>

theorem ensure_crd_error_explained:
  "result_of (ensure_krypton_deployment_crd ops yaml) s \<noteq>
     Done (Some (new_err ''ensure CRD exhausted retries without success''))"
proof
  assume "result_of (ensure_krypton_deployment_crd ops yaml) s =
    Done (Some (new_err ''ensure CRD exhausted retries without success''))"
  from crd_run_explained [OF ensure_crd_runs this] show False
    by (auto simp: explained_def)
qed

end
