(* ===== verification/Startup.thy ===== *)
theory Startup
  imports Watch_Config Crd_Watch Reconcile "HOL-Library.Multiset"
begin

text \<open>
  The start of the process: the schemes, \<open>RunKryptonOperator\<close> from the flags on,
  \<open>createHomeManager\<close>, \<open>createMCManager\<close>, \<open>setupProviderAndHealth\<close>, \<open>ensureWatchCRDsIfRequested\<close>,
  \<open>registerHomeController\<close> and \<open>startManagers\<close>. What they call in the libraries is external.
  \<open>os.Exit(1)\<close> ends the run with \<open>Exit1\<close>. The two goroutines
  of \<open>startManagers\<close> and its channel are also given as a step relation.
\<close>

section \<open>The model\<close>

text \<open>
  The schemes of \<open>buildSchemes\<close>, as the kinds that are registered in them: those of \<open>client-go\<close>,
  which are an argument, and the ones \<open>groupversion_info.go\<close> registers.
\<close>

definition group_version :: "string \<times> string" where
  "group_version = (''mesh.openkcm.io'', ''v1alpha1'')"

definition registered_kinds :: "gvk list" where
  "registered_kinds =
     [\<lparr>gvk_group = fst group_version, gvk_version = snd group_version,
       gvk_kind = ''KryptonDeployment''\<rparr>,
      \<lparr>gvk_group = fst group_version, gvk_version = snd group_version,
       gvk_kind = ''KryptonDeploymentList''\<rparr>]"

definition build_schemes :: "gvk list \<Rightarrow> scheme \<times> scheme \<times> scheme" where
  "build_schemes clientgo =
     (let homeScheme = [] @ clientgo @ registered_kinds;
          edgeScheme = [] @ clientgo @ registered_kinds;
          providerScheme = [] @ clientgo @ registered_kinds
      in (homeScheme, edgeScheme, providerScheme))"

text \<open>The options of the two managers that the code sets.\<close>

record manager_options =
  mo_scheme :: scheme
  mo_metrics :: string
  mo_health :: string
  mo_cache :: "(string \<rightharpoonup> unit) option"

definition home_manager_options :: "scheme \<Rightarrow> string list \<Rightarrow> manager_options" where
  "home_manager_options sch ns =
     \<lparr>mo_scheme = sch, mo_metrics = ''0'', mo_health = [], mo_cache = home_cache ns\<rparr>"

definition mc_manager_options :: "scheme \<Rightarrow> manager_options" where
  "mc_manager_options sch =
     \<lparr>mo_scheme = sch, mo_metrics = '':8080'', mo_health = '':8081'', mo_cache = None\<rparr>"

datatype boot_effect =
    SetHelmEnv env
  | BootWatch watch_effect
  | NewHomeManager rest_config manager_options "goerr option"
  | NewMCManager rest_config provider manager_options "goerr option"
  | AddHealthz "goerr option"
  | AddReadyz "goerr option"
  | CrdClient rest_config scheme "goerr option"
  | BootCrd crd_effect
  | CompleteController string gvk op_config "goerr option"
  | ManagerDone "goerr option"

record 'w bops =
  b_watch :: "'w wops"
  b_crd :: "'w crd_ops"
  b_crd_yaml :: string
  b_clientgo :: "gvk list"
  new_home_manager :: "rest_config \<Rightarrow> manager_options \<Rightarrow> 'w \<Rightarrow> goerr option \<times> 'w"
  new_mc_manager :: "rest_config \<Rightarrow> provider \<Rightarrow> manager_options \<Rightarrow> 'w \<Rightarrow> goerr option \<times> 'w"
  add_healthz :: "'w \<Rightarrow> goerr option \<times> 'w"
  add_readyz :: "'w \<Rightarrow> goerr option \<times> 'w"
  crd_client :: "rest_config \<Rightarrow> scheme \<Rightarrow> 'w \<Rightarrow> goerr option \<times> 'w"
  complete_controller :: "string \<Rightarrow> gvk \<Rightarrow> op_config \<Rightarrow> 'w \<Rightarrow> goerr option \<times> 'w"
  manager_done :: "'w \<Rightarrow> goerr option \<times> 'w"

text \<open>A computation with calls of another type, its calls put on the trace under \<open>f\<close>.\<close>

definition lift_calls :: "('e \<Rightarrow> 'f) \<Rightarrow> ('w, 'e, 'a) go \<Rightarrow> ('w, 'f, 'a) go" where
  "lift_calls f m =
     State (\<lambda>s.
       case run_state m \<lparr>world = world s, trace = [], interval = interval s\<rparr> of
         (a, s') \<Rightarrow>
           (a, \<lparr>world = world s', trace = trace s @ map f (trace s'), interval = interval s'\<rparr>))"

definition setup_provider_and_health ::
  "'w bops \<Rightarrow> provider \<Rightarrow> ('w, boot_effect, goerr option) go" where
  "setup_provider_and_health bo p =
     (case provider_setup_with_manager p of
        Some e \<Rightarrow> ret (Some e)
      | None \<Rightarrow> do {
          err \<leftarrow> ext (add_healthz bo) AddHealthz;
          (case err of
             Some e \<Rightarrow> ret (Some e)
           | None \<Rightarrow> do {
               err' \<leftarrow> ext (add_readyz bo) AddReadyz;
               (case err' of Some e \<Rightarrow> ret (Some e) | None \<Rightarrow> ret None)
             })
        })"

definition ensure_watch_crds_if_requested ::
  "'w bops \<Rightarrow> rest_config \<Rightarrow> scheme \<Rightarrow> bool \<Rightarrow> ('w, boot_effect, goerr option outcome) go" where
  "ensure_watch_crds_if_requested bo cfg sch ensure =
     (if \<not> ensure then ret (Done None)
      else do {
        err \<leftarrow> ext (crd_client bo cfg sch) (CrdClient cfg sch);
        (case err of
           Some e \<Rightarrow> ret (Done (Some e))
         | None \<Rightarrow> do {
             out \<leftarrow> lift_calls BootCrd (ensure_krypton_deployment_crd (b_crd bo) (b_crd_yaml bo));
             ret out
           })
      })"

text \<open>The receiving loop of \<open>startManagers\<close>, \<open>for range 2\<close>.\<close>

fun receive_managers :: "'w bops \<Rightarrow> nat \<Rightarrow> ('w, boot_effect, goerr option) go" where
  "receive_managers bo 0 = ret None"
| "receive_managers bo (Suc n) = do {
     err \<leftarrow> ext (manager_done bo) ManagerDone;
     (case err of Some e \<Rightarrow> ret (Some e) | None \<Rightarrow> receive_managers bo n)
   }"

definition start_managers :: "'w bops \<Rightarrow> ('w, boot_effect, goerr option) go" where
  "start_managers bo = receive_managers bo 2"

text \<open>
  The constructors around the managers and \<open>registerHomeController\<close>: the controller's name, the kind
  it is for, and what the handler it completes with is closed over (\<open>home_handler\<close> is the handler).
\<close>

definition create_home_manager ::
  "'w bops \<Rightarrow> rest_config \<Rightarrow> scheme \<Rightarrow> string list \<Rightarrow> ('w, boot_effect, goerr option) go" where
  "create_home_manager bo cfg sch ns =
     (let opts = home_manager_options sch ns
      in ext (new_home_manager bo cfg opts) (NewHomeManager cfg opts))"

definition create_mc_manager ::
  "'w bops \<Rightarrow> rest_config \<Rightarrow> provider \<Rightarrow> scheme \<Rightarrow> ('w, boot_effect, goerr option) go" where
  "create_mc_manager bo cfg p sch =
     (let opts = mc_manager_options sch
      in ext (new_mc_manager bo cfg p opts) (NewMCManager cfg p opts))"

definition register_home_controller :: "'w bops \<Rightarrow> op_config \<Rightarrow> ('w, boot_effect, goerr option) go" where
  "register_home_controller bo oc =
     (let kind = \<lparr>gvk_group = fst group_version, gvk_version = snd group_version,
                  gvk_kind = ''KryptonDeployment''\<rparr>
      in ext (complete_controller bo ''kryptondeployments-home'' kind oc)
           (CompleteController ''kryptondeployments-home'' kind oc))"

text \<open>How the process ends: with \<open>os.Exit(1)\<close>, in a panic, or by returning.\<close>

datatype exit_status = Exit1 | Panicked | Ended

definition or_exit :: "goerr option \<Rightarrow> ('w, boot_effect, exit_status) go \<Rightarrow> ('w, boot_effect, exit_status) go" where
  "or_exit err next = (if err \<noteq> None then ret Exit1 else next)"

text \<open>
  \<open>RunKryptonOperator\<close> after the flags were parsed, from its end to its beginning: the controller
  and the start of the managers, the CRDs, the provider and the managers, and the whole.
\<close>

definition boot_controller :: "'w bops \<Rightarrow> op_config \<Rightarrow> ('w, boot_effect, exit_status) go" where
  "boot_controller bo oc = do {
     ctrlErr \<leftarrow> register_home_controller bo oc;
     or_exit ctrlErr (do {
       startErr \<leftarrow> start_managers bo;
       or_exit startErr (ret Ended)
     })
   }"

definition boot_crds ::
  "'w bops \<Rightarrow> rest_config \<Rightarrow> scheme \<Rightarrow> bool \<Rightarrow> op_config \<Rightarrow> ('w, boot_effect, exit_status) go" where
  "boot_crds bo cfg sch ensure oc = do {
     crd \<leftarrow> ensure_watch_crds_if_requested bo cfg sch ensure;
     (case crd of
        Panic \<Rightarrow> ret Panicked
      | Done crdErr \<Rightarrow> or_exit crdErr (boot_controller bo oc))
   }"

definition boot_managers ::
  "'w bops \<Rightarrow> rest_config \<Rightarrow> string list \<Rightarrow> bool \<Rightarrow> op_config \<Rightarrow> ('w, boot_effect, exit_status) go" where
  "boot_managers bo cfg scope ensure oc = do {
     let (homeScheme, edgeScheme, providerScheme) = build_schemes (b_clientgo bo);
     homeErr \<leftarrow> create_home_manager bo cfg homeScheme scope;
     or_exit homeErr (do {
       let p = new_provider edgeScheme (oc_namespace oc);
       mgrErr \<leftarrow> create_mc_manager bo cfg p providerScheme;
       or_exit mgrErr (do {
         setupErr \<leftarrow> setup_provider_and_health bo p;
         or_exit setupErr (boot_crds bo cfg homeScheme ensure oc)
       })
     })
   }"

definition run_krypton_operator ::
  "'w bops \<Rightarrow> flags \<Rightarrow> env \<Rightarrow> string option \<Rightarrow> ('w, boot_effect, exit_status) go" where
  "run_krypton_operator bo fl en ns_file = do {
     let se = read_settings fl en ns_file;
     ext (\<lambda>w. ((), w)) (\<lambda>_. SetHelmEnv (setup_helm_env en));
     let scope = watch_scope (se_watch_namespaces se);
     watch \<leftarrow> lift_calls BootWatch
       (build_watch_config (b_watch bo) (se_watch_kubeconfig se) (se_watch_context se)
          (se_secret_namespace se) (se_secret_name se) (se_secret_key se));
     (case watch of
        Exited \<Rightarrow> ret Exit1
      | Returned (Inl e) \<Rightarrow> ret Exit1
      | Returned (Inr (cfg, host, ctx)) \<Rightarrow>
          boot_managers bo cfg scope (se_ensure_watch_crds se)
            \<lparr>oc_namespace = se_namespace se, oc_chart_repo = fl_chart_repo fl,
             oc_chart_name = fl_chart_name fl, oc_chart_version = fl_chart_version fl\<rparr>)
   }"

text \<open>\<open>main\<close>, with the values that the flags were parsed to.\<close>

definition operator_main ::
  "'w bops \<Rightarrow> flags \<Rightarrow> env \<Rightarrow> string option \<Rightarrow> ('w, boot_effect, exit_status) go" where
  "operator_main bo fl en ns_file = run_krypton_operator bo fl en ns_file"

section \<open>Order of the steps\<close>

fun boot_index :: "boot_effect \<Rightarrow> nat" where
  "boot_index (SetHelmEnv _) = 0"
| "boot_index (BootWatch _) = 0"
| "boot_index (NewHomeManager _ _ _) = 1"
| "boot_index (NewMCManager _ _ _ _) = 2"
| "boot_index (AddHealthz _) = 3"
| "boot_index (AddReadyz _) = 4"
| "boot_index (CrdClient _ _ _) = 5"
| "boot_index (BootCrd _) = 6"
| "boot_index (CompleteController _ _ _ _) = 7"
| "boot_index (ManagerDone _) = 8"

text \<open>A step that failed, so that the process has to end. Single calls of a loop are no steps.\<close>

fun boot_failed :: "boot_effect \<Rightarrow> bool" where
  "boot_failed (NewHomeManager _ _ e) \<longleftrightarrow> e \<noteq> None"
| "boot_failed (NewMCManager _ _ _ e) \<longleftrightarrow> e \<noteq> None"
| "boot_failed (AddHealthz e) \<longleftrightarrow> e \<noteq> None"
| "boot_failed (AddReadyz e) \<longleftrightarrow> e \<noteq> None"
| "boot_failed (CrdClient _ _ e) \<longleftrightarrow> e \<noteq> None"
| "boot_failed (CompleteController _ _ _ e) \<longleftrightarrow> e \<noteq> None"
| "boot_failed (ManagerDone e) \<longleftrightarrow> e \<noteq> None"
| "boot_failed _ \<longleftrightarrow> False"

fun crd_call :: "boot_effect \<Rightarrow> bool" where
  "crd_call (CrdClient _ _ _) \<longleftrightarrow> True"
| "crd_call (BootCrd _) \<longleftrightarrow> True"
| "crd_call _ \<longleftrightarrow> False"

lemma emits_lift_calls:
  "emits (\<lambda>_. True) (lift_calls f m) (\<lambda>a es. \<exists>es0. es = map f es0)"
  unfolding emits_def
proof (intro allI impI)
  fix s :: "('a, 'b) sys"
  obtain a s' where r: "run_state m \<lparr>world = world s, trace = [], interval = interval s\<rparr> = (a, s')"
    by (cases "run_state m \<lparr>world = world s, trace = [], interval = interval s\<rparr>")
  show "\<exists>es. trace (snd (run_state (lift_calls f m) s)) = trace s @ es \<and>
      (\<exists>es0. es = map f es0) \<and> True"
    by (auto simp: lift_calls_def r)
qed

lemma emits_case_process [wp_rules]:
  "(x = Exited \<Longrightarrow> emits I m P) \<Longrightarrow> (\<And>a. x = Returned a \<Longrightarrow> emits I (f a) P) \<Longrightarrow>
   emits I (case x of Exited \<Rightarrow> m | Returned a \<Rightarrow> f a) P"
  by (cases x) auto

lemma emits_case_outcome [wp_rules]:
  "(\<And>a. x = Done a \<Longrightarrow> emits I (f a) P) \<Longrightarrow> (x = Panic \<Longrightarrow> emits I m P) \<Longrightarrow>
   emits I (case x of Done a \<Rightarrow> f a | Panic \<Rightarrow> m) P"
  by (cases x) auto

lemma emits_setup:
  "emits I (setup_provider_and_health bo p) (\<lambda>r es.
     r = None \<and> es = [AddHealthz None, AddReadyz None] \<or>
     (\<exists>e. r = Some e \<and> (es = [AddHealthz (Some e)] \<or> es = [AddHealthz None, AddReadyz (Some e)])))"
  unfolding setup_provider_and_health_def provider_setup_with_manager_def option.case
  by (intro wp_rules; hypsubst?) auto

lemma emits_ensure:
  "emits (\<lambda>_. True) (ensure_watch_crds_if_requested bo cfg sch ensure) (\<lambda>r es.
     \<not> ensure \<and> es = [] \<and> r = Done None \<or>
     ensure \<and> (\<exists>e. es = [CrdClient cfg sch (Some e)] \<and> r = Done (Some e)) \<or>
     ensure \<and> (\<exists>es0. es = CrdClient cfg sch None # map BootCrd es0))"
  unfolding ensure_watch_crds_if_requested_def
  by (intro wp_rules emits_bind [OF emits_lift_calls]; hypsubst?) auto

lemma emits_start:
  "emits I (start_managers bo) (\<lambda>r es.
     r = None \<and> es = [ManagerDone None, ManagerDone None] \<or>
     (\<exists>e. r = Some e \<and> (es = [ManagerDone (Some e)] \<or> es = [ManagerDone None, ManagerDone (Some e)])))"
  unfolding start_managers_def numeral_2_eq_2 receive_managers.simps
  by (intro wp_rules; hypsubst?) auto

lemma emits_or_exit [wp_rules]:
  "(err \<noteq> None \<Longrightarrow> P Exit1 []) \<Longrightarrow> (err = None \<Longrightarrow> emits I m P) \<Longrightarrow> emits I (or_exit err m) P"
  by (auto simp: or_exit_def intro: emits_ret)

lemma map_boot_index [simp]:
  "map (boot_index \<circ> BootWatch) es = replicate (length es) 0"
  "map (boot_index \<circ> BootCrd) es' = replicate (length es') 6"
  by (induction es; simp) (induction es'; simp)

text \<open>
  \<open>boot_post n ensure r es\<close>: from step \<open>n\<close> on the steps come in order, a failed one is the last call,
  CRD calls are only made on request, and the process ends normally only after both managers have.
\<close>

definition boot_post :: "nat \<Rightarrow> bool \<Rightarrow> exit_status \<Rightarrow> boot_effect list \<Rightarrow> bool" where
  "boot_post n ensure r es \<longleftrightarrow>
     sorted (map boot_index es) \<and> list_all (\<lambda>e. n \<le> boot_index e) es \<and>
     list_all (\<lambda>e. \<not> boot_failed e) (butlast es) \<and>
     (ensure \<or> list_all (\<lambda>e. \<not> crd_call e) es) \<and>
     (r = Ended \<longrightarrow> list_all (\<lambda>e. \<not> boot_failed e) es \<and>
        (\<exists>pre. es = pre @ [ManagerDone None, ManagerDone None]))"

lemma boot_post_Nil: "r \<noteq> Ended \<Longrightarrow> boot_post n ensure r []"
  by (simp add: boot_post_def)

lemma boot_post_failed:
  "n \<le> boot_index x \<Longrightarrow> ensure \<or> \<not> crd_call x \<Longrightarrow> r \<noteq> Ended \<Longrightarrow> boot_post n ensure r [x]"
  by (simp add: boot_post_def)

lemma boot_post_append:
  assumes "boot_post k ensure r es" and "sorted (map boot_index xs)"
    and "list_all (\<lambda>e. n \<le> boot_index e \<and> boot_index e \<le> k \<and> \<not> boot_failed e) xs"
    and "ensure \<or> list_all (\<lambda>e. \<not> crd_call e) xs" and "n \<le> k"
  shows "boot_post n ensure r (xs @ es)"
proof -
  have "boot_index x \<le> boot_index y" if "x \<in> set xs" "y \<in> set es" for x y
    using that assms(1,3) by (fastforce simp: boot_post_def list_all_iff)
  moreover have "list_all (\<lambda>e. n \<le> boot_index e) es"
    using assms(1,5) by (auto simp: boot_post_def list_all_iff)
  moreover have "list_all (\<lambda>e. \<not> boot_failed e) (butlast (xs @ es))"
    using assms(1,3) by (auto simp: boot_post_def butlast_append list_all_iff dest: in_set_butlastD)
  ultimately show ?thesis
    using assms(1-4) by (auto simp: boot_post_def sorted_append list_all_iff)
qed

lemma boot_post_managers:
  "boot_post 5 ensure r es \<Longrightarrow> boot_post 1 ensure r
     (NewHomeManager a b None # NewMCManager c d f None # AddHealthz None # AddReadyz None # es)"
  using boot_post_append [of 5 ensure r es
      "[NewHomeManager a b None, NewMCManager c d f None, AddHealthz None, AddReadyz None]" 1]
  by simp

lemma boot_post_setup_failed:
  "boot_post 1 ensure Exit1 [NewHomeManager a b (Some e)]"
  "boot_post 1 ensure Exit1 [NewHomeManager a b None, NewMCManager c d f (Some e)]"
  "boot_post 1 ensure Exit1 [NewHomeManager a b None, NewMCManager c d f None, AddHealthz (Some e)]"
  "boot_post 1 ensure Exit1
     [NewHomeManager a b None, NewMCManager c d f None, AddHealthz None, AddReadyz (Some e)]"
  by (simp_all add: boot_post_def)

lemma boot_post_watch: "boot_post 1 ensure r es \<Longrightarrow> boot_post 0 ensure r (map BootWatch ws @ es)"
  by (rule boot_post_append) (auto simp: list_all_iff sorted_replicate)

lemma boot_post_env: "boot_post 0 ensure r es \<Longrightarrow> boot_post 0 ensure r (SetHelmEnv e # es)"
  using boot_post_append [of 0 ensure r es "[SetHelmEnv e]" 0] by simp

lemma boot_post_watch_failed: "r \<noteq> Ended \<Longrightarrow> boot_post 0 ensure r (map BootWatch ws)"
  using boot_post_watch [OF boot_post_Nil, of r ensure ws] by simp

lemma emits_boot_controller:
  "emits (\<lambda>_. True) (boot_controller bo oc) (boot_post 7 ensure)"
  unfolding boot_controller_def register_home_controller_def Let_def
  by (intro wp_rules emits_bind [OF emits_start]; hypsubst?)
    (auto simp: boot_post_def)

lemma emits_boot_crds:
  "emits (\<lambda>_. True) (boot_crds bo cfg sch ensure oc) (boot_post 5 ensure)"
  unfolding boot_crds_def
proof (rule emits_bind [OF emits_ensure])
  fix out es
  assume out: "\<not> ensure \<and> es = [] \<and> out = Done None \<or>
     ensure \<and> (\<exists>e. es = [CrdClient cfg sch (Some e)] \<and> out = Done (Some e)) \<or>
     ensure \<and> (\<exists>es0. es = CrdClient cfg sch None # map BootCrd es0)"
  have next_ok: "boot_post 5 ensure r (es @ es')"
    if "boot_post 7 ensure r es'" "\<not> (\<exists>e. es = [CrdClient cfg sch (Some e)])" for r es'
    by (rule boot_post_append [OF that(1)])
      (use out that(2) in \<open>auto simp: list_all_iff sorted_replicate\<close>)
  have "boot_failed x \<Longrightarrow> x \<notin> set (map BootCrd es0)" for x es0 by auto
  then have stop_ok: "boot_post 5 ensure r es" if "r \<noteq> Ended" for r
    using out that
    by (elim disjE conjE exE)
      (auto simp: boot_post_def list_all_iff sorted_replicate simp flip: map_butlast
        dest: in_set_butlastD split: if_splits)
  show "emits (\<lambda>_. True)
      (case out of Done crdErr \<Rightarrow> or_exit crdErr (boot_controller bo oc) | Panic \<Rightarrow> ret Panicked)
      (\<lambda>r es'. boot_post 5 ensure r (es @ es'))"
    by (intro wp_rules emits_conseq [OF emits_boot_controller [where ensure = ensure]])
      (use stop_ok next_ok out in auto)
qed

lemma emits_boot_managers:
  "emits (\<lambda>_. True) (boot_managers bo cfg scope ensure oc) (boot_post 1 ensure)"
  unfolding boot_managers_def create_home_manager_def create_mc_manager_def Let_def
  by (intro wp_rules emits_bind [OF emits_setup] emits_conseq [OF emits_boot_crds]; hypsubst?;
      (elim disjE conjE exE)?; hypsubst?)
    (auto simp del: One_nat_def intro: boot_post_managers boot_post_setup_failed)

theorem emits_run_krypton_operator:
  "emits (\<lambda>_. True) (run_krypton_operator bo fl en ns_file)
     (boot_post 0 (se_ensure_watch_crds (read_settings fl en ns_file)))"
  unfolding run_krypton_operator_def Let_def
  by (intro wp_rules emits_bind [OF emits_lift_calls] emits_conseq [OF emits_boot_managers]; hypsubst?)
    (auto intro!: boot_post_env intro: boot_post_watch boot_post_watch_failed)

lemma upholds_lift_calls: "(\<And>e. Q (f e)) \<Longrightarrow> upholds Q (lift_calls f m)"
  by (rule upholdsI) (auto simp: lift_calls_def list_all_iff split: prod.splits)

lemma upholds_or_exit [up_rules]: "upholds Q m \<Longrightarrow> upholds Q (or_exit err m)"
  unfolding or_exit_def by (intro up_rules)

lemma upholds_case_process [up_rules]:
  "upholds Q m \<Longrightarrow> (\<And>a. upholds Q (f a)) \<Longrightarrow>
   upholds Q (case x of Exited \<Rightarrow> m | Returned a \<Rightarrow> f a)"
  by (cases x) auto

lemma upholds_case_outcome [up_rules]:
  "(\<And>a. upholds Q (f a)) \<Longrightarrow> upholds Q m \<Longrightarrow>
   upholds Q (case x of Done a \<Rightarrow> f a | Panic \<Rightarrow> m)"
  by (cases x) auto

section \<open>What a failed step stops\<close>

text \<open>
  Two phases of the start are made of several calls, and their failure is a matter of the result.
  \<open>crd_shown\<close> is a call that showed the CRD to be there.
\<close>

fun crd_shown :: "boot_effect \<Rightarrow> bool" where
  "crd_shown (BootCrd e) \<longleftrightarrow> crd_present e"
| "crd_shown _ \<longleftrightarrow> False"

text \<open>The calls after the CRDs: the controller is registered, a manager has run.\<close>

fun needs_crds :: "boot_effect \<Rightarrow> bool" where
  "needs_crds (CompleteController _ _ _ _) \<longleftrightarrow> True"
| "needs_crds (ManagerDone _) \<longleftrightarrow> True"
| "needs_crds _ \<longleftrightarrow> False"

text \<open>The calls after the watch configuration, made with the configuration \<open>cfg\<close>.\<close>

fun uses_config :: "rest_config \<Rightarrow> boot_effect \<Rightarrow> bool" where
  "uses_config cfg (SetHelmEnv _) \<longleftrightarrow> False"
| "uses_config cfg (BootWatch _) \<longleftrightarrow> False"
| "uses_config cfg (NewHomeManager c _ _) \<longleftrightarrow> c = cfg"
| "uses_config cfg (NewMCManager c _ _ _) \<longleftrightarrow> c = cfg"
| "uses_config cfg (CrdClient c _ _) \<longleftrightarrow> c = cfg"
| "uses_config cfg _ \<longleftrightarrow> True"

lemma emits_lift_post:
  assumes "emits (\<lambda>_. True) m P"
  shows "emits (\<lambda>_. True) (lift_calls f m) (\<lambda>a es. \<exists>es0. es = map f es0 \<and> P a es0)"
  unfolding emits_def
proof (intro allI impI)
  fix s :: "('a, 'd) sys"
  let ?s0 = "\<lparr>world = world s, trace = [], interval = interval s\<rparr>"
  obtain a s' where r: "run_state m ?s0 = (a, s')" by (cases "run_state m ?s0")
  with run_judged [OF assms, of ?s0] have "P a (trace s')" by (simp add: calls_def)
  with r show "\<exists>es. trace (snd (run_state (lift_calls f m) s)) = trace s @ es \<and>
      (\<exists>es0. es = map f es0 \<and> P (fst (run_state (lift_calls f m) s)) es0) \<and> True"
    by (auto simp: lift_calls_def)
qed

lemma emits_crd_success:
  "emits (\<lambda>_. True) (ensure_krypton_deployment_crd ops yaml)
     (\<lambda>out es. out = Done None \<longrightarrow> list_ex crd_present es)"
  unfolding ensure_krypton_deployment_crd_def
  by (rule emits_conseq [OF emits_ensure_crd_loop])
    (auto dest!: crd_run_success simp: list_ex_iff)

lemma emits_ensure_shown:
  "emits (\<lambda>_. True) (ensure_watch_crds_if_requested bo cfg sch True)
     (\<lambda>out es. list_all (\<lambda>e. \<not> needs_crds e) es \<and> (out = Done None \<longrightarrow> list_ex crd_shown es))"
  unfolding ensure_watch_crds_if_requested_def
  by (intro wp_rules emits_bind [OF emits_lift_post [OF emits_crd_success]]; hypsubst?)
    (auto simp: list_all_iff list_ex_iff)

lemma emits_crds_guard:
  "emits (\<lambda>_. True) (boot_crds bo cfg sch True oc) (\<lambda>_. guarded crd_shown needs_crds)"
  unfolding boot_crds_def
proof (rule emits_bind [OF emits_ensure_shown])
  fix out :: "goerr option outcome" and es
  assume es: "list_all (\<lambda>e. \<not> needs_crds e) es \<and> (out = Done None \<longrightarrow> list_ex crd_shown es)"
  then have go: "guarded crd_shown needs_crds (es @ es')" if "out = Done None" for es'
    using that by (simp add: guarded_none)
  from es have stop: "guarded crd_shown needs_crds es" by (simp add: guarded_none)
  show "emits (\<lambda>_. True)
      (case out of Done crdErr \<Rightarrow> or_exit crdErr (boot_controller bo oc) | Panic \<Rightarrow> ret Panicked)
      (\<lambda>_ es'. guarded crd_shown needs_crds (es @ es'))"
    by (intro wp_rules emits_conseq [OF emits_boot_controller [where ensure = True]]; hypsubst?)
      (use go stop in auto)
qed

lemma emits_managers_guard:
  "emits (\<lambda>_. True) (boot_managers bo cfg scope True oc) (\<lambda>_. guarded crd_shown needs_crds)"
  unfolding boot_managers_def create_home_manager_def create_mc_manager_def Let_def
  by (intro wp_rules emits_bind [OF emits_setup] emits_conseq [OF emits_crds_guard]; hypsubst?;
      (elim disjE conjE exE)?; hypsubst?)
    auto

lemma emits_operator_guard:
  assumes "se_ensure_watch_crds (read_settings fl en ns_file)"
  shows "emits (\<lambda>_. True) (run_krypton_operator bo fl en ns_file)
    (\<lambda>_. guarded crd_shown needs_crds)"
proof -
  have quiet: "guarded crd_shown needs_crds (map BootWatch ws @ es) = guarded crd_shown needs_crds es"
    for ws es by (induction ws) auto
  from quiet [of _ "[]"] show ?thesis
    unfolding run_krypton_operator_def Let_def assms eqTrueI [OF assms]
    by (intro wp_rules emits_bind [OF emits_lift_calls] emits_conseq [OF emits_managers_guard];
        hypsubst?)
      (auto simp: quiet)
qed

lemma config_setup: "upholds (uses_config cfg) (setup_provider_and_health bo p)"
  unfolding setup_provider_and_health_def provider_setup_with_manager_def option.case
  by (intro up_rules upholds_ext) simp_all

lemma config_start: "upholds (uses_config cfg) (start_managers bo)"
  unfolding start_managers_def numeral_2_eq_2 receive_managers.simps
  by (intro up_rules upholds_ext) simp_all

lemma config_used: "upholds (uses_config cfg) (boot_managers bo cfg scope ensure oc)"
  unfolding boot_managers_def create_home_manager_def create_mc_manager_def boot_crds_def
    boot_controller_def register_home_controller_def ensure_watch_crds_if_requested_def Let_def
  by (intro up_rules upholds_ext upholds_lift_calls config_setup config_start) simp_all

text \<open>
  \<open>after_watch\<close>: with the result \<open>w\<close> and the calls \<open>ws\<close> of \<open>build_watch_config\<close>, a success is followed
  by calls that use its configuration, and everything else by the end of the process.
\<close>

definition after_watch ::
  "env \<Rightarrow> watch_result \<Rightarrow> watch_effect list \<Rightarrow> exit_status \<Rightarrow> boot_effect list \<Rightarrow> bool" where
  "after_watch en w ws r es \<longleftrightarrow>
     (case w of
        Returned (Inr (cfg, host, used)) \<Rightarrow>
          \<exists>rest. es = SetHelmEnv (setup_helm_env en) # map BootWatch ws @ rest \<and>
            list_all (uses_config cfg) rest
      | _ \<Rightarrow> r = Exit1 \<and> es = SetHelmEnv (setup_helm_env en) # map BootWatch ws)"

abbreviation watch_phase :: "'w bops \<Rightarrow> settings \<Rightarrow> ('w, watch_effect, watch_result) go" where
  "watch_phase bo se \<equiv>
     build_watch_config (b_watch bo) (se_watch_kubeconfig se) (se_watch_context se)
       (se_secret_namespace se) (se_secret_name se) (se_secret_key se)"

definition before_watch :: "('w, boot_effect) sys \<Rightarrow> ('w, watch_effect) sys" where
  "before_watch s = \<lparr>world = world s, trace = [], interval = interval s\<rparr>"

lemma run_after_watch:
  fixes s :: "('w, boot_effect) sys" and bo fl en ns_file
  shows "after_watch en
    (result_of (watch_phase bo (read_settings fl en ns_file)) (before_watch s))
    (calls (watch_phase bo (read_settings fl en ns_file)) (before_watch s))
    (result_of (run_krypton_operator bo fl en ns_file) s)
    (calls (run_krypton_operator bo fl en ns_file) s)"
proof -
  let ?m = "watch_phase bo (read_settings fl en ns_file)"
  obtain w s1 where run: "run_state ?m (before_watch s) = (w, s1)"
    by (cases "run_state ?m (before_watch s)")
  then have ws: "calls ?m (before_watch s) = trace s1" by (simp add: calls_def before_watch_def)
  note ext_run = run_krypton_operator_def Let_def lift_calls_def run [unfolded before_watch_def]
  show ?thesis
  proof (cases "\<exists>cfg host used. w = Returned (Inr (cfg, host, used))")
    case True
    then obtain cfg host used where w: "w = Returned (Inr (cfg, host, used))" by blast
    let ?boot = "boot_managers bo cfg (watch_scope (se_watch_namespaces (read_settings fl en ns_file)))
      (se_ensure_watch_crds (read_settings fl en ns_file))
      \<lparr>oc_namespace = se_namespace (read_settings fl en ns_file), oc_chart_repo = fl_chart_repo fl,
       oc_chart_name = fl_chart_name fl, oc_chart_version = fl_chart_version fl\<rparr>"
    let ?s = "\<lparr>world = world s1,
      trace = (trace s @ [SetHelmEnv (setup_helm_env en)]) @ map BootWatch (trace s1),
      interval = interval s1\<rparr>"
    have same: "run_state (run_krypton_operator bo fl en ns_file) s = run_state ?boot ?s"
      by (simp add: ext_run w)
    from upholdsD(1) [OF config_used] obtain rest
      where "trace (snd (run_state ?boot ?s)) = trace ?s @ rest" and used: "list_all (uses_config cfg) rest"
      by blast
    then have "calls (run_krypton_operator bo fl en ns_file) s =
        SetHelmEnv (setup_helm_env en) # map BootWatch (trace s1) @ rest"
      by (simp add: calls_def same)
    with used show ?thesis by (simp add: run ws w after_watch_def)
  next
    case False
    then have same: "run_state (run_krypton_operator bo fl en ns_file) s = (Exit1, \<lparr>world = world s1,
      trace = (trace s @ [SetHelmEnv (setup_helm_env en)]) @ map BootWatch (trace s1),
      interval = interval s1\<rparr>)"
      by (cases w; simp add: ext_run split: sum.splits; auto)
    then have "calls (run_krypton_operator bo fl en ns_file) s =
        SetHelmEnv (setup_helm_env en) # map BootWatch (trace s1)"
      by (simp add: calls_def)
    with False same show ?thesis
      by (auto simp: run ws after_watch_def split: process.splits sum.splits)
  qed
qed

section \<open>The two managers and the channel\<close>

text \<open>
  \<open>startManagers\<close> as a transition system: each goroutine runs its manager and then sends what
  \<open>Start\<close> returned into the channel of capacity two; the caller receives up to two values and
  returns at the first error. \<open>None\<close> for a manager is \<open>still running\<close>, for the result \<open>still
  waiting\<close>.
\<close>

record group =
  gr_home :: "goerr option option"
  gr_mc :: "goerr option option"
  gr_chan :: "goerr option list"
  gr_got :: nat
  gr_result :: "goerr option option"

definition chan_capacity :: nat where
  "chan_capacity = 2"

definition group_start :: group where
  "group_start = \<lparr>gr_home = None, gr_mc = None, gr_chan = [], gr_got = 0, gr_result = None\<rparr>"

inductive group_step :: "group \<Rightarrow> group \<Rightarrow> bool" where
  home_returns: "gr_home g = None \<Longrightarrow> length (gr_chan g) < chan_capacity \<Longrightarrow>
     group_step g (g\<lparr>gr_home := Some r, gr_chan := gr_chan g @ [r]\<rparr>)"
| mc_returns: "gr_mc g = None \<Longrightarrow> length (gr_chan g) < chan_capacity \<Longrightarrow>
     group_step g (g\<lparr>gr_mc := Some r, gr_chan := gr_chan g @ [r]\<rparr>)"
| receive_error: "gr_result g = None \<Longrightarrow> gr_chan g = Some e # rs \<Longrightarrow>
     group_step g (g\<lparr>gr_chan := rs, gr_result := Some (Some e)\<rparr>)"
| receive_nil: "gr_result g = None \<Longrightarrow> gr_chan g = None # rs \<Longrightarrow>
     group_step g (g\<lparr>gr_chan := rs, gr_got := Suc (gr_got g),
       gr_result := (if Suc (gr_got g) = 2 then Some None else None)\<rparr>)"

inductive_cases group_stepE: "group_step g g'"

definition group_returned :: "group \<Rightarrow> goerr option multiset" where
  "group_returned g =
     (case gr_home g of None \<Rightarrow> {#} | Some r \<Rightarrow> {#r#}) +
     (case gr_mc g of None \<Rightarrow> {#} | Some r \<Rightarrow> {#r#})"

text \<open>What was sent is in the channel or was received.\<close>

definition group_inv :: "group \<Rightarrow> bool" where
  "group_inv g \<longleftrightarrow>
     group_returned g = mset (gr_chan g) + replicate_mset (gr_got g) None +
       (case gr_result g of Some (Some e) \<Rightarrow> {#Some e#} | _ \<Rightarrow> {#}) \<and>
     (case gr_result g of
        None \<Rightarrow> gr_got g < 2
      | Some None \<Rightarrow> gr_got g = 2
      | Some (Some e) \<Rightarrow> gr_got g < 2)"

lemma group_inv_start: "group_inv group_start"
  by (simp add: group_inv_def group_start_def group_returned_def)

lemma group_inv_step: "group_step g g' \<Longrightarrow> group_inv g \<Longrightarrow> group_inv g'"
  by (erule group_stepE) (auto simp: group_inv_def group_returned_def split: option.splits)

lemma group_inv_reachable: "group_step\<^sup>*\<^sup>* group_start g \<Longrightarrow> group_inv g"
  by (induction rule: rtranclp_induct) (auto intro: group_inv_start group_inv_step)

lemma group_returned_size:
  "size (group_returned g) =
     (if gr_home g = None then 0 else 1) + (if gr_mc g = None then 0 else 1)"
  by (auto simp: group_returned_def split: option.splits)

section \<open>Properties\<close>

text \<open>
  C37. The steps of a start come in the order of the code, and a call that fails the start is the
  last one. Without a configuration from \<open>buildWatchConfig\<close> the process exits and nothing else is
  called; with one, every later call uses it. CRD calls are made on request only, and then the
  controller is registered and the managers run only after a call that showed the CRD to be there.
  The process ends normally only after both managers returned without an error.
\<close>

theorem run_operator_steps:
  "boot_post 0 (se_ensure_watch_crds (read_settings fl en ns_file))
     (result_of (run_krypton_operator bo fl en ns_file) s)
     (calls (run_krypton_operator bo fl en ns_file) s) \<and>
   (if se_ensure_watch_crds (read_settings fl en ns_file)
    then guarded crd_shown needs_crds (calls (run_krypton_operator bo fl en ns_file) s) else True) \<and>
   after_watch en
     (result_of (watch_phase bo (read_settings fl en ns_file)) (before_watch s))
     (calls (watch_phase bo (read_settings fl en ns_file)) (before_watch s))
     (result_of (run_krypton_operator bo fl en ns_file) s)
     (calls (run_krypton_operator bo fl en ns_file) s)"
proof (intro conjI)
  show "if se_ensure_watch_crds (read_settings fl en ns_file)
      then guarded crd_shown needs_crds (calls (run_krypton_operator bo fl en ns_file) s) else True"
    using run_judged [OF emits_operator_guard] by auto
qed (rule run_judged [OF emits_run_krypton_operator], rule run_after_watch)

text \<open>
  C39. In every interleaving \<open>startManagers\<close> returns nil only when both managers have returned nil,
  and an error only when one of them has returned it.
\<close>

theorem start_managers_result_sound:
  assumes "group_step\<^sup>*\<^sup>* group_start g"
  shows "case gr_result g of
      None \<Rightarrow> True
    | Some None \<Rightarrow> gr_home g = Some None \<and> gr_mc g = Some None
    | Some (Some e) \<Rightarrow> gr_home g = Some (Some e) \<or> gr_mc g = Some (Some e)"
proof (cases "gr_result g")
  case (Some r)
  note inv = group_inv_reachable [OF assms]
  show ?thesis
  proof (cases r)
    case None
    with Some inv have "group_returned g = mset (gr_chan g) + {#None, None#}"
      by (simp add: group_inv_def numeral_2_eq_2)
    then show ?thesis
      using Some None group_returned_size [of g]
      by (auto simp: group_returned_def add_eq_conv_ex split: option.splits if_splits)
  next
    case (Some e)
    with \<open>gr_result g = Some r\<close> inv have "Some e \<in># group_returned g"
      by (simp add: group_inv_def)
    then show ?thesis
      using Some \<open>gr_result g = Some r\<close> by (auto simp: group_returned_def split: option.splits)
  qed
qed simp

theorem start_managers_result_sound_witness:
  "gr_home (group_start\<lparr>gr_home := Some (Some (new_err ''down'')),
      gr_result := Some (Some (new_err ''down''))\<rparr>) = Some (Some (new_err ''down'')) \<or>
   gr_mc (group_start\<lparr>gr_home := Some (Some (new_err ''down'')),
      gr_result := Some (Some (new_err ''down''))\<rparr>) = Some (Some (new_err ''down''))"
proof -
  let ?e = "new_err ''down''"
  let ?g = "group_start\<lparr>gr_home := Some (Some ?e), gr_chan := [Some ?e]\<rparr>"
  have "group_step group_start ?g"
    using home_returns [of group_start "Some ?e"] by (simp add: group_start_def chan_capacity_def)
  moreover have "group_step ?g (?g\<lparr>gr_chan := [], gr_result := Some (Some ?e)\<rparr>)"
    using receive_error [of ?g ?e "[]"] by (simp add: group_start_def)
  ultimately have "group_step\<^sup>*\<^sup>* group_start (?g\<lparr>gr_chan := [], gr_result := Some (Some ?e)\<rparr>)"
    by (meson rtranclp.rtrancl_refl rtranclp.rtrancl_into_rtrancl)
  from start_managers_result_sound [OF this] show ?thesis
    by (simp add: group_start_def)
qed

text \<open>
  C40. The goroutine of a manager that returns can always send at once, and the caller is never
  stuck: once both managers have returned, it has its result or a value to receive.
\<close>

theorem start_managers_never_blocks:
  assumes "group_step\<^sup>*\<^sup>* group_start g"
  shows "(if gr_home g = None \<or> gr_mc g = None then length (gr_chan g) < chan_capacity
     else gr_result g \<noteq> None \<or> gr_chan g \<noteq> [])"
proof -
  note inv = group_inv_reachable [OF assms]
  have size: "size (group_returned g) = length (gr_chan g) + gr_got g +
      (case gr_result g of Some (Some e) \<Rightarrow> 1 | _ \<Rightarrow> 0)"
    using inv by (auto simp: group_inv_def split: option.splits)
  show ?thesis
    using size group_returned_size [of g] inv
    by (auto simp: group_inv_def chan_capacity_def split: if_splits option.splits)
qed

theorem start_managers_never_blocks_witness:
  "gr_chan (group_start\<lparr>gr_home := Some None, gr_mc := Some None, gr_chan := [None, None]\<rparr>) \<noteq> []"
proof -
  let ?g = "group_start\<lparr>gr_home := Some None, gr_chan := [None]\<rparr>"
  have "group_step group_start ?g"
    using home_returns [of group_start None] by (simp add: group_start_def chan_capacity_def)
  moreover have "group_step ?g (?g\<lparr>gr_mc := Some None, gr_chan := [None, None]\<rparr>)"
    using mc_returns [of ?g None] by (simp add: group_start_def chan_capacity_def)
  ultimately have "group_step\<^sup>*\<^sup>* group_start (?g\<lparr>gr_mc := Some None, gr_chan := [None, None]\<rparr>)"
    by (meson rtranclp.rtrancl_refl rtranclp.rtrancl_into_rtrancl)
  from start_managers_never_blocks [OF this] show ?thesis
    by (simp add: group_start_def)
qed

end
