(* ===== verification/Startup_Wiring.thy ===== *)
theory Startup_Wiring
  imports Startup
begin

text \<open>
  What the start of the process hands to the parts it constructs: the settings read from flags and
  environment arrive in the managers, the provider and the reconciler.
\<close>

section \<open>Calls with the right arguments\<close>

definition operator_config :: "flags \<Rightarrow> env \<Rightarrow> string option \<Rightarrow> op_config" where
  "operator_config fl en ns_file =
     \<lparr>oc_namespace = se_namespace (read_settings fl en ns_file), oc_chart_repo = fl_chart_repo fl,
      oc_chart_name = fl_chart_name fl, oc_chart_version = fl_chart_version fl\<rparr>"

text \<open>\<open>wired\<close> looks at the arguments only, whatever a call answers.\<close>

fun wired :: "flags \<Rightarrow> env \<Rightarrow> string option \<Rightarrow> boot_effect \<Rightarrow> bool" where
  "wired fl en f (SetHelmEnv e) \<longleftrightarrow> e = setup_helm_env en"
| "wired fl en f (NewHomeManager cfg opts r) \<longleftrightarrow>
     mo_cache opts = home_cache (watch_scope (se_watch_namespaces (read_settings fl en f))) \<and>
     set registered_kinds \<subseteq> set (mo_scheme opts)"
| "wired fl en f (NewMCManager cfg p opts r) \<longleftrightarrow>
     p = new_provider (pv_scheme p) (oc_namespace (operator_config fl en f)) \<and>
     set registered_kinds \<subseteq> set (pv_scheme p) \<and>
     set registered_kinds \<subseteq> set (mo_scheme opts)"
| "wired fl en f (CrdClient cfg sch r) \<longleftrightarrow>
     se_ensure_watch_crds (read_settings fl en f) \<and> set registered_kinds \<subseteq> set sch"
| "wired fl en f (CompleteController n k oc r) \<longleftrightarrow>
     k \<in> set registered_kinds \<and> oc = operator_config fl en f"
| "wired fl en f _ \<longleftrightarrow> True"

lemma wired_start: "upholds (wired fl en f) (start_managers bo)"
  unfolding start_managers_def numeral_2_eq_2 receive_managers.simps
  by (intro up_rules upholds_ext) simp_all

lemma wired_setup: "upholds (wired fl en f) (setup_provider_and_health bo p)"
  unfolding setup_provider_and_health_def provider_setup_with_manager_def option.case
  by (intro up_rules upholds_ext) simp_all

lemma wired_boot_crds:
  assumes "oc = operator_config fl en f" and "set registered_kinds \<subseteq> set sch"
  shows "upholds (wired fl en f)
    (boot_crds bo cfg sch (se_ensure_watch_crds (read_settings fl en f)) oc)"
proof -
  have "upholds (wired fl en f) (ensure_watch_crds_if_requested bo cfg sch
      (se_ensure_watch_crds (read_settings fl en f)))"
  proof (cases "se_ensure_watch_crds (read_settings fl en f)")
    case True
    then show ?thesis
      unfolding ensure_watch_crds_if_requested_def
      by (intro up_rules upholds_ext upholds_lift_calls) (use assms(2) in simp_all)
  next
    case False
    then show ?thesis by (simp add: ensure_watch_crds_if_requested_def upholds_ret)
  qed
  then show ?thesis
    unfolding boot_crds_def boot_controller_def register_home_controller_def Let_def
    by (intro up_rules upholds_ext wired_start) (simp_all add: assms(1) registered_kinds_def)
qed

lemma wired_boot_managers:
  assumes "oc = operator_config fl en f"
    and "scope = watch_scope (se_watch_namespaces (read_settings fl en f))"
  shows "upholds (wired fl en f)
    (boot_managers bo cfg scope (se_ensure_watch_crds (read_settings fl en f)) oc)"
  unfolding boot_managers_def build_schemes_def create_home_manager_def create_mc_manager_def Let_def
    prod.case
  by (intro up_rules upholds_ext wired_setup wired_boot_crds)
    (auto simp: assms home_manager_options_def mc_manager_options_def new_provider_def)

section \<open>Property\<close>

text \<open>
  C38. Every part is constructed with the settings read: the home manager's cache has the namespaces
  to watch, the provider falls back to the same namespace the reconciler resolves its targets in,
  the reconciler is registered for a registered kind and gets the chart of the flags, both managers, the edge clusters and the CRD client know the operator's
  kinds, and the CRD client is made only when the CRDs were asked for.
\<close>

theorem run_operator_wiring:
  "list_all (wired fl en ns_file) (calls (run_krypton_operator bo fl en ns_file) s)"
proof (rule upholdsD(2))
  show "upholds (wired fl en ns_file) (run_krypton_operator bo fl en ns_file)"
    unfolding run_krypton_operator_def Let_def
    by (intro up_rules upholds_ext upholds_lift_calls wired_boot_managers)
      (simp_all add: operator_config_def)
qed

end
