(* ===== verification/Deep_Copy.thy ===== *)
theory Deep_Copy
  imports Api_Types
begin

text \<open>
  \<open>api/v1alpha1/deepcopy_manual.go\<close>: the hand-written deep copies of the API types, on a heap.
  An address stands for a Go pointer or for the array behind a slice; \<open>None\<close> is nil. The deep copies
  of the API machinery's own types (\<open>ObjectMeta\<close>, \<open>ListMeta\<close>, \<open>Condition\<close>, \<open>Time\<close>) are copies of
  values here. The locale \<open>deep_copier\<close> is the contract of a deep copy: the copy reads the same, and
  everything it reaches is new, so that no write through the copy is seen through the original.
\<close>

section \<open>The heap\<close>

type_synonym addr = nat

type_synonym heap_deployment = "(addr, addr option) krypton_deployment"

datatype cell =
    KubeconfigCell kubeconfig_ref
  | TimeCell int
  | ConditionsCell "condition list"
  | DeploymentsCell "heap_deployment list"
  | AccountsCell "addr account list"
  | RegionsCell "region list"

record heap =
  cells :: "addr \<rightharpoonup> cell"
  next_addr :: addr

definition alloc :: "cell \<Rightarrow> heap \<Rightarrow> addr \<times> heap" where
  "alloc c h =
     (next_addr h, h\<lparr>cells := (cells h)(next_addr h \<mapsto> c), next_addr := Suc (next_addr h)\<rparr>)"

text \<open>\<open>grown h h'\<close>: the cells of \<open>h\<close> are still there, unchanged.\<close>

definition grown :: "heap \<Rightarrow> heap \<Rightarrow> bool" where
  "grown h h' \<longleftrightarrow> next_addr h \<le> next_addr h' \<and> (\<forall>a < next_addr h. cells h' a = cells h a)"

lemma grown_refl [simp]: "grown h h"
  by (simp add: grown_def)

lemma grown_trans: "grown h h' \<Longrightarrow> grown h' h'' \<Longrightarrow> grown h h''"
  by (auto simp: grown_def)

lemma grown_alloc: "alloc c h = (a, h') \<Longrightarrow> grown h h' \<and> a = next_addr h \<and> cells h' a = Some c \<and>
    next_addr h' = Suc (next_addr h)"
  by (auto simp: alloc_def grown_def)

section \<open>The contract\<close>

type_synonym 'a copier = "'a \<Rightarrow> heap \<Rightarrow> 'a \<times> heap"

text \<open>
  \<open>reach h x\<close> is what \<open>x\<close> points to, \<open>ok h x\<close> says that its pointers point to cells of their type,
  and \<open>view h x\<close> is what a reader of \<open>x\<close> gets to see.
\<close>

locale deep_copier =
  fixes into :: "'a copier"
    and reach :: "heap \<Rightarrow> 'a \<Rightarrow> addr set"
    and ok :: "heap \<Rightarrow> 'a \<Rightarrow> bool"
    and view :: "heap \<Rightarrow> 'a \<Rightarrow> 'v"
  assumes bounded: "ok h x \<Longrightarrow> reach h x \<subseteq> {..<next_addr h}"
    and local: "ok h x \<Longrightarrow> next_addr h \<le> next_addr h' \<Longrightarrow> \<forall>a \<in> reach h x. cells h' a = cells h a \<Longrightarrow>
      ok h' x \<and> reach h' x = reach h x \<and> view h' x = view h x"
    and copied: "ok h x \<Longrightarrow> into x h = (y, h') \<Longrightarrow>
      grown h h' \<and> ok h' y \<and> view h' y = view h x \<and> reach h' y \<subseteq> {next_addr h..<next_addr h'}"
begin

lemma kept:
  assumes "ok h x" and "grown h h'"
  shows "ok h' x" "reach h' x = reach h x" "view h' x = view h x"
proof -
  have "\<forall>a \<in> reach h x. cells h' a = cells h a"
    using assms bounded [of h x] by (auto simp: grown_def)
  with assms show "ok h' x" "reach h' x = reach h x" "view h' x = view h x"
    using local [of h x h'] by (auto simp: grown_def)
qed

text \<open>Writes to the cells of the copy do not show through the original.\<close>

lemma independent:
  assumes "ok h x" and "into x h = (y, h')" and "next_addr h'' = next_addr h'"
    and "\<And>a. a \<notin> reach h' y \<Longrightarrow> cells h'' a = cells h' a"
  shows "view h'' x = view h x"
proof -
  from copied [OF assms(1,2)] have g: "grown h h'" and f: "reach h' y \<subseteq> {next_addr h..<next_addr h'}"
    by auto
  have "\<forall>a \<in> reach h x. cells h'' a = cells h a"
  proof
    fix a
    assume "a \<in> reach h x"
    then have "a < next_addr h" using bounded [OF assms(1)] by auto
    then have "a \<notin> reach h' y" and "cells h' a = cells h a" using f g by (auto simp: grown_def)
    with assms(4) show "cells h'' a = cells h a" by simp
  qed
  with g assms show ?thesis using local [of h x h''] by (auto simp: grown_def)
qed

end

section \<open>Building blocks\<close>

text \<open>\<open>*out = *in\<close> for a struct without pointers.\<close>

definition copy_value :: "'a copier" where
  "copy_value x h = (x, h)"

text \<open>The loop \<open>for i := range in { in[i].DeepCopyInto(&out[i]) }\<close>.\<close>

fun copy_items :: "'a copier \<Rightarrow> 'a list copier" where
  "copy_items into [] h = ([], h)"
| "copy_items into (x # xs) h =
     (case into x h of (y, h1) \<Rightarrow> (case copy_items into xs h1 of (ys, h2) \<Rightarrow> (y # ys, h2)))"

text \<open>\<open>if in.P != nil { out.P = new(T); ... }\<close>, and the same for a slice and \<open>make\<close>.\<close>

definition copy_pointer ::
  "(cell \<Rightarrow> 'b option) \<Rightarrow> ('b \<Rightarrow> cell) \<Rightarrow> 'b copier \<Rightarrow> addr option copier" where
  "copy_pointer read cell_of into p h =
     (case p of
        None \<Rightarrow> (None, h)
      | Some a \<Rightarrow>
          (case Option.bind (cells h a) read of
             None \<Rightarrow> (Some a, h)
           | Some x \<Rightarrow>
               (case into x h of (y, h1) \<Rightarrow>
                  (case alloc (cell_of y) h1 of (b, h2) \<Rightarrow> (Some b, h2)))))"

text \<open>\<open>*out = *in\<close> and then the copy of one field.\<close>

definition copy_field :: "('s \<Rightarrow> 'f) \<Rightarrow> ('f \<Rightarrow> 's \<Rightarrow> 's) \<Rightarrow> 'f copier \<Rightarrow> 's copier" where
  "copy_field get set_to into s h = (case into (get s) h of (p, h') \<Rightarrow> (set_to p s, h'))"

text \<open>What the results of these blocks point to, when they are well formed, and what they show.\<close>

definition no_reach :: "heap \<Rightarrow> 'a \<Rightarrow> addr set" where
  "no_reach h x = {}"

definition always_ok :: "heap \<Rightarrow> 'a \<Rightarrow> bool" where
  "always_ok h x \<longleftrightarrow> True"

definition self_view :: "heap \<Rightarrow> 'a \<Rightarrow> 'a" where
  "self_view h x = x"

definition items_reach :: "(heap \<Rightarrow> 'a \<Rightarrow> addr set) \<Rightarrow> heap \<Rightarrow> 'a list \<Rightarrow> addr set" where
  "items_reach reach h xs = (\<Union>x \<in> set xs. reach h x)"

definition items_ok :: "(heap \<Rightarrow> 'a \<Rightarrow> bool) \<Rightarrow> heap \<Rightarrow> 'a list \<Rightarrow> bool" where
  "items_ok ok h xs \<longleftrightarrow> list_all (ok h) xs"

definition items_view :: "(heap \<Rightarrow> 'a \<Rightarrow> 'v) \<Rightarrow> heap \<Rightarrow> 'a list \<Rightarrow> 'v list" where
  "items_view view h xs = map (view h) xs"

definition pointee :: "(cell \<Rightarrow> 'b option) \<Rightarrow> heap \<Rightarrow> addr \<Rightarrow> 'b option" where
  "pointee read h a = Option.bind (cells h a) read"

definition pointer_reach ::
  "(cell \<Rightarrow> 'b option) \<Rightarrow> (heap \<Rightarrow> 'b \<Rightarrow> addr set) \<Rightarrow> heap \<Rightarrow> addr option \<Rightarrow> addr set" where
  "pointer_reach read reach h p =
     (case p of
        None \<Rightarrow> {}
      | Some a \<Rightarrow> insert a (case pointee read h a of None \<Rightarrow> {} | Some x \<Rightarrow> reach h x))"

definition pointer_ok ::
  "(cell \<Rightarrow> 'b option) \<Rightarrow> (heap \<Rightarrow> 'b \<Rightarrow> bool) \<Rightarrow> heap \<Rightarrow> addr option \<Rightarrow> bool" where
  "pointer_ok read ok h p =
     (case p of
        None \<Rightarrow> True
      | Some a \<Rightarrow> a < next_addr h \<and> (case pointee read h a of None \<Rightarrow> False | Some x \<Rightarrow> ok h x))"

definition pointer_view ::
  "(cell \<Rightarrow> 'b option) \<Rightarrow> (heap \<Rightarrow> 'b \<Rightarrow> 'v) \<Rightarrow> heap \<Rightarrow> addr option \<Rightarrow> 'v option option" where
  "pointer_view read view h p = map_option (\<lambda>a. map_option (view h) (pointee read h a)) p"

definition field_reach :: "('s \<Rightarrow> 'f) \<Rightarrow> (heap \<Rightarrow> 'f \<Rightarrow> addr set) \<Rightarrow> heap \<Rightarrow> 's \<Rightarrow> addr set" where
  "field_reach get reach h s = reach h (get s)"

definition field_ok :: "('s \<Rightarrow> 'f) \<Rightarrow> (heap \<Rightarrow> 'f \<Rightarrow> bool) \<Rightarrow> heap \<Rightarrow> 's \<Rightarrow> bool" where
  "field_ok get ok h s = ok h (get s)"

definition field_view ::
  "('s \<Rightarrow> 'r) \<Rightarrow> ('s \<Rightarrow> 'f) \<Rightarrow> (heap \<Rightarrow> 'f \<Rightarrow> 'v) \<Rightarrow> heap \<Rightarrow> 's \<Rightarrow> 'r \<times> 'v" where
  "field_view rest get view h s = (rest s, view h (get s))"

lemmas shape_defs [go_defs] =
  no_reach_def always_ok_def self_view_def items_reach_def items_ok_def items_view_def
  pointee_def pointer_reach_def pointer_ok_def pointer_view_def
  field_reach_def field_ok_def field_view_def

lemma copy_value_deep: "deep_copier copy_value no_reach always_ok self_view"
  by unfold_locales (auto simp: copy_value_def go_defs)

context deep_copier
begin

lemma items_copied:
  "list_all (ok h) xs \<Longrightarrow> copy_items into xs h = (ys, h') \<Longrightarrow>
   grown h h' \<and> list_all (ok h') ys \<and> map (view h') ys = map (view h) xs \<and>
   (\<Union>y \<in> set ys. reach h' y) \<subseteq> {next_addr h..<next_addr h'}"
proof (induction xs arbitrary: h ys h')
  case (Cons x xs)
  obtain y h1 where y: "into x h = (y, h1)" by (cases "into x h")
  obtain zs h2 where zs: "copy_items into xs h1 = (zs, h2)" by (cases "copy_items into xs h1")
  have res: "ys = y # zs" "h' = h2" using Cons.prems(2) y zs by auto
  have one: "grown h h1" "ok h1 y" "view h1 y = view h x" "reach h1 y \<subseteq> {next_addr h..<next_addr h1}"
    using copied [OF _ y] Cons.prems(1) by auto
  have xs: "list_all (ok h) xs" using Cons.prems(1) by simp
  have "list_all (ok h1) xs"
    using xs kept(1) [OF _ one(1)] by (simp add: list_all_iff)
  from Cons.IH [OF this zs]
  have rest: "grown h1 h2" "list_all (ok h2) zs" "map (view h2) zs = map (view h1) xs"
    "(\<Union>z \<in> set zs. reach h2 z) \<subseteq> {next_addr h1..<next_addr h2}"
    by blast+
  have keep: "ok h2 y" "reach h2 y = reach h1 y" "view h2 y = view h1 y"
    using kept [OF one(2) rest(1)] by blast+
  have "view h1 z = view h z" if "z \<in> set xs" for z
    by (rule kept(3) [OF _ one(1)]) (use xs that in \<open>simp add: list_all_iff\<close>)
  then have views: "map (view h1) xs = map (view h) xs" by simp
  have grow: "grown h h2" "next_addr h \<le> next_addr h1" "next_addr h1 \<le> next_addr h2"
    using grown_trans [OF one(1) rest(1)] one(1) rest(1) by (simp_all add: grown_def)
  have "(\<Union>z \<in> set zs. reach h2 z) \<subseteq> {next_addr h..<next_addr h2}"
    using rest(4) grow(2) by fastforce
  moreover have "reach h2 y \<subseteq> {next_addr h..<next_addr h2}"
    using keep(2) one(4) grow(3) by fastforce
  ultimately show ?case
    unfolding res using rest(2,3) keep(1,3) one(3) views grow(1) by simp
qed simp

lemma items: "deep_copier (copy_items into) (items_reach reach) (items_ok ok) (items_view view)"
  unfolding items_reach_def items_ok_def items_view_def
proof
  show "(\<Union>x \<in> set xs. reach h x) \<subseteq> {..<next_addr h}" if "list_all (ok h) xs" for h xs
    using that bounded by (fastforce simp: list_all_iff)
  show "list_all (ok h') xs \<and> (\<Union>x \<in> set xs. reach h' x) = (\<Union>x \<in> set xs. reach h x) \<and>
      map (view h') xs = map (view h) xs"
    if "list_all (ok h) xs" "next_addr h \<le> next_addr h'"
      "\<forall>a \<in> \<Union>x \<in> set xs. reach h x. cells h' a = cells h a" for h xs h'
  proof -
    have "ok h' x \<and> reach h' x = reach h x \<and> view h' x = view h x" if "x \<in> set xs" for x
      using local [of h x h'] that \<open>list_all (ok h) xs\<close> \<open>next_addr h \<le> next_addr h'\<close>
        \<open>\<forall>a \<in> \<Union>x \<in> set xs. reach h x. cells h' a = cells h a\<close>
      by (auto simp: list_all_iff)
    then show ?thesis by (auto simp: list_all_iff)
  qed
qed (use items_copied in blast)

lemma pointer:
  assumes "\<And>x. read (cell_of x) = Some x"
  shows "deep_copier (copy_pointer read cell_of into)
     (pointer_reach read reach) (pointer_ok read ok) (pointer_view read view)"
  unfolding pointer_reach_def pointer_ok_def pointer_view_def pointee_def
proof (unfold_locales, goal_cases)
  case (1 h p)
  then show ?case using bounded by (fastforce split: option.splits)
next
  case (2 h p h')
  then show ?case using local [of h _ h'] by (auto split: option.splits)
next
  case (3 h p q h')
  show ?case
  proof (cases p)
    case None
    with 3 show ?thesis by (simp add: copy_pointer_def)
  next
    case (Some a)
    with 3(1) obtain x where x: "Option.bind (cells h a) read = Some x" "ok h x" "a < next_addr h"
      by (auto split: option.splits)
    obtain y h1 where y: "into x h = (y, h1)" by (cases "into x h")
    obtain b h2 where b: "alloc (cell_of y) h1 = (b, h2)" by (cases "alloc (cell_of y) h1")
    have res: "q = Some b" "h' = h2" using 3(2) Some x y b by (auto simp: copy_pointer_def)
    note one = copied [OF x(2) y] and new = grown_alloc [OF b]
    have "ok h2 y" "reach h2 y = reach h1 y" "view h2 y = view h1 y"
      using one new kept [of h1 y h2] by auto
    then show ?thesis
      using Some x res one new grown_trans [of h h1 h2] assms
      by (auto simp: grown_def)
  qed
qed

lemma field:
  assumes "\<And>p s. get (set_to p s) = p" and "\<And>p s. rest (set_to p s) = rest s"
  shows "deep_copier (copy_field get set_to into)
     (field_reach get reach) (field_ok get ok) (field_view rest get view)"
  unfolding field_reach_def field_ok_def field_view_def
proof (unfold_locales, goal_cases)
  case (1 h s)
  then show ?case by (rule bounded)
next
  case (2 h s h')
  then show ?case using local [of h "get s" h'] by simp
next
  case (3 h s t h')
  obtain p h1 where p: "into (get s) h = (p, h1)" by (cases "into (get s) h")
  with 3(2) assms have "t = set_to p s" "h' = h1" by (auto simp: copy_field_def)
  with copied [OF 3(1) p] assms show ?case by simp
qed

end

section \<open>The copies of the API types\<close>

text \<open>
  \<open>DeepCopy\<close> and \<open>DeepCopyObject\<close> of every type: nil for nil, otherwise a new struct filled by
  \<open>DeepCopyInto\<close>.
\<close>

definition deep_copy :: "'a copier \<Rightarrow> 'a option copier" where
  "deep_copy into p h =
     (case p of
        None \<Rightarrow> (None, h)
      | Some x \<Rightarrow> (case into x h of (y, h') \<Rightarrow> (Some y, h')))"

definition account_spec_into :: "account_spec copier" where
  "account_spec_into = copy_value"

definition account_spec_deep_copy :: "account_spec option copier" where
  "account_spec_deep_copy = deep_copy account_spec_into"

fun time_of :: "cell \<Rightarrow> int option" where
  "time_of (TimeCell t) = Some t"
| "time_of _ = None"

definition account_status_into :: "addr account_status copier" where
  "account_status_into =
     copy_field acs_last_sync_time (\<lambda>p s. s\<lparr>acs_last_sync_time := p\<rparr>)
       (copy_pointer time_of TimeCell copy_value)"

definition account_status_deep_copy :: "addr account_status option copier" where
  "account_status_deep_copy = deep_copy account_status_into"

definition account_info_into :: "account_info copier" where
  "account_info_into = copy_value"

definition account_info_deep_copy :: "account_info option copier" where
  "account_info_deep_copy = deep_copy account_info_into"

text \<open>The spec assigns its region as a value, and with it the kubeconfig pointer.\<close>

definition kd_spec_into :: "addr kd_spec copier" where
  "kd_spec_into s h = (s\<lparr>ks_account := ks_account s, ks_region := ks_region s\<rparr>, h)"

definition kd_spec_deep_copy :: "addr kd_spec option copier" where
  "kd_spec_deep_copy = deep_copy kd_spec_into"

fun conditions_of :: "cell \<Rightarrow> condition list option" where
  "conditions_of (ConditionsCell cs) = Some cs"
| "conditions_of _ = None"

definition kd_status_into :: "addr option kd_status copier" where
  "kd_status_into =
     copy_field st_conditions (\<lambda>p s. s\<lparr>st_conditions := p\<rparr>)
       (copy_pointer conditions_of ConditionsCell (copy_items copy_value))"

definition kd_status_deep_copy :: "addr option kd_status option copier" where
  "kd_status_deep_copy = deep_copy kd_status_into"

fun kubeconfig_of :: "cell \<Rightarrow> kubeconfig_ref option" where
  "kubeconfig_of (KubeconfigCell k) = Some k"
| "kubeconfig_of _ = None"

definition kubeconfig_fill :: "kubeconfig_ref copier" where
  "kubeconfig_fill k h = (\<lparr>kr_secret = kr_secret k\<rparr>, h)"

definition region_info_into :: "addr region_info copier" where
  "region_info_into =
     copy_field ri_kubeconfig (\<lambda>p r. r\<lparr>ri_kubeconfig := p\<rparr>)
       (copy_pointer kubeconfig_of KubeconfigCell kubeconfig_fill)"

definition region_info_deep_copy :: "addr region_info option copier" where
  "region_info_deep_copy = deep_copy region_info_into"

definition kubeconfig_ref_into :: "kubeconfig_ref copier" where
  "kubeconfig_ref_into = copy_value"

definition kubeconfig_ref_deep_copy :: "kubeconfig_ref option copier" where
  "kubeconfig_ref_deep_copy = deep_copy kubeconfig_ref_into"

definition secret_ref_into :: "secret_ref copier" where
  "secret_ref_into = copy_value"

definition secret_ref_deep_copy :: "secret_ref option copier" where
  "secret_ref_deep_copy = deep_copy secret_ref_into"

definition account_into :: "addr account copier" where
  "account_into a h =
     (case copy_value (ac_meta a) h of (meta, h1) \<Rightarrow>
        (case account_spec_into (ac_spec a) h1 of (spec, h2) \<Rightarrow>
           (case account_status_into (ac_status a) h2 of (status, h3) \<Rightarrow>
              (a\<lparr>ac_type := ac_type a, ac_meta := meta, ac_spec := spec, ac_status := status\<rparr>, h3))))"

definition account_deep_copy_object :: "addr account option copier" where
  "account_deep_copy_object = deep_copy account_into"

fun accounts_of :: "cell \<Rightarrow> addr account list option" where
  "accounts_of (AccountsCell xs) = Some xs"
| "accounts_of _ = None"

definition account_list_into :: "addr option list_object copier" where
  "account_list_into =
     copy_field lo_items (\<lambda>p l. l\<lparr>lo_items := p\<rparr>)
       (copy_pointer accounts_of AccountsCell (copy_items account_into))"

definition account_list_deep_copy_object :: "addr option list_object option copier" where
  "account_list_deep_copy_object = deep_copy account_list_into"

definition kd_into :: "heap_deployment copier" where
  "kd_into d h =
     (case copy_value (kd_meta d) h of (meta, h1) \<Rightarrow>
        (case kd_spec_into (kd_spec d) h1 of (spec, h2) \<Rightarrow>
           (case kd_status_into (kd_status d) h2 of (status, h3) \<Rightarrow>
              (d\<lparr>kd_type := kd_type d, kd_meta := meta, kd_spec := spec, kd_status := status\<rparr>, h3))))"

definition kd_deep_copy_object :: "heap_deployment option copier" where
  "kd_deep_copy_object = deep_copy kd_into"

fun deployments_of :: "cell \<Rightarrow> heap_deployment list option" where
  "deployments_of (DeploymentsCell xs) = Some xs"
| "deployments_of _ = None"

definition kd_list_into :: "addr option list_object copier" where
  "kd_list_into =
     copy_field lo_items (\<lambda>p l. l\<lparr>lo_items := p\<rparr>)
       (copy_pointer deployments_of DeploymentsCell (copy_items kd_into))"

definition kd_list_deep_copy_object :: "addr option list_object option copier" where
  "kd_list_deep_copy_object = deep_copy kd_list_into"

definition region_spec_into :: "region_spec copier" where
  "region_spec_into = copy_value"

definition region_spec_deep_copy :: "region_spec option copier" where
  "region_spec_deep_copy = deep_copy region_spec_into"

definition region_into :: "region copier" where
  "region_into r h =
     (case copy_value (rg_meta r) h of (meta, h1) \<Rightarrow>
        (case region_spec_into (rg_spec r) h1 of (spec, h2) \<Rightarrow>
           (r\<lparr>rg_type := rg_type r, rg_meta := meta, rg_spec := spec\<rparr>, h2)))"

definition region_deep_copy_object :: "region option copier" where
  "region_deep_copy_object = deep_copy region_into"

fun regions_of :: "cell \<Rightarrow> region list option" where
  "regions_of (RegionsCell xs) = Some xs"
| "regions_of _ = None"

definition region_list_into :: "addr option list_object copier" where
  "region_list_into =
     copy_field lo_items (\<lambda>p l. l\<lparr>lo_items := p\<rparr>)
       (copy_pointer regions_of RegionsCell (copy_items region_into))"

definition region_list_deep_copy_object :: "addr option list_object option copier" where
  "region_list_deep_copy_object = deep_copy region_list_into"

section \<open>Which copies keep the contract\<close>

interpretation plain: deep_copier copy_value no_reach always_ok self_view
  by (rule copy_value_deep)

lemma kubeconfig_fill_eq: "kubeconfig_fill = copy_value"
  by (auto simp: fun_eq_iff kubeconfig_fill_def copy_value_def)

definition region_rest :: "'p region_info \<Rightarrow> string \<times> string" where
  "region_rest r = (ri_name r, ri_kubeconfig_secret_name r)"

interpretation region_info: deep_copier region_info_into
  "field_reach ri_kubeconfig (pointer_reach kubeconfig_of no_reach)"
  "field_ok ri_kubeconfig (pointer_ok kubeconfig_of always_ok)"
  "field_view region_rest ri_kubeconfig (pointer_view kubeconfig_of self_view)"
  unfolding region_info_into_def kubeconfig_fill_eq
  by (intro deep_copier.field plain.pointer) (simp_all add: region_rest_def)

definition status_rest :: "'c kd_status \<Rightarrow> string \<times> string \<times> string" where
  "status_rest s = (st_phase s, st_last_message s, st_last_applied_chart s)"

interpretation kd_status: deep_copier kd_status_into
  "field_reach st_conditions (pointer_reach conditions_of (items_reach no_reach))"
  "field_ok st_conditions (pointer_ok conditions_of (items_ok always_ok))"
  "field_view status_rest st_conditions (pointer_view conditions_of (items_view self_view))"
  unfolding kd_status_into_def
  by (intro deep_copier.field deep_copier.pointer plain.items) (simp_all add: status_rest_def)

interpretation account_status: deep_copier account_status_into
  "field_reach acs_last_sync_time (pointer_reach time_of no_reach)"
  "field_ok acs_last_sync_time (pointer_ok time_of always_ok)"
  "field_view acs_ready acs_last_sync_time (pointer_view time_of self_view)"
  unfolding account_status_into_def
  by (intro deep_copier.field plain.pointer) simp_all

text \<open>A struct whose only pointers are in its status is copied like a struct with one such field.\<close>

lemma account_into_eq:
  "account_into = copy_field ac_status (\<lambda>p a. a\<lparr>ac_status := p\<rparr>) account_status_into"
  by (auto simp: fun_eq_iff account_into_def copy_field_def copy_value_def account_spec_into_def
      split: prod.splits)

lemma kd_into_eq: "kd_into = copy_field kd_status (\<lambda>p d. d\<lparr>kd_status := p\<rparr>) kd_status_into"
  by (auto simp: fun_eq_iff kd_into_def copy_field_def copy_value_def kd_spec_into_def
      split: prod.splits)

lemma region_into_eq: "region_into = copy_value"
  by (auto simp: fun_eq_iff region_into_def copy_value_def region_spec_into_def)

definition account_rest :: "'t account \<Rightarrow> type_meta \<times> object_meta \<times> account_spec" where
  "account_rest a = (ac_type a, ac_meta a, ac_spec a)"

interpretation account: deep_copier account_into
  "field_reach ac_status (field_reach acs_last_sync_time (pointer_reach time_of no_reach))"
  "field_ok ac_status (field_ok acs_last_sync_time (pointer_ok time_of always_ok))"
  "field_view account_rest ac_status
     (field_view acs_ready acs_last_sync_time (pointer_view time_of self_view))"
  unfolding account_into_eq
  by (rule account_status.field) (simp_all add: account_rest_def)

text \<open>
  For a deployment the contract holds when its spec is shown with the address in it: what the
  kubeconfig pointer points to is not part of what the copy makes anew.
\<close>

definition kd_rest :: "('p, 'c) krypton_deployment \<Rightarrow> type_meta \<times> object_meta \<times> 'p kd_spec" where
  "kd_rest d = (kd_type d, kd_meta d, kd_spec d)"

abbreviation kd_reach :: "heap \<Rightarrow> heap_deployment \<Rightarrow> addr set" where
  "kd_reach \<equiv> field_reach kd_status
     (field_reach st_conditions (pointer_reach conditions_of (items_reach no_reach)))"

abbreviation kd_ok :: "heap \<Rightarrow> heap_deployment \<Rightarrow> bool" where
  "kd_ok \<equiv> field_ok kd_status
     (field_ok st_conditions (pointer_ok conditions_of (items_ok always_ok)))"

abbreviation kd_view ::
  "heap \<Rightarrow> heap_deployment \<Rightarrow> (type_meta \<times> object_meta \<times> addr kd_spec) \<times>
     ((string \<times> string \<times> string) \<times> condition list option option)" where
  "kd_view \<equiv> field_view kd_rest kd_status
     (field_view status_rest st_conditions (pointer_view conditions_of (items_view self_view)))"

interpretation kd: deep_copier kd_into kd_reach kd_ok kd_view
  unfolding kd_into_eq
  by (rule kd_status.field) (simp_all add: kd_rest_def)

definition list_rest :: "'i list_object \<Rightarrow> type_meta \<times> list_meta" where
  "list_rest l = (lo_type l, lo_meta l)"

interpretation account_list: deep_copier account_list_into
  "field_reach lo_items (pointer_reach accounts_of (items_reach
     (field_reach ac_status (field_reach acs_last_sync_time (pointer_reach time_of no_reach)))))"
  "field_ok lo_items (pointer_ok accounts_of (items_ok
     (field_ok ac_status (field_ok acs_last_sync_time (pointer_ok time_of always_ok)))))"
  "field_view list_rest lo_items (pointer_view accounts_of (items_view
     (field_view account_rest ac_status
       (field_view acs_ready acs_last_sync_time (pointer_view time_of self_view)))))"
  unfolding account_list_into_def
  by (intro deep_copier.field deep_copier.pointer account.items) (simp_all add: list_rest_def)

interpretation kd_list: deep_copier kd_list_into
  "field_reach lo_items (pointer_reach deployments_of (items_reach kd_reach))"
  "field_ok lo_items (pointer_ok deployments_of (items_ok kd_ok))"
  "field_view list_rest lo_items (pointer_view deployments_of (items_view kd_view))"
  unfolding kd_list_into_def
  by (intro deep_copier.field deep_copier.pointer kd.items) (simp_all add: list_rest_def)

interpretation region_list: deep_copier region_list_into
  "field_reach lo_items (pointer_reach regions_of (items_reach no_reach))"
  "field_ok lo_items (pointer_ok regions_of (items_ok always_ok))"
  "field_view list_rest lo_items (pointer_view regions_of (items_view self_view))"
  unfolding region_list_into_def region_into_eq
  by (intro deep_copier.field deep_copier.pointer plain.items) (simp_all add: list_rest_def)

section \<open>Properties\<close>

definition write_cell :: "addr \<Rightarrow> cell \<Rightarrow> heap \<Rightarrow> heap" where
  "write_cell a c h = h\<lparr>cells := (cells h)(a \<mapsto> c)\<rparr>"

lemma write_cell_simps [simp]:
  "next_addr (write_cell a c h) = next_addr h"
  "cells (write_cell a c h) b = (if b = a then Some c else cells h b)"
  by (simp_all add: write_cell_def)

context deep_copier
begin

lemma write_independent:
  assumes "ok h x" and "into x h = (y, h')" and "a \<in> reach h' y"
  shows "view (write_cell a c h') x = view h x"
  by (rule independent [OF assms(1,2)]) (use assms(3) in auto)

end

definition sample_ref :: kubeconfig_ref where
  "sample_ref = \<lparr>kr_secret = \<lparr>sr_name = ''edge'', sr_namespace = ''ns''\<rparr>\<rparr>"

definition sample_heap :: heap where
  "sample_heap = \<lparr>cells = [0 \<mapsto> KubeconfigCell sample_ref], next_addr = 1\<rparr>"

definition sample_region :: "addr region_info" where
  "sample_region = \<lparr>ri_name = ''eu'', ri_kubeconfig = Some 0, ri_kubeconfig_secret_name = []\<rparr>"

definition sample_spec :: "addr kd_spec" where
  "sample_spec = \<lparr>ks_account = \<lparr>ai_name = ''acme'', ai_display_name = [], ai_owner = []\<rparr>,
     ks_region = sample_region\<rparr>"



text \<open>
  C33. The copy of a list of deployments reads like the original, and no write to its items or to
  their conditions is seen through the original; the kubeconfig pointers are shown as addresses.
\<close>

theorem kd_list_copy_deep_but_kubeconfig:
  assumes "field_ok lo_items (pointer_ok deployments_of (items_ok kd_ok)) h l"
    and "kd_list_into l h = (l', h')"
    and "a \<in> field_reach lo_items (pointer_reach deployments_of (items_reach kd_reach)) h' l'"
  shows "field_view list_rest lo_items (pointer_view deployments_of (items_view kd_view)) h' l' =
      field_view list_rest lo_items (pointer_view deployments_of (items_view kd_view)) h l \<and>
    field_view list_rest lo_items (pointer_view deployments_of (items_view kd_view))
        (write_cell a c h') l =
      field_view list_rest lo_items (pointer_view deployments_of (items_view kd_view)) h l"
  using kd_list.copied [OF assms(1,2)] kd_list.write_independent [OF assms] by blast

theorem kd_list_copy_deep_but_kubeconfig_witness:
  "fst (kd_list_into \<lparr>lo_type = \<lparr>tm_kind = [], tm_api_version = []\<rparr>,
      lo_meta = \<lparr>lm_resource_version = [], lm_continue = []\<rparr>, lo_items = Some 1\<rparr>
      \<lparr>cells = [1 \<mapsto> DeploymentsCell []], next_addr = 2\<rparr>) =
    \<lparr>lo_type = \<lparr>tm_kind = [], tm_api_version = []\<rparr>,
      lo_meta = \<lparr>lm_resource_version = [], lm_continue = []\<rparr>, lo_items = Some 2\<rparr> \<and>
   pointer_view deployments_of (items_view kd_view)
      (write_cell 2 (TimeCell 0) \<lparr>cells = [1 \<mapsto> DeploymentsCell [], 2 \<mapsto> DeploymentsCell []],
        next_addr = 3\<rparr>) (Some 1) = Some (Some [])"
  using kd_list_copy_deep_but_kubeconfig
    [of "\<lparr>cells = [1 \<mapsto> DeploymentsCell []], next_addr = 2\<rparr>"
      "\<lparr>lo_type = \<lparr>tm_kind = [], tm_api_version = []\<rparr>,
        lo_meta = \<lparr>lm_resource_version = [], lm_continue = []\<rparr>, lo_items = Some 1\<rparr>"
      "\<lparr>lo_type = \<lparr>tm_kind = [], tm_api_version = []\<rparr>,
        lo_meta = \<lparr>lm_resource_version = [], lm_continue = []\<rparr>, lo_items = Some 2\<rparr>"
      "\<lparr>cells = [1 \<mapsto> DeploymentsCell [], 2 \<mapsto> DeploymentsCell []], next_addr = 3\<rparr>" 2 "TimeCell 0"]
  by (simp add: go_defs kd_list_into_def copy_field_def copy_pointer_def alloc_def)

text \<open>
  C34. The copy of a spec keeps the kubeconfig pointer of the original, so a write through the copy
  changes what the original shows: the copy of a deployment is not deep.
\<close>

theorem kd_spec_copy_shares_kubeconfig:
  assumes "ri_kubeconfig (ks_region s) = Some a"
  shows "\<exists>s' h'. kd_spec_into s h = (s', h') \<and> ri_kubeconfig (ks_region s') = Some a \<and>
    pointer_view kubeconfig_of self_view (write_cell a (KubeconfigCell k) h')
      (ri_kubeconfig (ks_region s)) = Some (Some k)"
  using assms by (simp add: kd_spec_into_def go_defs)

theorem kd_spec_copy_shares_kubeconfig_witness:
  "\<exists>s' h'. kd_spec_into sample_spec sample_heap = (s', h') \<and>
    ri_kubeconfig (ks_region s') = Some 0 \<and>
    pointer_view kubeconfig_of self_view (write_cell 0 (KubeconfigCell sample_ref) h')
      (ri_kubeconfig (ks_region sample_spec)) = Some (Some sample_ref)"
  by (rule kd_spec_copy_shares_kubeconfig) (simp add: sample_spec_def sample_region_def)

end
