(* ===== verification/Spec2Isabelle.thy ===== *)
theory Spec2Isabelle
  imports Home_Writes Edge_Scope Reconcile_Results Reconcile_Protocol Reconcile_Progress Cluster_Routing Startup_Wiring Deep_Copy
begin

text \<open>
  Verification of the Krypton operator.

  The program. The operator watches \<open>KryptonDeployment\<close> objects on a home cluster and keeps, for each
  of them, a release of one Helm chart on the edge cluster its region names. The process starts in
  \<open>RunKryptonOperator\<close> (\<open>internal/multicluster/krypton_operator.go\<close>), which reads flags and
  environment, builds the configuration of the watch cluster, constructs two managers and the Secret
  provider, may create the CRD (\<open>crd_watch.go\<close>), and registers \<open>reconcileCED\<close> as the handler of the
  home controller. A reconciliation reads the object, puts a finalizer on it, resolves the target
  cluster through the provider (\<open>multicluster/secretprovider/provider.go\<close>), ensures the namespace,
  checks the installed release against its manifest, deploys the chart, checks the Deployments and
  writes the status; a deletion uninstalls the release, deletes the namespace and takes the finalizer
  off.

  Foundations.
  \<^item> \<open>Prelude\<close>: Go errors, durations (64-bit words that wrap around), environment, generic lemmas.
  \<^item> \<open>Go_Strings\<close>, \<open>Go_Duration\<close>: the functions of \<open>strings\<close>, \<open>strconv\<close>, \<open>path/filepath\<close> and \<open>time\<close> the
    code uses (\<open>Index\<close>, \<open>SplitN\<close>, \<open>TrimSpace\<close>, \<open>Atoi\<close>, \<open>ParseDuration\<close>).
  \<^item> \<open>Go_Monad\<close>: handlers as computations of a state monad whose state holds the outside world, the
    trace of calls and the cached check interval. \<open>emits\<close> is the judgement on the calls and the result
    of a computation, \<open>keeps\<close> the one on an invariant of the world and the trace, \<open>upholds\<close> its special
    case of a predicate on the calls.
  \<^item> \<open>Go_Effects\<close>: the record \<open>ops\<close> of everything external (Kubernetes clients, the multicluster
    manager, Helm, HTTP, files) and the type \<open>effect\<close> of the calls. No behaviour of these is assumed:
    every theorem about the handlers holds for all answers.
  \<^item> \<open>Api_Types\<close>: the structs of \<open>api/v1alpha1\<close> as records.

  Components, one theory each.
  \<^item> \<open>Check_Interval\<close> (\<open>getCheckInterval\<close>): the interval is positive but for a wrapped multiplication.
  \<^item> \<open>Manifest\<close> (\<open>splitYAMLDocuments\<close>, \<open>parseManifestToObjects\<close>): splitting is the inverse of joining,
    parsing is a homomorphism and never fails. The recursion ends because each step drops four bytes.
  \<^item> \<open>Workload_Health\<close> (\<open>rcedNamespaceWorkloadHealthy\<close>), \<open>Helm_Deploy\<close> (\<open>deployHelmChart\<close>,
    \<open>uninstallHelmChart\<close>), \<open>Check_Heal\<close> (\<open>rcedCheckAndHeal\<close>): what each does and returns on every branch.
  \<^item> \<open>Rest_Getter\<close> (\<open>internal/helmutil/restgetter.go\<close>): the adapter for Helm. It only hands things on;
    there is no property of it but that it fails only where the library does.
  \<^item> \<open>Secret_Provider\<close> (\<open>provider.go\<close>): the provider satisfies the locale \<open>cluster_cache\<close>, from which
    follows that it holds exactly what it has answered and does not change it.
  \<^item> \<open>Crd_Watch\<close> (\<open>EnsureKryptonDeploymentCRD\<close>): five attempts, as in the code; success means present.
  \<^item> \<open>Deep_Copy\<close> (\<open>deepcopy_manual.go\<close>): the copies on a heap of cells; the locale \<open>deep_copier\<close> is what a
    deep copy promises, and each copier is shown to satisfy it, up to the kubeconfig pointer that
    \<open>KryptonDeploymentSpec\<close> shares.
  \<^item> \<open>Watch_Config\<close> (flags, environment, watch scope, \<open>buildWatchConfig\<close>) and \<open>Startup\<close> (schemes,
    managers, CRDs, controller, \<open>startManagers\<close>): the steps of the process in order. \<open>group_step\<close> gives
    the two goroutines of \<open>startManagers\<close> and their channel as a transition system.
  \<^item> \<open>Reconcile\<close>: \<open>reconcileCED\<close>, \<open>rcedResolveTarget\<close>, \<open>rcedEnsureNamespace\<close>, \<open>rcedHandleDelete\<close>,
    \<open>rcedDeployAndStatus\<close>, statement by statement.

  What is shown of a reconciliation.
  \<^item> \<open>Reconcile_Runs\<close>: every run of \<open>reconcile_ced\<close> follows one rule of the inductive relation
    \<open>reconcile_run\<close>; the theories below argue by cases on it.
  \<^item> \<open>Reconcile_Properties\<close>: the finalizer precedes changes of the edge, \<open>Ready\<close> needs evidence, only
    deleted objects are torn down, a run is queued again until the object is settled; and the error
    paths that leave something behind.
  \<^item> \<open>Reconcile_Results\<close>: no error is returned, and the delay is read off the calls by a table.
  \<^item> \<open>Reconcile_Protocol\<close>: an abstract machine of eighteen states, and the refinement: the actions of every
    run are a run of the machine, which ends in a state that fits the result.
  \<^item> \<open>Reconcile_Progress\<close>: a run whose calls are all answered well reaches \<open>Ready\<close>.
  \<^item> \<open>Home_Writes\<close>: what is written to the home cluster is well-formed.
  \<^item> \<open>Edge_Scope\<close>: what is changed on an edge cluster is limited to the object's name and
    target.

  Components together.
  \<^item> \<open>Cluster_Routing\<close>: the reconciler with the provider behind the manager. The locale
    \<open>kept_environment\<close> carries an invariant of the environment and the calls through all handlers; its
    interpretation shows that a resolved cluster stays the same over all later reconciliations. The names the
    reconciler builds are the ones the provider takes apart.
  \<^item> \<open>Startup_Wiring\<close>: every part is constructed with the settings read.
  \<^item> \<open>Example_World\<close>: a concrete environment for the witnesses.

  Bounds and fuel. No definition needs fuel: loops run over lists, over a string that gets shorter,
  or over the code's own constant (\<open>5\<close> attempts for the CRD, \<open>2\<close> managers).

  Not modelled: log output; the contexts and their cancellation (a cancelled call is one that answers
  with an error); the insides of client-go, controller-runtime, Helm and the YAML decoder, which are
  parameters; the schedule of the work queue, of which only the requeue delay is kept, and
  \<open>Cluster_Routing\<close> takes one worker, controller-runtime's default; the accessors \<open>GetObjectKind\<close>,
  which return the address of a field; charts, manifests and scripts.
\<close>

end
